(* ===== verification/Prelude.thy ===== *)
theory Prelude
  imports Main "HOL-Library.Char_ord" "HOL-Library.List_Lexorder"
begin

text \<open>
  The vocabulary every component shares: Go's 64-bit integers (kept as \<open>int\<close> with the
  wrap-around written out), instants and durations in nanoseconds, byte strings, errors as
  values, and the generic lemmas on lists and runs the component proofs rest on.
\<close>

named_theorems go_arith \<open>facts that remove the 64-bit wrap-around from values in range\<close>
named_theorems go_string \<open>facts on byte strings\<close>

section \<open>Signed 64-bit integers\<close>

definition wrap64 :: "int \<Rightarrow> int" where
  "wrap64 x = (x + 2 ^ 63) mod 2 ^ 64 - 2 ^ 63"

definition in64 :: "int \<Rightarrow> bool" where
  "in64 x \<longleftrightarrow> - (2 ^ 63) \<le> x \<and> x < 2 ^ 63"

text \<open>Go's integer division truncates towards zero.\<close>

definition go_quot :: "int \<Rightarrow> int \<Rightarrow> int" where
  "go_quot a b = sgn a * sgn b * (\<bar>a\<bar> div \<bar>b\<bar>)"

lemma wrap64_id [go_arith]: "in64 x \<Longrightarrow> wrap64 x = x"
  by (simp add: wrap64_def in64_def)

lemma in64_wrap64 [simp, intro]: "in64 (wrap64 x)"
proof -
  have "0 \<le> (x + 2 ^ 63) mod 2 ^ 64" "(x + 2 ^ 63) mod 2 ^ 64 < (2 :: int) ^ 64" by simp_all
  then show ?thesis by (simp add: wrap64_def in64_def)
qed

lemma in64I: "- (2 ^ 63) \<le> x \<Longrightarrow> x < 2 ^ 63 \<Longrightarrow> in64 x"
  by (simp add: in64_def)

lemma go_quot_nonneg: "0 \<le> a \<Longrightarrow> 0 < b \<Longrightarrow> go_quot a b = a div b"
  by (auto simp: go_quot_def sgn_if)

lemma go_quot_nonpos: "a \<le> 0 \<Longrightarrow> 0 < b \<Longrightarrow> go_quot a b \<le> 0"
  by (auto simp: go_quot_def sgn_if pos_imp_zdiv_nonneg_iff)

section \<open>Instants and durations\<close>

text \<open>
  An instant (\<open>time.Time\<close>) is the number of nanoseconds since Go's zero time, the first of
  January of year 1, so that \<open>IsZero\<close> is being 0. A duration (\<open>time.Duration\<close>) is a signed
  64-bit number of nanoseconds. \<open>Sub\<close> saturates at the ends of the 64-bit range, as Go's does.
\<close>

type_synonym instant = int
type_synonym duration = int

definition time_IsZero :: "instant \<Rightarrow> bool" where
  "time_IsZero t \<longleftrightarrow> t = 0"

definition time_Sub :: "instant \<Rightarrow> instant \<Rightarrow> duration" where
  "time_Sub t u = max (- (2 ^ 63)) (min (2 ^ 63 - 1) (t - u))"

definition time_Add :: "instant \<Rightarrow> duration \<Rightarrow> instant" where
  "time_Add t d = t + d"

definition unix_epoch :: instant where
  "unix_epoch = 62135596800 * 10 ^ 9"

definition time_Unix :: "instant \<Rightarrow> int" where
  "time_Unix t = (t - unix_epoch) div 10 ^ 9"

definition time_UnixMilli :: "instant \<Rightarrow> int" where
  "time_UnixMilli t = (t - unix_epoch) div 10 ^ 6"

definition time_UnixNano :: "instant \<Rightarrow> int" where
  "time_UnixNano t = wrap64 (t - unix_epoch)"

definition time_ofUnixMilli :: "int \<Rightarrow> instant" where
  "time_ofUnixMilli ms = unix_epoch + ms * 10 ^ 6"

definition time_ofUnix :: "int \<Rightarrow> instant" where
  "time_ofUnix s = unix_epoch + s * 10 ^ 9"

abbreviation Second :: duration where
  "Second \<equiv> 10 ^ 9"

abbreviation Millisecond :: duration where
  "Millisecond \<equiv> 10 ^ 6"

lemma time_Sub_less_iff: "d < 2 ^ 63 \<Longrightarrow> - (2 ^ 63) < d \<Longrightarrow> time_Sub t u < d \<longleftrightarrow> t - u < d"
  by (auto simp: time_Sub_def max_def min_def)

lemma time_Sub_le: "0 \<le> t - u \<Longrightarrow> time_Sub t u \<le> t - u"
  by (simp add: time_Sub_def)

lemma time_Sub_nonneg: "0 \<le> t - u \<Longrightarrow> 0 \<le> time_Sub t u"
  by (simp add: time_Sub_def)

lemma time_Sub_neg: "t - u < 0 \<Longrightarrow> time_Sub t u < 0"
  by (simp add: time_Sub_def)

lemma in64_time_Sub [simp]: "in64 (time_Sub t u)"
  by (simp add: time_Sub_def in64_def)

lemma time_UnixMilli_ofUnixMilli [simp]: "time_UnixMilli (time_ofUnixMilli ms) = ms"
  by (simp add: time_UnixMilli_def time_ofUnixMilli_def)

section \<open>Byte strings\<close>

text \<open>
  A Go string is a sequence of bytes, an HOL \<open>char\<close> is a byte, and Go's \<open><\<close> on strings is the
  byte-wise lexicographic order of \<open>HOL-Library.List_Lexorder\<close>. Case mapping is modelled on the
  ASCII letters, the alphabet of every symbol, status and header the code maps.
\<close>

definition char_upper :: "char \<Rightarrow> char" where
  "char_upper c = (let n = of_char c :: nat in if 97 \<le> n \<and> n \<le> 122 then char_of (n - 32) else c)"

definition char_lower :: "char \<Rightarrow> char" where
  "char_lower c = (let n = of_char c :: nat in if 65 \<le> n \<and> n \<le> 90 then char_of (n + 32) else c)"

definition ToUpper :: "string \<Rightarrow> string" where
  "ToUpper s = map char_upper s"

definition ToLower :: "string \<Rightarrow> string" where
  "ToLower s = map char_lower s"

fun HasPrefix :: "string \<Rightarrow> string \<Rightarrow> bool" where
  "HasPrefix s [] = True"
| "HasPrefix [] (c # cs) = False"
| "HasPrefix (d # s) (c # cs) = (d = c \<and> HasPrefix s cs)"

definition TrimPrefix :: "string \<Rightarrow> string \<Rightarrow> string" where
  "TrimPrefix s p = (if HasPrefix s p then drop (length p) s else s)"

definition HasSuffix :: "string \<Rightarrow> string \<Rightarrow> bool" where
  "HasSuffix s p = HasPrefix (rev s) (rev p)"

definition TrimSuffix :: "string \<Rightarrow> string \<Rightarrow> string" where
  "TrimSuffix s p = (if HasSuffix s p then take (length s - length p) s else s)"

text \<open>\<open>strings.Split\<close> on a one-byte separator, and \<open>strings.SplitN\<close> with limit 2.\<close>

fun Split :: "char \<Rightarrow> string \<Rightarrow> string list" where
  "Split c [] = [[]]"
| "Split c (d # s) =
     (if d = c then [] # Split c s
      else (case Split c s of [] \<Rightarrow> [[d]] | w # ws \<Rightarrow> (d # w) # ws))"

fun SplitN2 :: "char \<Rightarrow> string \<Rightarrow> string \<times> string option" where
  "SplitN2 c [] = ([], None)"
| "SplitN2 c (d # s) =
     (if d = c then ([], Some s) else (let (w, r) = SplitN2 c s in (d # w, r)))"

fun Join :: "string list \<Rightarrow> string \<Rightarrow> string" where
  "Join [] sep = []"
| "Join [w] sep = w"
| "Join (w # ws) sep = w @ sep @ Join ws sep"

text \<open>\<open>strconv.FormatInt\<close> in base 10.\<close>

fun nat_digits :: "nat \<Rightarrow> string" where
  "nat_digits n =
     (if n < 10 then [char_of (48 + n)] else nat_digits (n div 10) @ [char_of (48 + n mod 10)])"

declare nat_digits.simps [simp del]

definition FormatInt :: "int \<Rightarrow> string" where
  "FormatInt i = (if i < 0 then CHR ''-'' # nat_digits (nat (- i)) else nat_digits (nat i))"

lemma HasPrefix_iff [go_string]: "HasPrefix s p \<longleftrightarrow> (\<exists>t. s = p @ t)"
  by (induction s p rule: HasPrefix.induct) auto

lemma HasSuffix_iff [go_string]: "HasSuffix s p \<longleftrightarrow> (\<exists>t. s = t @ p)"
proof
  assume "HasSuffix s p"
  then obtain t where "rev s = rev p @ t" by (auto simp: HasSuffix_def HasPrefix_iff)
  then have "s = rev t @ p" by (metis rev_append rev_rev_ident)
  then show "\<exists>t. s = t @ p" ..
next
  assume "\<exists>t. s = t @ p"
  then show "HasSuffix s p" by (auto simp: HasSuffix_def HasPrefix_iff)
qed

lemma TrimPrefix_append [simp]: "TrimPrefix (p @ s) p = s"
  by (auto simp: TrimPrefix_def HasPrefix_iff)

lemma TrimSuffix_append [simp]: "TrimSuffix (s @ p) p = s"
  by (auto simp: TrimSuffix_def HasSuffix_iff)

lemma char_upper_lower: "char_upper (char_lower c) = char_upper c"
  by (auto simp: char_upper_def char_lower_def Let_def)

lemma ToUpper_ToLower [simp]: "ToUpper (ToLower s) = ToUpper s"
  by (simp add: ToUpper_def ToLower_def char_upper_lower)

lemma ToUpper_append [simp]: "ToUpper (s @ t) = ToUpper s @ ToUpper t"
  by (simp add: ToUpper_def)

lemma ToLower_append [simp]: "ToLower (s @ t) = ToLower s @ ToLower t"
  by (simp add: ToLower_def)

lemma SplitN2_no_sep: "c \<notin> set s \<Longrightarrow> SplitN2 c s = (s, None)"
  by (induction s) auto

lemma SplitN2_sep: "c \<notin> set s \<Longrightarrow> SplitN2 c (s @ c # t) = (s, Some t)"
  by (induction s) auto

lemma Split_nonempty [simp]: "Split c s \<noteq> []"
  by (induction s) (auto split: list.splits)

lemma Split_no_sep: "c \<notin> set s \<Longrightarrow> Split c s = [s]"
  by (induction s) auto

lemma Split_sep: "c \<notin> set s \<Longrightarrow> Split c (s @ c # t) = s # Split c t"
  by (induction s) auto

lemma Split_Join:
  "ws \<noteq> [] \<Longrightarrow> list_all (\<lambda>w. c \<notin> set w) ws \<Longrightarrow> Split c (Join ws [c]) = ws"
proof (induction ws)
  case Nil
  then show ?case by simp
next
  case (Cons w ws)
  then show ?case by (cases ws) (simp_all add: Split_no_sep Split_sep)
qed

lemma notin_Join: "c \<notin> set sep \<Longrightarrow> list_all (\<lambda>w. c \<notin> set w) ws \<Longrightarrow> c \<notin> set (Join ws sep)"
  by (induction ws sep rule: Join.induct) auto

text \<open>\<open>strconv.Quote\<close>, the verb \<open>%q\<close>, with every byte above 126 kept as it is.\<close>

definition quote_byte :: "char \<Rightarrow> string" where
  "quote_byte c =
     (let n = of_char c :: nat; hex = (\<lambda>k. if k < 10 then char_of (48 + k) else char_of (87 + k) :: char) in
      if c = CHR 0x22 \<or> c = CHR 0x5C then [CHR 0x5C, c]
      else if n = 7 then [CHR 0x5C, CHR ''a''] else if n = 8 then [CHR 0x5C, CHR ''b'']
      else if n = 12 then [CHR 0x5C, CHR ''f''] else if n = 10 then [CHR 0x5C, CHR ''n'']
      else if n = 13 then [CHR 0x5C, CHR ''r''] else if n = 9 then [CHR 0x5C, CHR ''t'']
      else if n = 11 then [CHR 0x5C, CHR ''v'']
      else if n < 32 \<or> n = 127 then [CHR 0x5C, CHR ''x'', hex (n div 16), hex (n mod 16)]
      else [c])"

definition strconv_Quote :: "string \<Rightarrow> string" where
  "strconv_Quote s = [CHR 0x22] @ concat (map quote_byte s) @ [CHR 0x22]"

section \<open>Runs of a component\<close>

text \<open>
  A sequence of calls to one object: every call sees the state the previous one left. The
  mutex every component holds makes each call one such step.
\<close>

fun run_calls :: "('x \<Rightarrow> 's \<Rightarrow> 's \<times> 'r) \<Rightarrow> 'x list \<Rightarrow> 's \<Rightarrow> 's \<times> 'r list" where
  "run_calls f [] s = (s, [])"
| "run_calls f (x # xs) s =
     (let (s', r) = f x s; (s'', rs) = run_calls f xs s' in (s'', r # rs))"

lemma run_calls_length: "run_calls f xs s = (s', rs) \<Longrightarrow> length rs = length xs"
  by (induction xs arbitrary: s s' rs) (auto split: prod.splits)

lemma run_calls_ConsE:
  assumes "run_calls f (x # xs) s = (s', rs)"
  obtains s1 r rs' where "f x s = (s1, r)" "rs = r # rs'" "run_calls f xs s1 = (s', rs')"
  using assms by (auto split: prod.splits)

lemma run_calls_invariant:
  assumes step: "\<And>x s s' r. I s \<Longrightarrow> f x s = (s', r) \<Longrightarrow> I s'"
  shows "I s \<Longrightarrow> run_calls f xs s = (s', rs) \<Longrightarrow> I s'"
  by (induction xs arbitrary: s rs) (auto split: prod.splits dest: step)

end
