(* ===== verification/GoFloat.thy ===== *)
theory GoFloat
  imports Prelude Complex_Main
begin

text \<open>
  Go's \<open>float64\<close>: IEEE 754 binary64 with round-to-nearest-even. A finite value is the rational
  it denotes, so the two zeros are one value; infinities and NaN are constructors. The gauges,
  the limiters' headroom and the reconnect backoff are computed with it.
\<close>

datatype float64 = F64 rat | F64_PInf | F64_NInf | F64_NaN

section \<open>Rounding\<close>

definition round_half_even :: "rat \<Rightarrow> int" where
  "round_half_even q =
     (let f = \<lfloor>q\<rfloor>; d = q - of_int f
      in if d < 1 / 2 then f else if d > 1 / 2 then f + 1 else if even f then f else f + 1)"

text \<open>
  The exponent of a positive rational, the \<open>k\<close> with \<open>2 ^ k \<le> q < 2 ^ (k + 1)\<close>, from the
  bit lengths of its numerator and denominator.
\<close>

fun bit_length :: "int \<Rightarrow> int" where
  "bit_length n = (if n \<le> 0 then 0 else 1 + bit_length (n div 2))"

declare bit_length.simps [simp del]

definition binary_exponent :: "rat \<Rightarrow> int" where
  "binary_exponent q =
     (let (n, d) = quotient_of q; k = bit_length n - bit_length d
      in if 2 powi k \<le> q then k else k - 1)"

text \<open>The exponent of the last of the 53 bits, bounded below by that of the subnormal numbers.\<close>

definition ulp_exponent :: "rat \<Rightarrow> int" where
  "ulp_exponent q = max (binary_exponent \<bar>q\<bar> - 52) (- 1074)"

definition f64_round :: "rat \<Rightarrow> float64" where
  "f64_round q =
     (if q = 0 then F64 0
      else let e = ulp_exponent q; m = round_half_even (q / 2 powi e)
           in if e > 971 \<or> e = 971 \<and> \<bar>m\<bar> = 2 ^ 53 then (if m > 0 then F64_PInf else F64_NInf)
              else F64 (of_int m * 2 powi e))"

definition f64_of_int :: "int \<Rightarrow> float64" where
  "f64_of_int i = f64_round (of_int i)"

section \<open>Arithmetic\<close>

fun f64_div :: "float64 \<Rightarrow> float64 \<Rightarrow> float64" where
  "f64_div (F64 a) (F64 b) =
     (if b \<noteq> 0 then f64_round (a / b)
      else if a = 0 then F64_NaN else if a > 0 then F64_PInf else F64_NInf)"
| "f64_div F64_NaN _ = F64_NaN"
| "f64_div _ F64_NaN = F64_NaN"
| "f64_div (F64 a) _ = F64 0"
| "f64_div F64_PInf (F64 b) = (if b \<ge> 0 then F64_PInf else F64_NInf)"
| "f64_div F64_NInf (F64 b) = (if b \<ge> 0 then F64_NInf else F64_PInf)"
| "f64_div _ _ = F64_NaN"

fun f64_mul :: "float64 \<Rightarrow> float64 \<Rightarrow> float64" where
  "f64_mul (F64 a) (F64 b) = f64_round (a * b)"
| "f64_mul F64_NaN _ = F64_NaN"
| "f64_mul _ F64_NaN = F64_NaN"
| "f64_mul (F64 a) F64_PInf = (if a = 0 then F64_NaN else if a > 0 then F64_PInf else F64_NInf)"
| "f64_mul (F64 a) F64_NInf = (if a = 0 then F64_NaN else if a > 0 then F64_NInf else F64_PInf)"
| "f64_mul F64_PInf (F64 b) = (if b = 0 then F64_NaN else if b > 0 then F64_PInf else F64_NInf)"
| "f64_mul F64_NInf (F64 b) = (if b = 0 then F64_NaN else if b > 0 then F64_NInf else F64_PInf)"
| "f64_mul F64_PInf F64_PInf = F64_PInf"
| "f64_mul F64_NInf F64_NInf = F64_PInf"
| "f64_mul _ _ = F64_NInf"

text \<open>
  Conversion to \<open>int64\<close> truncates towards zero. Go leaves the value of an out-of-range
  conversion to the implementation; on amd64 it is the least integer.
\<close>

fun int64_of_f64 :: "float64 \<Rightarrow> int" where
  "int64_of_f64 (F64 q) =
     (let t = (if q \<ge> 0 then \<lfloor>q\<rfloor> else - \<lfloor>- q\<rfloor>) in if in64 t then t else - (2 ^ 63))"
| "int64_of_f64 _ = - (2 ^ 63)"

fun f64_less :: "float64 \<Rightarrow> float64 \<Rightarrow> bool" where
  "f64_less (F64 a) (F64 b) = (a < b)"
| "f64_less F64_NInf (F64 _) = True"
| "f64_less (F64 _) F64_PInf = True"
| "f64_less F64_NInf F64_PInf = True"
| "f64_less _ _ = False"

text \<open>\<open>Duration.Seconds\<close>: whole seconds plus the fraction, each rounded.\<close>

fun f64_add :: "float64 \<Rightarrow> float64 \<Rightarrow> float64" where
  "f64_add (F64 a) (F64 b) = f64_round (a + b)"
| "f64_add F64_NaN _ = F64_NaN"
| "f64_add _ F64_NaN = F64_NaN"
| "f64_add F64_PInf F64_NInf = F64_NaN"
| "f64_add F64_NInf F64_PInf = F64_NaN"
| "f64_add F64_PInf _ = F64_PInf"
| "f64_add F64_NInf _ = F64_NInf"
| "f64_add _ b = b"

fun f64_neg :: "float64 \<Rightarrow> float64" where
  "f64_neg (F64 a) = F64 (- a)"
| "f64_neg F64_PInf = F64_NInf"
| "f64_neg F64_NInf = F64_PInf"
| "f64_neg F64_NaN = F64_NaN"

definition f64_sub :: "float64 \<Rightarrow> float64 \<Rightarrow> float64" where
  "f64_sub a b = f64_add a (f64_neg b)"

definition duration_Seconds :: "duration \<Rightarrow> float64" where
  "duration_Seconds d =
     f64_add (f64_of_int (go_quot d Second))
       (f64_div (f64_of_int (d - go_quot d Second * Second)) (f64_of_int Second))"

section \<open>Rounding lemmas\<close>

lemma bit_length_pos: "0 < n \<Longrightarrow> bit_length n = 1 + bit_length (n div 2)"
  by (subst bit_length.simps) simp

lemma bit_length_nonneg: "0 \<le> bit_length n"
proof (induction n rule: bit_length.induct)
  case (1 n)
  then show ?case by (cases "n \<le> 0") (simp_all add: bit_length.simps [of n])
qed

lemma two_powi_Suc: "0 \<le> k \<Longrightarrow> (2 :: rat) powi (1 + k) = 2 * 2 powi k"
  by (simp add: power_int_add)

lemma bit_length_bounds:
  "0 < n \<Longrightarrow> (2 :: rat) powi (bit_length n - 1) \<le> of_int n \<and> of_int n < (2 :: rat) powi bit_length n"
proof (induction n rule: bit_length.induct)
  case (1 n)
  show ?case
  proof (cases "n = 1")
    case True
    then show ?thesis by (simp add: bit_length.simps [of 1] bit_length.simps [of 0])
  next
    case False
    with 1 have IH: "(2 :: rat) powi (bit_length (n div 2) - 1) \<le> of_int (n div 2)"
        "of_int (n div 2) < (2 :: rat) powi bit_length (n div 2)" by auto
    have ge: "2 * of_int (n div 2) \<le> (of_int n :: rat)"
      using of_int_le_iff [of "2 * (n div 2)" n, where ?'a = rat] by simp
    have pow: "(2 :: rat) powi (bit_length (n div 2)) = 2 ^ nat (bit_length (n div 2))"
      using bit_length_nonneg by (simp add: power_int_def)
    from IH(2) have "n div 2 < 2 ^ nat (bit_length (n div 2))"
      unfolding pow by (metis of_int_less_iff of_int_numeral of_int_power)
    then have "n < 2 * 2 ^ nat (bit_length (n div 2))" by linarith
    then have "(of_int n :: rat) < 2 * 2 ^ nat (bit_length (n div 2))"
      by (metis of_int_less_iff of_int_mult of_int_numeral of_int_power)
    then have lt: "(of_int n :: rat) < 2 * 2 powi (bit_length (n div 2))" by (simp add: pow)
    show ?thesis using IH ge lt
      by (simp add: bit_length_pos [OF 1(2)] two_powi_Suc bit_length_nonneg power_int_diff)
  qed
qed

lemma binary_exponent_bounds:
  assumes "0 < q"
  shows "2 powi binary_exponent q \<le> q" and "q < 2 powi (binary_exponent q + 1)"
proof -
  obtain n d where nd: "quotient_of q = (n, d)" by fastforce
  from quotient_of_denom_pos [OF nd] have d: "0 < d" .
  from quotient_of_div [OF nd] have q: "q = of_int n / of_int d" .
  with assms d have n: "0 < n" by (simp add: zero_less_divide_iff)
  let ?k = "bit_length n - bit_length d"
  have up: "q < 2 powi (?k + 1)"
  proof -
    have "q < 2 powi bit_length n / 2 powi (bit_length d - 1)"
      unfolding q using bit_length_bounds [OF n] bit_length_bounds [OF d] n d
      by (intro frac_less) auto
    also have "\<dots> = 2 powi (?k + 1)" by (simp add: power_int_diff power_int_add)
    finally show ?thesis .
  qed
  have lo: "2 powi (?k - 1) \<le> q"
  proof -
    have "2 powi (?k - 1) = 2 powi (bit_length n - 1) / (2 :: rat) powi bit_length d"
      by (simp add: power_int_diff)
    also have "\<dots> \<le> q"
      unfolding q using bit_length_bounds [OF n] bit_length_bounds [OF d] n d
      by (intro frac_le) auto
    finally show ?thesis .
  qed
  from up lo show "2 powi binary_exponent q \<le> q" "q < 2 powi (binary_exponent q + 1)"
    by (auto simp: binary_exponent_def nd Let_def)
qed

lemma round_half_even_le: "q \<le> of_int n \<Longrightarrow> round_half_even q \<le> n"
proof -
  assume q: "q \<le> of_int n"
  show ?thesis
  proof (cases "\<lfloor>q\<rfloor> < n")
    case True then show ?thesis by (simp add: round_half_even_def Let_def)
  next
    case False
    with q have "q = of_int \<lfloor>q\<rfloor>" by (metis floor_mono floor_of_int linorder_not_less of_int_floor_le order_antisym_conv)
    with q show ?thesis by (simp add: round_half_even_def Let_def floor_le_iff)
  qed
qed

lemma round_half_even_ge: "of_int n \<le> q \<Longrightarrow> n \<le> round_half_even q"
  by (auto simp: round_half_even_def Let_def le_floor_iff intro: order_trans [of _ "\<lfloor>q\<rfloor>"])

lemma round_half_even_of_int [simp]: "round_half_even (of_int n) = n"
  by (simp add: round_half_even_def)

lemma binary_exponent_le: "0 < q \<Longrightarrow> q < 2 powi (k + 1) \<Longrightarrow> binary_exponent q \<le> k"
proof (rule ccontr)
  assume q: "0 < q" "q < 2 powi (k + 1)" and "\<not> binary_exponent q \<le> k"
  then have "(2 :: rat) powi (k + 1) \<le> 2 powi binary_exponent q"
    by (intro power_int_increasing) auto
  with binary_exponent_bounds(1) [OF q(1)] q(2) show False by simp
qed

text \<open>Integers of up to 53 bits are exact.\<close>

lemma f64_of_int_exact: "\<bar>i\<bar> < 2 ^ 53 \<Longrightarrow> f64_of_int i = F64 (of_int i)"
proof -
  assume i: "\<bar>i\<bar> < 2 ^ 53"
  show ?thesis
  proof (cases "i = 0")
    case True then show ?thesis by (simp add: f64_of_int_def f64_round_def)
  next
    case False
    let ?q = "of_int i :: rat" and ?e = "ulp_exponent (of_int i)"
    have "\<bar>?q\<bar> < 2 powi (52 + 1)" using i
      by (simp add: power_int_def)
    then have "binary_exponent \<bar>?q\<bar> \<le> 52" using False by (intro binary_exponent_le) auto
    then have e: "?e \<le> 0" by (simp add: ulp_exponent_def)
    have "?q / 2 powi ?e = of_int (i * 2 ^ nat (- ?e))"
      using e by (simp add: power_int_def field_simps)
    then have "round_half_even (?q / 2 powi ?e) = i * 2 ^ nat (- ?e)"
      by (metis round_half_even_of_int)
    then show ?thesis using e False
      by (simp add: f64_of_int_def f64_round_def Let_def power_int_def flip: power_mult_distrib)
  qed
qed

text \<open>Rounding keeps the unit interval.\<close>

lemma f64_round_unit:
  assumes "0 \<le> q" "q \<le> 1"
  shows "\<exists>v. f64_round q = F64 v \<and> 0 \<le> v \<and> v \<le> 1"
proof (cases "q = 0 \<or> q = 1")
  case True
  then show ?thesis using f64_of_int_exact [of 1] by (auto simp: f64_of_int_def f64_round_def)
next
  case False
  with assms have q: "0 < q" "q < 1" by auto
  let ?e = "ulp_exponent q" and ?b = "binary_exponent q"
  have b: "?b \<le> - 1" using q by (intro binary_exponent_le) auto
  then have e: "?e \<le> - 53" using q(1) by (simp add: ulp_exponent_def)
  have le: "q / 2 powi ?e \<le> of_int (2 ^ nat (- ?e))"
    using q e by (simp add: power_int_def field_simps)
  have nn: "of_int 0 \<le> q / 2 powi ?e" using q by simp
  have m: "0 \<le> round_half_even (q / 2 powi ?e)" "round_half_even (q / 2 powi ?e) \<le> 2 ^ nat (- ?e)"
    using round_half_even_ge [OF nn] round_half_even_le [OF le] by auto
  have "(of_int (round_half_even (q / 2 powi ?e)) :: rat) \<le> 2 ^ nat (- ?e)"
    using m(2) by (metis of_int_le_iff of_int_numeral of_int_power)
  then have "of_int (round_half_even (q / 2 powi ?e)) * (2 :: rat) powi ?e \<le> 1"
    using e by (simp add: power_int_def field_simps)
  moreover have "0 \<le> of_int (round_half_even (q / 2 powi ?e)) * (2 :: rat) powi ?e"
    using m(1) by simp
  ultimately show ?thesis using q e by (simp add: f64_round_def Let_def)
qed

lemma f64_round_1: "f64_round 1 = F64 1"
  using f64_of_int_exact [of 1] by (simp add: f64_of_int_def)

lemma f64_div_unit:
  assumes "0 \<le> a" "a \<le> b" "0 < b" "b < 2 ^ 53"
  shows "\<exists>v. f64_div (f64_of_int a) (f64_of_int b) = F64 v \<and> 0 \<le> v \<and> v \<le> 1"
proof -
  have "f64_of_int a = F64 (of_int a)" "f64_of_int b = F64 (of_int b)"
    using assms by (auto intro!: f64_of_int_exact)
  moreover have "\<exists>v. f64_round (of_int a / of_int b) = F64 v \<and> 0 \<le> v \<and> v \<le> 1"
    using assms by (intro f64_round_unit) (auto simp: divide_le_eq)
  ultimately show ?thesis using assms(3) by simp
qed

lemma f64_div_self: "0 < b \<Longrightarrow> b < 2 ^ 53 \<Longrightarrow> f64_div (f64_of_int b) (f64_of_int b) = F64 1"
  by (simp add: f64_of_int_exact f64_round_1)

lemma f64_div_zero: "0 < b \<Longrightarrow> b < 2 ^ 53 \<Longrightarrow> f64_div (f64_of_int 0) (f64_of_int b) = F64 0"
  by (simp add: f64_of_int_exact f64_round_def)

lemma f64_double_exact:
  "\<bar>2 * p\<bar> < 2 ^ 53 \<Longrightarrow> f64_mul (f64_of_int p) (F64 2) = F64 (of_int (2 * p))"
  using f64_of_int_exact [of p] f64_of_int_exact [of "2 * p"]
  by (simp add: f64_of_int_def mult.commute)

lemma int64_of_f64_of_int: "in64 i \<Longrightarrow> int64_of_f64 (F64 (of_int i)) = i"
  by (simp add: floor_minus Let_def ceiling_of_int flip: of_int_minus)

end
