(* ===== verification/Metrics.thy ===== *)
theory Metrics
  imports GoFloat
begin

text \<open>
  The Prometheus instruments of \<open>internal/metrics/metrics.go\<close>. The client library is not part
  of the program; what the program does with it is the sequence of updates it makes, so an
  operation returns the list of its updates, in order.
\<close>

datatype instrument =
    WSReconnectCount | WSGapCount | WSBookLagSeconds | RateLimitHeadroom | FillLatencySeconds
  | BalanceSyncLagSeconds | EventsPublishedTotal | AuditEventsEmittedTotal | AuditDroppedTotal

datatype metric =
    Inc instrument "string list"
  | SetGauge instrument "string list" float64
  | Observe instrument "string list" float64

fun instrument_name :: "instrument \<Rightarrow> string" where
  "instrument_name WSReconnectCount = ''ws_reconnect_count''"
| "instrument_name WSGapCount = ''ws_gap_count''"
| "instrument_name WSBookLagSeconds = ''ws_book_lag_seconds''"
| "instrument_name RateLimitHeadroom = ''rate_limit_headroom''"
| "instrument_name FillLatencySeconds = ''fill_latency_seconds''"
| "instrument_name BalanceSyncLagSeconds = ''balance_sync_lag_seconds''"
| "instrument_name EventsPublishedTotal = ''events_published_total''"
| "instrument_name AuditEventsEmittedTotal = ''audit_events_emitted_total''"
| "instrument_name AuditDroppedTotal = ''audit_dropped_total''"

text \<open>The number of increments of one counter in a list of updates.\<close>

fun incs :: "instrument \<Rightarrow> string list \<Rightarrow> metric list \<Rightarrow> nat" where
  "incs i ls [] = 0"
| "incs i ls (Inc j ks # ms) = (if i = j \<and> ls = ks then 1 else 0) + incs i ls ms"
| "incs i ls (_ # ms) = incs i ls ms"

lemma incs_append [simp]: "incs i ls (ms @ ns) = incs i ls ms + incs i ls ns"
  by (induction i ls ms rule: incs.induct) auto

lemma instrument_name_inj: "instrument_name i = instrument_name j \<Longrightarrow> i = j"
  by (cases i; cases j) simp_all

end
