(* ===== verification/RateLimit.thy ===== *)
theory RateLimit
  imports Metrics
begin

text \<open>
  The three limiters of \<open>internal/ratelimit/ratelimit.go\<close>: the weighted one (Binance), the
  decaying counter (Kraken) and the requests-per-second window (OTC). Each call of
  \<open>time.Now\<close> is an argument: \<open>Wait\<close> of the first two reads the clock twice, once to replenish
  or decay and once for the backoff. The mutex makes every method one step. The context
  argument of \<open>Wait\<close> is not used by the code.
\<close>

datatype ratelimit_error = ErrBudgetExhausted

section \<open>WeightedLimiter\<close>

record WeightedLimiter =
  wl_venue :: string
  wl_budget :: int
  wl_used :: int
  wl_refill :: duration
  wl_lastFill :: instant
  wl_backoff :: instant

definition NewWeightedLimiter :: "string \<Rightarrow> int \<Rightarrow> instant \<Rightarrow> WeightedLimiter" where
  "NewWeightedLimiter venue budget now =
     \<lparr>wl_venue = venue, wl_budget = budget, wl_used = 0, wl_refill = 60 * Second,
      wl_lastFill = now, wl_backoff = 0\<rparr>"

definition WeightedLimiter_replenishLocked :: "instant \<Rightarrow> WeightedLimiter \<Rightarrow> WeightedLimiter" where
  "WeightedLimiter_replenishLocked now l =
     (if time_Sub now (wl_lastFill l) \<ge> wl_refill l then l\<lparr>wl_used := 0, wl_lastFill := now\<rparr>
      else l)"

definition WeightedLimiter_Wait ::
    "instant \<Rightarrow> instant \<Rightarrow> int \<Rightarrow> WeightedLimiter
      \<Rightarrow> WeightedLimiter \<times> ratelimit_error option \<times> metric list" where
  "WeightedLimiter_Wait now1 now2 weight l0 =
     (let l = WeightedLimiter_replenishLocked now1 l0 in
      if \<not> time_IsZero (wl_backoff l) \<and> now2 < wl_backoff l then
        (l, Some ErrBudgetExhausted, [])
      else if wrap64 (wl_used l + weight) > wl_budget l then
        (l, Some ErrBudgetExhausted, [SetGauge RateLimitHeadroom [wl_venue l] (F64 0)])
      else
        let l' = l\<lparr>wl_used := wrap64 (wl_used l + weight)\<rparr>;
            headroom = f64_div (f64_of_int (wrap64 (wl_budget l' - wl_used l')))
                         (f64_of_int (wl_budget l'))
        in (l', None, [SetGauge RateLimitHeadroom [wl_venue l'] headroom]))"

definition WeightedLimiter_UpdateUsed ::
    "string \<Rightarrow> int \<Rightarrow> WeightedLimiter \<Rightarrow> WeightedLimiter \<times> metric list" where
  "WeightedLimiter_UpdateUsed venue used l0 =
     (let l = l0\<lparr>wl_venue := venue, wl_used := used\<rparr>;
          diff = f64_of_int (wrap64 (wl_budget l - used));
          headroom = (if wl_budget l > 0 then f64_div diff (f64_of_int (wl_budget l)) else diff)
      in (l, [SetGauge RateLimitHeadroom [venue] headroom]))"

definition WeightedLimiter_Backoff ::
    "string \<Rightarrow> duration \<Rightarrow> instant \<Rightarrow> WeightedLimiter \<Rightarrow> WeightedLimiter" where
  "WeightedLimiter_Backoff venue d now l =
     l\<lparr>wl_venue := venue, wl_backoff := time_Add now d\<rparr>"

definition WeightedLimiter_Headroom :: "WeightedLimiter \<Rightarrow> float64" where
  "WeightedLimiter_Headroom l =
     (if wl_budget l = 0 then F64 0
      else f64_div (f64_of_int (wrap64 (wl_budget l - wl_used l))) (f64_of_int (wl_budget l)))"

definition WeightedLimiter_Used :: "WeightedLimiter \<Rightarrow> int" where
  "WeightedLimiter_Used l = wl_used l"

definition WeightedLimiter_Budget :: "WeightedLimiter \<Rightarrow> int" where
  "WeightedLimiter_Budget l = wl_budget l"

definition WeightedLimiter_SetBudget :: "int \<Rightarrow> WeightedLimiter \<Rightarrow> WeightedLimiter" where
  "WeightedLimiter_SetBudget b l = l\<lparr>wl_budget := b\<rparr>"

section \<open>CounterLimiter\<close>

record CounterLimiter =
  cl_venue :: string
  cl_budget :: int
  cl_current :: int
  cl_last :: instant
  cl_decay :: duration
  cl_backoff :: instant

definition NewCounterLimiter :: "string \<Rightarrow> int \<Rightarrow> instant \<Rightarrow> CounterLimiter" where
  "NewCounterLimiter venue budget now =
     \<lparr>cl_venue = venue, cl_budget = budget, cl_current = 0, cl_last = now,
      cl_decay = 3 * Second, cl_backoff = 0\<rparr>"

definition CounterLimiter_decayLocked :: "instant \<Rightarrow> CounterLimiter \<Rightarrow> CounterLimiter" where
  "CounterLimiter_decayLocked now l =
     (let elapsed = time_Sub now (cl_last l); ticks = go_quot elapsed (cl_decay l) in
      if ticks > 0 then
        let c = wrap64 (cl_current l - ticks) in
        l\<lparr>cl_current := (if c < 0 then 0 else c),
          cl_last := time_Add (cl_last l) (wrap64 (ticks * cl_decay l))\<rparr>
      else l)"

definition CounterLimiter_Wait ::
    "instant \<Rightarrow> instant \<Rightarrow> int \<Rightarrow> CounterLimiter
      \<Rightarrow> CounterLimiter \<times> ratelimit_error option \<times> metric list" where
  "CounterLimiter_Wait now1 now2 cost l0 =
     (let l = CounterLimiter_decayLocked now1 l0 in
      if \<not> time_IsZero (cl_backoff l) \<and> now2 < cl_backoff l then
        (l, Some ErrBudgetExhausted, [])
      else if wrap64 (cl_current l + cost) > cl_budget l then
        (l, Some ErrBudgetExhausted, [SetGauge RateLimitHeadroom [cl_venue l] (F64 0)])
      else
        let l' = l\<lparr>cl_current := wrap64 (cl_current l + cost)\<rparr>;
            headroom = f64_div (f64_of_int (wrap64 (cl_budget l' - cl_current l')))
                         (f64_of_int (cl_budget l'))
        in (l', None, [SetGauge RateLimitHeadroom [cl_venue l'] headroom]))"

definition CounterLimiter_Backoff ::
    "string \<Rightarrow> duration \<Rightarrow> instant \<Rightarrow> CounterLimiter \<Rightarrow> CounterLimiter" where
  "CounterLimiter_Backoff venue d now l =
     l\<lparr>cl_venue := venue, cl_backoff := time_Add now d\<rparr>"

definition CounterLimiter_Headroom :: "CounterLimiter \<Rightarrow> float64" where
  "CounterLimiter_Headroom l =
     (if cl_budget l = 0 then F64 0
      else f64_div (f64_of_int (wrap64 (cl_budget l - cl_current l))) (f64_of_int (cl_budget l)))"

definition CounterLimiter_Current :: "CounterLimiter \<Rightarrow> int" where
  "CounterLimiter_Current l = cl_current l"

section \<open>RPSLimiter\<close>

record RPSLimiter =
  rps_venue :: string
  rps_limit :: int
  rps_count :: int
  rps_window :: duration
  rps_start :: instant
  rps_backoff :: instant

definition NewRPSLimiter :: "string \<Rightarrow> int \<Rightarrow> instant \<Rightarrow> RPSLimiter" where
  "NewRPSLimiter venue rps now =
     \<lparr>rps_venue = venue, rps_limit = rps, rps_count = 0, rps_window = Second,
      rps_start = now, rps_backoff = 0\<rparr>"

definition RPSLimiter_Wait ::
    "instant \<Rightarrow> int \<Rightarrow> RPSLimiter \<Rightarrow> RPSLimiter \<times> ratelimit_error option \<times> metric list" where
  "RPSLimiter_Wait now _ l0 =
     (if \<not> time_IsZero (rps_backoff l0) \<and> now < rps_backoff l0 then
        (l0, Some ErrBudgetExhausted, [])
      else
        let l = (if time_Sub now (rps_start l0) \<ge> rps_window l0
                 then l0\<lparr>rps_count := 0, rps_start := now\<rparr> else l0)
        in if rps_count l \<ge> rps_limit l then (l, Some ErrBudgetExhausted, [])
           else
             let l' = l\<lparr>rps_count := wrap64 (rps_count l + 1)\<rparr>;
                 headroom = f64_div (f64_of_int (wrap64 (rps_limit l' - rps_count l')))
                              (f64_of_int (rps_limit l'))
             in (l', None, [SetGauge RateLimitHeadroom [rps_venue l'] headroom]))"

definition RPSLimiter_Backoff ::
    "string \<Rightarrow> duration \<Rightarrow> instant \<Rightarrow> RPSLimiter \<Rightarrow> RPSLimiter" where
  "RPSLimiter_Backoff venue d now l =
     l\<lparr>rps_venue := venue, rps_backoff := time_Add now d\<rparr>"

definition RPSLimiter_Headroom :: "RPSLimiter \<Rightarrow> float64" where
  "RPSLimiter_Headroom l =
     (if rps_limit l = 0 then F64 0
      else f64_div (f64_of_int (wrap64 (rps_limit l - rps_count l))) (f64_of_int (rps_limit l)))"

section \<open>The contract the adapters rely on\<close>

text \<open>A call of \<open>Wait\<close>: the two clock readings and the cost; its answer: the error and the gauge updates.\<close>

type_synonym wait_call = "instant \<times> instant \<times> int"
type_synonym wait_answer = "ratelimit_error option \<times> metric list"

definition limiter_call ::
    "(instant \<Rightarrow> instant \<Rightarrow> int \<Rightarrow> 'l \<Rightarrow> 'l \<times> wait_answer) \<Rightarrow> wait_call \<Rightarrow> 'l \<Rightarrow> 'l \<times> wait_answer" where
  "limiter_call wait = (\<lambda>(now1, now2, w) l. wait now1 now2 w l)"

definition admits :: "wait_answer \<Rightarrow> bool" where
  "admits a \<longleftrightarrow> fst a = None"

text \<open>The total cost a run admitted.\<close>

fun total_admitted :: "(int \<Rightarrow> int) \<Rightarrow> wait_call list \<Rightarrow> wait_answer list \<Rightarrow> int" where
  "total_admitted cost ((_, _, w) # xs) (a # as) =
     (if admits a then cost w else 0) + total_admitted cost xs as"
| "total_admitted cost _ _ = 0"

locale rate_limiter =
  fixes wait :: "instant \<Rightarrow> instant \<Rightarrow> int \<Rightarrow> 'l \<Rightarrow> 'l \<times> wait_answer"
    and backoff :: "string \<Rightarrow> duration \<Rightarrow> instant \<Rightarrow> 'l \<Rightarrow> 'l"
    and deadline :: "'l \<Rightarrow> instant"
  assumes wait_deadline: "deadline (fst (wait now1 now2 w l)) = deadline l"
    and wait_silent:
      "deadline l \<noteq> 0 \<Longrightarrow> now1 \<le> now2 \<Longrightarrow> now2 < deadline l
        \<Longrightarrow> fst (snd (wait now1 now2 w l)) = Some ErrBudgetExhausted"
    and backoff_deadline: "deadline (backoff v d now l) = time_Add now d"
begin

lemma run_silent:
  assumes "deadline l \<noteq> 0"
    and "\<And>now1 now2 w. (now1, now2, w) \<in> set xs \<Longrightarrow> now1 \<le> now2 \<and> now2 < deadline l"
    and "run_calls (limiter_call wait) xs l = (l', as)"
  shows "\<forall>a \<in> set as. fst a = Some ErrBudgetExhausted"
  using assms
proof (induction xs arbitrary: l as)
  case Nil
  then show ?case by simp
next
  case (Cons x xs)
  obtain now1 now2 w where x: "x = (now1, now2, w)" by (cases x) auto
  obtain l1 a as' where w: "wait now1 now2 w l = (l1, a)" and as: "as = a # as'"
      and run: "run_calls (limiter_call wait) xs l1 = (l', as')"
    using Cons.prems(3) unfolding x by (elim run_calls_ConsE) (simp add: limiter_call_def)
  have now: "now1 \<le> now2 \<and> now2 < deadline l" using Cons.prems(2) [of now1 now2 w] by (simp add: x)
  have d: "deadline l1 = deadline l" using wait_deadline [of now1 now2 w l] by (simp add: w)
  have "fst a = Some ErrBudgetExhausted"
    using wait_silent [OF Cons.prems(1), of now1 now2 w] now by (simp add: w)
  moreover have "\<forall>a \<in> set as'. fst a = Some ErrBudgetExhausted"
    by (rule Cons.IH [OF _ _ run]) (use Cons.prems in \<open>auto simp: d\<close>)
  ultimately show ?case by (simp add: as)
qed

lemma backoff_run_silent:
  assumes "time_Add now d \<noteq> 0"
    and "\<And>now1 now2 w. (now1, now2, w) \<in> set xs \<Longrightarrow> now1 \<le> now2 \<and> now2 < time_Add now d"
    and "run_calls (limiter_call wait) xs (backoff v d now l) = (l', as)"
  shows "\<forall>a \<in> set as. fst a = Some ErrBudgetExhausted"
  by (rule run_silent [OF _ _ assms(3)]) (use assms in \<open>auto simp: backoff_deadline\<close>)

end

text \<open>
  The two fixed-window limiters also promise how a call moves the window and the load in it.
\<close>

locale window_limiter = rate_limiter wait backoff deadline
  for wait :: "instant \<Rightarrow> instant \<Rightarrow> int \<Rightarrow> 'l \<Rightarrow> 'l \<times> wait_answer" and backoff and deadline +
  fixes load :: "'l \<Rightarrow> int" and cap :: "'l \<Rightarrow> int" and start :: "'l \<Rightarrow> instant"
    and span :: "'l \<Rightarrow> duration" and cost :: "int \<Rightarrow> int"
  assumes cost_nonneg: "0 \<le> w \<Longrightarrow> 0 \<le> cost w"
    and wait_frame: "cap (fst (wait now1 now2 w l)) = cap l \<and> span (fst (wait now1 now2 w l)) = span l"
    and wait_window:
      "\<lbrakk>0 \<le> load l; load l < 2 ^ 62; cap l < 2 ^ 62; span l < 2 ^ 63; 0 < span l;
        0 \<le> w; w < 2 ^ 62; wait now1 now2 w l = (l', a)\<rbrakk>
       \<Longrightarrow> start l' = start l \<and> load l' = load l + (if admits a then cost w else 0)
         \<or> start l' = now1 \<and> span l \<le> now1 - start l \<and> load l' = (if admits a then cost w else 0)"
    and wait_cap:
      "\<lbrakk>0 \<le> load l; load l < 2 ^ 62; cap l < 2 ^ 62; 0 \<le> w; w < 2 ^ 62;
        wait now1 now2 w l = (l', a); admits a\<rbrakk> \<Longrightarrow> load l' \<le> cap l"
begin

lemma run_window_step:
  assumes "0 \<le> load l" "load l < 2 ^ 62" "cap l < 2 ^ 62" "span l < 2 ^ 63" "0 < span l"
    and "0 \<le> w" "w < 2 ^ 62" and call: "wait now1 now2 w l = (l', a)"
  shows "cap l' = cap l" "span l' = span l" "0 \<le> load l'" "load l' < 2 ^ 62"
    "load l' \<le> max (load l) (cap l)"
proof -
  show frame: "cap l' = cap l" "span l' = span l"
    using wait_frame [of now1 now2 w l] by (simp_all add: call)
  note win = wait_window [OF assms(1-7) call]
  show nn: "0 \<le> load l'" using win assms(1) cost_nonneg [OF assms(6)] by (auto split: if_splits)
  show "load l' \<le> max (load l) (cap l)"
  proof (cases "admits a")
    case True
    with wait_cap [OF assms(1-3,6,7) call] show ?thesis by simp
  next
    case False
    with win assms(1) show ?thesis by auto
  qed
  with assms(2,3) show "load l' < 2 ^ 62" by (auto simp: max_def split: if_splits)
qed

lemma run_one_window:
  assumes "0 \<le> load l" "load l < 2 ^ 62" "cap l < 2 ^ 62" "span l < 2 ^ 63" "0 < span l"
    and "\<And>now1 now2 w. (now1, now2, w) \<in> set xs \<Longrightarrow> now1 - start l < span l \<and> 0 \<le> w \<and> w < 2 ^ 62"
    and "run_calls (limiter_call wait) xs l = (l', as)"
  shows "total_admitted cost xs as \<le> max 0 (cap l - load l)"
  using assms
proof (induction xs arbitrary: l as)
  case Nil
  then show ?case by simp
next
  case (Cons x xs)
  obtain now1 now2 w where x: "x = (now1, now2, w)" by (cases x) auto
  obtain l1 a as' where w: "wait now1 now2 w l = (l1, a)" and as: "as = a # as'"
      and run: "run_calls (limiter_call wait) xs l1 = (l', as')"
    using Cons.prems(7) unfolding x by (elim run_calls_ConsE) (simp add: limiter_call_def)
  have now: "now1 - start l < span l" "0 \<le> w" "w < 2 ^ 62"
    using Cons.prems(6) [of now1 now2 w] by (simp_all add: x)
  note step = run_window_step [OF Cons.prems(1-5) now(2,3) w]
  have win: "start l1 = start l" "load l1 = load l + (if admits a then cost w else 0)"
    using wait_window [OF Cons.prems(1-5) now(2,3) w] now(1) by auto
  have IH: "total_admitted cost xs as' \<le> max 0 (cap l1 - load l1)"
  proof (rule Cons.IH [OF step(3,4) _ _ _ _ run])
    show "cap l1 < 2 ^ 62" "span l1 < 2 ^ 63" "0 < span l1"
      using Cons.prems(3-5) by (simp_all add: step)
  qed (use Cons.prems(6) in \<open>auto simp: step win\<close>)
  have "admits a \<Longrightarrow> load l + cost w \<le> cap l"
    using wait_cap [OF Cons.prems(1-3) now(2,3) w] win by simp
  with IH win step(1) show ?case by (auto simp: as x max_def split: if_splits)
qed

text \<open>Over any interval of the window's length the window restarts at most once.\<close>

lemma run_any_interval:
  assumes "0 \<le> load l" "load l < 2 ^ 62" "cap l < 2 ^ 62" "span l < 2 ^ 63" "0 < span l" "0 \<le> cap l"
    and "\<And>now1 now2 w. (now1, now2, w) \<in> set xs
           \<Longrightarrow> a0 \<le> now1 \<and> now1 < a0 + span l \<and> 0 \<le> w \<and> w < 2 ^ 62"
    and "run_calls (limiter_call wait) xs l = (l', as)"
  shows "total_admitted cost xs as \<le> max 0 (cap l - load l) + cap l"
  using assms
proof (induction xs arbitrary: l as)
  case Nil
  then show ?case by simp
next
  case (Cons x xs)
  obtain now1 now2 w where x: "x = (now1, now2, w)" by (cases x) auto
  obtain l1 a as' where w: "wait now1 now2 w l = (l1, a)" and as: "as = a # as'"
      and run: "run_calls (limiter_call wait) xs l1 = (l', as')"
    using Cons.prems(8) unfolding x by (elim run_calls_ConsE) (simp add: limiter_call_def)
  have now: "a0 \<le> now1" "0 \<le> w" "w < 2 ^ 62"
    using Cons.prems(7) [of now1 now2 w] by (simp_all add: x)
  note step = run_window_step [OF Cons.prems(1-5) now(2,3) w]
  have l1: "cap l1 < 2 ^ 62" "span l1 < 2 ^ 63" "0 < span l1" "0 \<le> cap l1"
    using Cons.prems(3-6) by (simp_all add: step)
  have adm: "admits a \<Longrightarrow> load l1 \<le> cap l"
    by (rule wait_cap [OF Cons.prems(1-3) now(2,3) w])
  show ?case
  proof (cases "start l1 = start l \<and> load l1 = load l + (if admits a then cost w else 0)")
    case True
    have "total_admitted cost xs as' \<le> max 0 (cap l1 - load l1) + cap l1"
      by (rule Cons.IH [OF step(3,4) l1 _ run]) (use Cons.prems(7) in \<open>auto simp: step\<close>)
    with True adm step(1) show ?thesis by (auto simp: as x max_def split: if_splits)
  next
    case False
    then have win: "start l1 = now1" "load l1 = (if admits a then cost w else 0)"
      using wait_window [OF Cons.prems(1-5) now(2,3) w] by auto
    have "total_admitted cost xs as' \<le> max 0 (cap l1 - load l1)"
      by (rule run_one_window [OF step(3,4) l1(1-3) _ run])
        (use Cons.prems(7) now(1) in \<open>fastforce simp: step win\<close>)
    with win adm step(1) Cons.prems(6) show ?thesis by (auto simp: as x max_def split: if_splits)
  qed
qed

end

section \<open>The limiters keep the contract\<close>

lemmas WeightedLimiter_defs =
  WeightedLimiter_Wait_def WeightedLimiter_replenishLocked_def WeightedLimiter_Backoff_def
lemmas CounterLimiter_defs =
  CounterLimiter_Wait_def CounterLimiter_decayLocked_def CounterLimiter_Backoff_def

lemma WeightedLimiter_replenish_frame [simp]:
  "wl_budget (WeightedLimiter_replenishLocked now l) = wl_budget l"
  "wl_refill (WeightedLimiter_replenishLocked now l) = wl_refill l"
  "wl_backoff (WeightedLimiter_replenishLocked now l) = wl_backoff l"
  "wl_venue (WeightedLimiter_replenishLocked now l) = wl_venue l"
  by (simp_all add: WeightedLimiter_replenishLocked_def)

lemma CounterLimiter_decay_frame [simp]:
  "cl_budget (CounterLimiter_decayLocked now l) = cl_budget l"
  "cl_decay (CounterLimiter_decayLocked now l) = cl_decay l"
  "cl_backoff (CounterLimiter_decayLocked now l) = cl_backoff l"
  "cl_venue (CounterLimiter_decayLocked now l) = cl_venue l"
  by (simp_all add: CounterLimiter_decayLocked_def Let_def)

lemma wrap64_add_small:
  "0 \<le> a \<Longrightarrow> a < 2 ^ 62 \<Longrightarrow> 0 \<le> w \<Longrightarrow> w < 2 ^ 62 \<Longrightarrow> wrap64 (a + w) = a + w"
  by (rule wrap64_id) (simp add: in64_def)

interpretation wl: window_limiter WeightedLimiter_Wait WeightedLimiter_Backoff wl_backoff
  wl_used wl_budget wl_lastFill wl_refill "\<lambda>w. w"
proof unfold_locales
  fix now1 now2 w l
  show "wl_backoff (fst (WeightedLimiter_Wait now1 now2 w l)) = wl_backoff l"
    by (simp add: WeightedLimiter_Wait_def Let_def)
  show "wl_backoff l \<noteq> 0 \<Longrightarrow> now1 \<le> now2 \<Longrightarrow> now2 < wl_backoff l
      \<Longrightarrow> fst (snd (WeightedLimiter_Wait now1 now2 w l)) = Some ErrBudgetExhausted"
    by (simp add: WeightedLimiter_Wait_def Let_def time_IsZero_def)
  show "wl_budget (fst (WeightedLimiter_Wait now1 now2 w l)) = wl_budget l
      \<and> wl_refill (fst (WeightedLimiter_Wait now1 now2 w l)) = wl_refill l"
    by (simp add: WeightedLimiter_Wait_def Let_def)
next
  fix v d now l
  show "wl_backoff (WeightedLimiter_Backoff v d now l) = time_Add now d"
    by (simp add: WeightedLimiter_Backoff_def)
next
  fix l w now1 now2 l' a
  assume "0 \<le> wl_used l" "wl_used l < 2 ^ 62" "0 \<le> w" "w < 2 ^ 62"
    and "wl_refill l < 2 ^ 63" "0 < wl_refill l"
    and "WeightedLimiter_Wait now1 now2 w l = (l', a)"
  then show "wl_lastFill l' = wl_lastFill l \<and> wl_used l' = wl_used l + (if admits a then w else 0)
    \<or> wl_lastFill l' = now1 \<and> wl_refill l \<le> now1 - wl_lastFill l
      \<and> wl_used l' = (if admits a then w else 0)"
    using time_Sub_less_iff [of "wl_refill l" now1 "wl_lastFill l"]
      wrap64_add_small [of "wl_used l" w] wrap64_add_small [of 0 w]
    by (auto simp: WeightedLimiter_defs Let_def admits_def split: if_splits)
next
  fix l w now1 now2 l' a
  assume "WeightedLimiter_Wait now1 now2 w l = (l', a)" "admits a"
  then show "wl_used l' \<le> wl_budget l"
    by (auto simp: WeightedLimiter_Wait_def Let_def admits_def split: if_splits)
qed auto

interpretation rl: window_limiter "\<lambda>now1 now2. RPSLimiter_Wait now1" RPSLimiter_Backoff rps_backoff
  rps_count rps_limit rps_start rps_window "\<lambda>w. 1"
proof unfold_locales
  fix now1 w l
  show "rps_backoff (fst (RPSLimiter_Wait now1 w l)) = rps_backoff l"
    by (simp add: RPSLimiter_Wait_def Let_def)
  show "rps_limit (fst (RPSLimiter_Wait now1 w l)) = rps_limit l
      \<and> rps_window (fst (RPSLimiter_Wait now1 w l)) = rps_window l"
    by (simp add: RPSLimiter_Wait_def Let_def)
next
  fix l now1 now2 w
  show "rps_backoff l \<noteq> 0 \<Longrightarrow> now1 \<le> now2 \<Longrightarrow> now2 < rps_backoff l
      \<Longrightarrow> fst (snd (RPSLimiter_Wait now1 w l)) = Some ErrBudgetExhausted"
    by (simp add: RPSLimiter_Wait_def Let_def time_IsZero_def)
next
  fix v d now l
  show "rps_backoff (RPSLimiter_Backoff v d now l) = time_Add now d"
    by (simp add: RPSLimiter_Backoff_def)
next
  fix l w now1 l' a
  assume "0 \<le> rps_count l" "rps_count l < 2 ^ 62" "rps_window l < 2 ^ 63" "0 < rps_window l"
    and "RPSLimiter_Wait now1 w l = (l', a)"
  then show "rps_start l' = rps_start l \<and> rps_count l' = rps_count l + (if admits a then 1 else 0)
    \<or> rps_start l' = now1 \<and> rps_window l \<le> now1 - rps_start l
      \<and> rps_count l' = (if admits a then 1 else 0)"
    using time_Sub_less_iff [of "rps_window l" now1 "rps_start l"]
      wrap64_add_small [of "rps_count l" 1] wrap64_add_small [of 0 1]
    by (auto simp: RPSLimiter_Wait_def Let_def admits_def split: if_splits)
next
  fix l w now1 l' a
  assume "0 \<le> rps_count l" "rps_count l < 2 ^ 62" "RPSLimiter_Wait now1 w l = (l', a)" "admits a"
  then show "rps_count l' \<le> rps_limit l"
    using wrap64_add_small [of "rps_count l" 1] wrap64_add_small [of 0 1]
    by (auto simp: RPSLimiter_Wait_def Let_def admits_def split: if_splits)
qed auto

interpretation cl: rate_limiter CounterLimiter_Wait CounterLimiter_Backoff cl_backoff
  by unfold_locales
    (simp_all add: CounterLimiter_Wait_def CounterLimiter_Backoff_def Let_def time_IsZero_def)

section \<open>The decaying counter\<close>

lemma div_shift: "0 < (d :: int) \<Longrightarrow> (t - (s + k * d)) div d = (t - s) div d - k"
  using div_mult_self1 [of d "t - (s + k * d)" k] by simp

lemma CounterLimiter_decay_step:
  assumes "0 \<le> cl_current l" "cl_current l < 2 ^ 62" "0 < cl_decay l"
    and now: "cl_last l \<le> now" and l': "l' = CounterLimiter_decayLocked now l"
  shows "\<exists>k \<ge> 0. cl_last l' = cl_last l + k * cl_decay l \<and> cl_last l' \<le> now
           \<and> cl_current l' \<le> cl_current l \<and> cl_current l - k \<le> cl_current l' \<and> 0 \<le> cl_current l'"
proof -
  let ?e = "time_Sub now (cl_last l)" and ?k = "go_quot (time_Sub now (cl_last l)) (cl_decay l)"
  have e: "0 \<le> ?e" "?e \<le> now - cl_last l" "?e < 2 ^ 63"
    using now by (auto simp: time_Sub_def)
  have k: "?k = ?e div cl_decay l" using e(1) assms(3) by (rule go_quot_nonneg)
  have k0: "0 \<le> ?k" unfolding k using e(1) assms(3) by (simp add: pos_imp_zdiv_nonneg_iff)
  have kd: "?k * cl_decay l \<le> ?e" unfolding k
    using assms(3) by (metis div_mult_mod_eq le_add_same_cancel1 pos_mod_sign)
  have ke: "?k \<le> ?e" using kd k0 assms(3) by (metis mult.right_neutral mult_left_mono dual_order.trans int_one_le_iff_zero_less)
  have kd0: "0 \<le> ?k * cl_decay l" using k0 assms(3) by simp
  have w1: "wrap64 (?k * cl_decay l) = ?k * cl_decay l"
    by (intro wrap64_id in64I) (use kd kd0 e in linarith)+
  have w2: "wrap64 (cl_current l - ?k) = cl_current l - ?k"
    by (rule wrap64_id) (use ke k0 e assms in \<open>simp add: in64_def\<close>)
  show ?thesis
    using k0 kd e assms(1) w1 w2
    by (intro exI [of _ ?k]) (auto simp: l' CounterLimiter_decayLocked_def Let_def time_Add_def)
qed

lemma CounterLimiter_Wait_step:
  assumes "0 \<le> cl_current l" "cl_current l < 2 ^ 62" "0 < cl_decay l" "cl_budget l < 2 ^ 62"
    and "cl_last l \<le> now1" "0 \<le> c" "c < 2 ^ 62"
    and "CounterLimiter_Wait now1 now2 c l = (l', a)"
  shows "\<exists>k \<ge> 0. cl_last l' = cl_last l + k * cl_decay l \<and> cl_last l' \<le> now1
           \<and> cl_current l' \<le> max (cl_current l) (cl_budget l) \<and> 0 \<le> cl_current l'
           \<and> cl_current l + (if admits a then c else 0) - k \<le> cl_current l'
           \<and> cl_budget l' = cl_budget l \<and> cl_decay l' = cl_decay l"
proof -
  let ?d = "CounterLimiter_decayLocked now1 l"
  obtain k where k: "0 \<le> k" "cl_last ?d = cl_last l + k * cl_decay l" "cl_last ?d \<le> now1"
      "cl_current ?d \<le> cl_current l" "cl_current l - k \<le> cl_current ?d" "0 \<le> cl_current ?d"
    using CounterLimiter_decay_step [OF assms(1-3,5) refl] by blast
  have w: "wrap64 (cl_current ?d + c) = cl_current ?d + c"
    using k assms by (intro wrap64_add_small) auto
  show ?thesis using assms(8,6) k w
    by (intro exI [of _ k])
      (auto simp: CounterLimiter_Wait_def Let_def admits_def split: if_splits)
qed

lemma CounterLimiter_run_bound:
  assumes "0 \<le> cl_current l" "cl_current l < 2 ^ 62" "0 < cl_decay l" "cl_budget l < 2 ^ 62"
    and "\<And>now1 now2 c. (now1, now2, c) \<in> set xs
           \<Longrightarrow> now1 \<le> t \<and> 0 \<le> c \<and> c < 2 ^ 62"
    and "sorted (cl_last l # map fst xs)" "cl_last l \<le> t"
    and "run_calls (limiter_call CounterLimiter_Wait) xs l = (l', as)"
  shows "total_admitted (\<lambda>c. c) xs as
           \<le> max (cl_current l) (cl_budget l) - cl_current l + (t - cl_last l) div cl_decay l"
  using assms
proof (induction xs arbitrary: l as)
  case Nil
  then show ?case by (simp add: pos_imp_zdiv_nonneg_iff)
next
  case (Cons x xs)
  obtain now1 now2 c where x: "x = (now1, now2, c)" by (cases x) auto
  obtain l1 a as' where w: "CounterLimiter_Wait now1 now2 c l = (l1, a)" and as: "as = a # as'"
      and run: "run_calls (limiter_call CounterLimiter_Wait) xs l1 = (l', as')"
    using Cons.prems(8) unfolding x by (elim run_calls_ConsE) (simp add: limiter_call_def)
  have c: "now1 \<le> t" "0 \<le> c" "c < 2 ^ 62" "cl_last l \<le> now1"
    using Cons.prems(5) [of now1 now2 c] Cons.prems(6) by (simp_all add: x)
  obtain k where k: "0 \<le> k" "cl_last l1 = cl_last l + k * cl_decay l" "cl_last l1 \<le> now1"
      "cl_current l1 \<le> max (cl_current l) (cl_budget l)" "0 \<le> cl_current l1"
      "cl_current l + (if admits a then c else 0) - k \<le> cl_current l1"
      "cl_budget l1 = cl_budget l" "cl_decay l1 = cl_decay l"
    using CounterLimiter_Wait_step [OF Cons.prems(1-4) c(4,2,3) w] by blast
  have IH: "total_admitted (\<lambda>c. c) xs as'
      \<le> max (cl_current l1) (cl_budget l1) - cl_current l1 + (t - cl_last l1) div cl_decay l1"
  proof (rule Cons.IH [OF k(5) _ _ _ _ _ _ run])
    show "cl_current l1 < 2 ^ 62" using k(4) Cons.prems(2,4) by (auto simp: max_def split: if_splits)
    show "sorted (cl_last l1 # map fst xs)" using Cons.prems(6) k(3) by (auto simp: x)
  qed (use Cons.prems c k in \<open>auto\<close>)
  have "(t - cl_last l1) div cl_decay l1 = (t - cl_last l) div cl_decay l - k"
    unfolding k(2,8) by (rule div_shift [OF Cons.prems(3)])
  with IH k show ?case by (auto simp: as x max_def split: if_splits)
qed

section \<open>Properties\<close>

text \<open>
  C6. Within one refill window of the weighted limiter (every call earlier than
  \<open>lastFill + refill\<close>) the weights that \<open>Wait\<close> admits never add up to more than what was left
  of the budget, whatever the sequence of calls, their weights and the clock.
\<close>

theorem WeightedLimiter_window_budget:
  assumes "0 \<le> wl_used l" "wl_used l < 2 ^ 62" "wl_budget l < 2 ^ 62"
    and "0 < wl_refill l" "wl_refill l < 2 ^ 63"
    and "list_all (\<lambda>(now1, now2, w). now1 - wl_lastFill l < wl_refill l \<and> 0 \<le> w \<and> w < 2 ^ 62) xs"
  shows "total_admitted (\<lambda>w. w) xs (snd (run_calls (limiter_call WeightedLimiter_Wait) xs l))
           \<le> max 0 (wl_budget l - wl_used l)"
  by (rule wl.run_one_window [OF assms(1-3,5,4) _ prod.collapse [symmetric]])
    (use assms(6) in \<open>auto simp: list_all_iff\<close>)

theorem WeightedLimiter_window_budget_witness:
  "total_admitted (\<lambda>w. w) [(1, 1, 7), (2, 2, 4), (3, 3, 3)]
     (snd (run_calls (limiter_call WeightedLimiter_Wait) [(1, 1, 7), (2, 2, 4), (3, 3, 3)]
        (NewWeightedLimiter ''binance'' 10 0)))
   \<le> max 0 (wl_budget (NewWeightedLimiter ''binance'' 10 0) - wl_used (NewWeightedLimiter ''binance'' 10 0))"
  by (rule WeightedLimiter_window_budget) (simp_all add: NewWeightedLimiter_def)

text \<open>
  C22. Over any interval as long as the refill period (60 seconds), wherever it lies, the
  weighted limiter admits at most twice its budget: the budget left before the one refill that
  can fall into the interval and one full budget after it. The witness reaches the bound, so
  the limit the README promises never to exceed can be exceeded by a burst around a refill.
\<close>

theorem WeightedLimiter_any_interval:
  assumes "0 \<le> wl_used l" "wl_used l < 2 ^ 62" "0 \<le> wl_budget l" "wl_budget l < 2 ^ 62"
    and "0 < wl_refill l" "wl_refill l < 2 ^ 63"
    and "list_all (\<lambda>(now1, now2, w). t0 \<le> now1 \<and> now1 < t0 + wl_refill l \<and> 0 \<le> w \<and> w < 2 ^ 62) xs"
  shows "total_admitted (\<lambda>w. w) xs (snd (run_calls (limiter_call WeightedLimiter_Wait) xs l))
           \<le> 2 * wl_budget l"
proof -
  have "total_admitted (\<lambda>w. w) xs (snd (run_calls (limiter_call WeightedLimiter_Wait) xs l))
      \<le> max 0 (wl_budget l - wl_used l) + wl_budget l"
    by (rule wl.run_any_interval [OF assms(1,2,4,6,5,3) _ prod.collapse [symmetric], where ?a0.0 = t0])
      (use assms(7) in \<open>auto simp: list_all_iff\<close>)
  with assms(1,3) show ?thesis by (auto simp: max_def split: if_splits)
qed

theorem WeightedLimiter_any_interval_witness:
  defines "l \<equiv> NewWeightedLimiter ''binance'' 10 0"
    and "xs \<equiv> [(59 * Second, 59 * Second, 10), (60 * Second, 60 * Second, 10)]"
  shows "total_admitted (\<lambda>w. w) xs (snd (run_calls (limiter_call WeightedLimiter_Wait) xs l))
           \<le> 2 * wl_budget l
       \<and> total_admitted (\<lambda>w. w) xs (snd (run_calls (limiter_call WeightedLimiter_Wait) xs l)) = 20"
proof
  show "total_admitted (\<lambda>w. w) xs (snd (run_calls (limiter_call WeightedLimiter_Wait) xs l))
           \<le> 2 * wl_budget l"
    by (rule WeightedLimiter_any_interval [where ?t0.0 = "59 * Second"])
      (simp_all add: l_def xs_def NewWeightedLimiter_def)
  show "total_admitted (\<lambda>w. w) xs (snd (run_calls (limiter_call WeightedLimiter_Wait) xs l)) = 20"
    by (simp add: l_def xs_def NewWeightedLimiter_def limiter_call_def WeightedLimiter_defs Let_def
        admits_def time_Sub_def time_IsZero_def wrap64_def)
qed

text \<open>
  C23. The same two bounds for the requests-per-second limiter, in numbers of admitted requests:
  at most the limit in one window, at most twice the limit in any interval of one window's
  length. The cost argument is ignored: every request counts 1.
\<close>

theorem RPSLimiter_any_interval:
  fixes l :: RPSLimiter
  defines "run \<equiv> run_calls (limiter_call (\<lambda>now1 now2. RPSLimiter_Wait now1))"
  assumes "0 \<le> rps_count l" "rps_count l \<le> rps_limit l" "rps_limit l < 2 ^ 62"
    and "0 < rps_window l" "rps_window l < 2 ^ 63"
    and "list_all (\<lambda>(now1, now2, w). t0 \<le> now1 \<and> now1 < t0 + rps_window l \<and> 0 \<le> w \<and> w < 2 ^ 62) xs"
  shows "total_admitted (\<lambda>_. 1) xs (snd (run xs l)) \<le> 2 * rps_limit l - rps_count l
    \<and> (t0 = rps_start l \<longrightarrow> total_admitted (\<lambda>_. 1) xs (snd (run xs l)) \<le> rps_limit l - rps_count l)"
proof
  have c: "rps_count l < 2 ^ 62" "0 \<le> rps_limit l" using assms by auto
  have "total_admitted (\<lambda>_. 1) xs (snd (run xs l)) \<le> max 0 (rps_limit l - rps_count l) + rps_limit l"
    unfolding run_def
    by (rule rl.run_any_interval [OF assms(2) c(1) assms(4,6,5) c(2) _ prod.collapse [symmetric],
          where ?a0.0 = t0]) (use assms(7) in \<open>auto simp: list_all_iff\<close>)
  with assms(3) show "total_admitted (\<lambda>_. 1) xs (snd (run xs l)) \<le> 2 * rps_limit l - rps_count l"
    by simp
  have "t0 = rps_start l \<Longrightarrow>
      total_admitted (\<lambda>_. 1) xs (snd (run xs l)) \<le> max 0 (rps_limit l - rps_count l)"
    unfolding run_def
    by (rule rl.run_one_window [OF assms(2) c(1) assms(4,6,5) _ prod.collapse [symmetric]])
      (use assms(7) in \<open>auto simp: list_all_iff\<close>)
  with assms(3)
  show "t0 = rps_start l \<longrightarrow> total_admitted (\<lambda>_. 1) xs (snd (run xs l)) \<le> rps_limit l - rps_count l"
    by simp
qed

theorem RPSLimiter_any_interval_witness:
  "total_admitted (\<lambda>_. 1) [(5, 5, 1 :: int), (6, 6, 1), (7, 7, 1)]
     (snd (run_calls (limiter_call (\<lambda>now1 now2. RPSLimiter_Wait now1))
        [(5, 5, 1 :: int), (6, 6, 1), (7, 7, 1)] (NewRPSLimiter ''otc'' 2 5))) \<le> 2"
proof -
  have "0 \<le> rps_count (NewRPSLimiter ''otc'' 2 5)"
      "rps_count (NewRPSLimiter ''otc'' 2 5) \<le> rps_limit (NewRPSLimiter ''otc'' 2 5)"
      "rps_limit (NewRPSLimiter ''otc'' 2 5) < 2 ^ 62" "0 < rps_window (NewRPSLimiter ''otc'' 2 5)"
      "rps_window (NewRPSLimiter ''otc'' 2 5) < 2 ^ 63"
      "list_all (\<lambda>(now1, now2, w). 5 \<le> now1 \<and> now1 < 5 + rps_window (NewRPSLimiter ''otc'' 2 5)
         \<and> 0 \<le> w \<and> w < 2 ^ 62) [(5, 5, 1 :: int), (6, 6, 1), (7, 7, 1)]"
    by (simp_all add: NewRPSLimiter_def)
  from RPSLimiter_any_interval [OF this] show ?thesis by (simp add: NewRPSLimiter_def)
qed

text \<open>
  C21. The decaying counter is a leaky bucket: from any state, the total cost that a sequence of
  \<open>Wait\<close> calls with a clock that does not run backwards admits up to an instant \<open>t\<close> is at most
  the free budget plus one unit per whole decay period (3 seconds) elapsed since the last decay.
\<close>

theorem CounterLimiter_leaky_bucket:
  assumes "0 \<le> cl_current l" "cl_current l \<le> cl_budget l" "cl_budget l < 2 ^ 62" "0 < cl_decay l"
    and "sorted (cl_last l # map fst xs)" "cl_last l \<le> t"
    and "list_all (\<lambda>(now1, now2, c). now1 \<le> t \<and> 0 \<le> c \<and> c < 2 ^ 62) xs"
  shows "total_admitted (\<lambda>c. c) xs (snd (run_calls (limiter_call CounterLimiter_Wait) xs l))
           \<le> cl_budget l - cl_current l + (t - cl_last l) div cl_decay l"
proof -
  have "total_admitted (\<lambda>c. c) xs (snd (run_calls (limiter_call CounterLimiter_Wait) xs l))
      \<le> max (cl_current l) (cl_budget l) - cl_current l + (t - cl_last l) div cl_decay l"
    by (rule CounterLimiter_run_bound [OF assms(1) _ assms(4,3) _ assms(5,6) prod.collapse [symmetric]])
      (use assms in \<open>auto simp: list_all_iff\<close>)
  with assms(2) show ?thesis by simp
qed

theorem CounterLimiter_leaky_bucket_witness:
  "total_admitted (\<lambda>c. c) [(1, 1, 6), (2, 2, 6), (3 * Second, 3 * Second, 2)]
     (snd (run_calls (limiter_call CounterLimiter_Wait)
        [(1, 1, 6), (2, 2, 6), (3 * Second, 3 * Second, 2)] (NewCounterLimiter ''kraken'' 12 0)))
   \<le> 12 - 0 + (3 * Second - 0) div (3 * Second)"
  using CounterLimiter_leaky_bucket
    [of "NewCounterLimiter ''kraken'' 12 0" "[(1, 1, 6), (2, 2, 6), (3 * Second, 3 * Second, 2)]"
        "3 * Second"]
  by (simp add: NewCounterLimiter_def del: total_admitted.simps run_calls.simps)

text \<open>
  C25. After a venue answered 429 or 418 and the adapter called \<open>Backoff\<close>, every \<open>Wait\<close> before
  the deadline is refused, in all three limiters and for any sequence of calls in between.
\<close>

theorem limiters_backoff_silence:
  assumes "time_Add now d \<noteq> 0"
    and "list_all (\<lambda>(now1, now2, w). now1 \<le> now2 \<and> now2 < time_Add now d) xs"
  shows "list_all (\<lambda>a. fst a = Some ErrBudgetExhausted)
           (snd (run_calls (limiter_call WeightedLimiter_Wait) xs (WeightedLimiter_Backoff v d now l)))
       \<and> list_all (\<lambda>a. fst a = Some ErrBudgetExhausted)
           (snd (run_calls (limiter_call CounterLimiter_Wait) xs (CounterLimiter_Backoff v d now m)))
       \<and> list_all (\<lambda>a. fst a = Some ErrBudgetExhausted)
           (snd (run_calls (limiter_call (\<lambda>now1 now2. RPSLimiter_Wait now1)) xs
              (RPSLimiter_Backoff v d now r)))"
proof -
  have calls: "\<And>now1 now2 w. (now1, now2, w) \<in> set xs \<Longrightarrow> now1 \<le> now2 \<and> now2 < time_Add now d"
    using assms(2) by (auto simp: list_all_iff)
  show ?thesis unfolding list_all_iff
    by (intro conjI wl.backoff_run_silent [OF assms(1) calls prod.collapse [symmetric]]
        cl.backoff_run_silent [OF assms(1) calls prod.collapse [symmetric]]
        rl.backoff_run_silent [OF assms(1) calls prod.collapse [symmetric]])
qed

theorem limiters_backoff_silence_witness:
  "list_all (\<lambda>a. fst a = Some ErrBudgetExhausted)
     (snd (run_calls (limiter_call WeightedLimiter_Wait) [(10, 10, 1), (20, 21, 1)]
        (WeightedLimiter_Backoff ''binance'' (30 * Second) 5 (NewWeightedLimiter ''binance'' 1200 0))))"
proof -
  have "time_Add 5 (30 * Second) \<noteq> 0"
      "list_all (\<lambda>(now1, now2, w). now1 \<le> now2 \<and> now2 < time_Add 5 (30 * Second))
         [(10, 10, 1), (20, 21, 1)]" by (simp_all add: time_Add_def)
  from limiters_backoff_silence [OF this] show ?thesis by blast
qed

text \<open>
  C26. The limiter recovers: once a full refill period has passed and no backoff is pending, a
  request that fits the budget is admitted, whatever the recorded use was (also after the venue
  reported a use above the budget), and it leaves exactly its own weight recorded.
\<close>

theorem WeightedLimiter_recovers:
  assumes "wl_refill l \<le> time_Sub now1 (wl_lastFill l)"
    and "wl_backoff l = 0 \<or> wl_backoff l \<le> now2"
    and "0 \<le> w" "w \<le> wl_budget l" "in64 (wl_budget l)"
  shows "\<exists>l' ms. WeightedLimiter_Wait now1 now2 w l = (l', None, ms) \<and> WeightedLimiter_Used l' = w
           \<and> wl_lastFill l' = now1"
proof -
  have "wrap64 w = w" using assms(3-5) by (intro wrap64_id) (simp add: in64_def)
  then show ?thesis using assms
    by (auto simp: WeightedLimiter_defs WeightedLimiter_Used_def time_IsZero_def Let_def)
qed

theorem WeightedLimiter_recovers_witness:
  "\<exists>l' ms. WeightedLimiter_Wait (61 * Second) (61 * Second) 5
      (fst (WeightedLimiter_UpdateUsed ''binance'' 5000 (NewWeightedLimiter ''binance'' 1200 0)))
        = (l', None, ms) \<and> WeightedLimiter_Used l' = 5 \<and> wl_lastFill l' = 61 * Second"
  by (rule WeightedLimiter_recovers)
    (simp_all add: WeightedLimiter_UpdateUsed_def NewWeightedLimiter_def time_Sub_def in64_def Let_def)

text \<open>
  A successful \<open>Wait\<close> of the weighted limiter publishes a headroom gauge that is a finite
  float between 0 and 1 and is what \<open>Headroom\<close> returns afterwards.
\<close>

theorem WeightedLimiter_headroom_unit:
  assumes "0 \<le> wl_used l" "0 < wl_budget l" "wl_budget l < 2 ^ 53" "wl_used l < 2 ^ 62"
    and "0 \<le> w" "w < 2 ^ 62" and "WeightedLimiter_Wait now1 now2 w l = (l', None, ms)"
  shows "\<exists>h. ms = [SetGauge RateLimitHeadroom [wl_venue l] (F64 h)] \<and> 0 \<le> h \<and> h \<le> 1
           \<and> WeightedLimiter_Headroom l' = F64 h"
proof -
  let ?r = "WeightedLimiter_replenishLocked now1 l"
  have used: "0 \<le> wl_used ?r" "wl_used ?r < 2 ^ 62"
    using assms(1,4) by (auto simp: WeightedLimiter_replenishLocked_def)
  have w: "wrap64 (wl_used ?r + w) = wl_used ?r + w" by (rule wrap64_add_small [OF used assms(5,6)])
  have l': "l' = ?r\<lparr>wl_used := wl_used ?r + w\<rparr>" and le: "wl_used ?r + w \<le> wl_budget l"
    using assms(7) by (auto simp: WeightedLimiter_Wait_def Let_def w split: if_splits)
  have d: "wrap64 (wl_budget l - (wl_used ?r + w)) = wl_budget l - (wl_used ?r + w)"
    using used le assms(3,5) by (intro wrap64_id) (simp add: in64_def)
  obtain h where h: "f64_div (f64_of_int (wl_budget l - (wl_used ?r + w))) (f64_of_int (wl_budget l)) = F64 h"
      "0 \<le> h" "h \<le> 1"
    using f64_div_unit [of "wl_budget l - (wl_used ?r + w)" "wl_budget l"] le used assms(2,3,5) by auto
  show ?thesis using assms(2,7) h
    by (auto simp: WeightedLimiter_Wait_def WeightedLimiter_Headroom_def Let_def w d l' split: if_splits)
qed

end
