(* ===== verification/WsBook.thy ===== *)
theory WsBook
  imports Metrics "HOL-Library.AList" "HOL-Library.Multiset"
begin

text \<open>
  The order-book reconstructor of \<open>internal/ws/ws.go\<close>: a snapshot replaces both sides, a diff
  with the next sequence number updates them, a stale diff is ignored and a gap is reported.
  A side is a Go map from price strings to size strings, kept as an association list with
  distinct keys; the order in which Go ranges over a map is not specified and is the argument
  \<open>ord\<close> of the definitions that range.
\<close>

type_synonym level = "string \<times> string"
type_synonym side = "level list"

record BookReconstructor =
  br_venue :: string
  br_pair :: string
  br_bids :: side
  br_asks :: side
  br_lastSeq :: int
  br_lastUpdate :: instant
  br_snapshotTTL :: duration

definition NewBookReconstructor :: "string \<Rightarrow> string \<Rightarrow> BookReconstructor" where
  "NewBookReconstructor venue pair =
     \<lparr>br_venue = venue, br_pair = pair, br_bids = [], br_asks = [], br_lastSeq = 0,
      br_lastUpdate = 0, br_snapshotTTL = Second\<rparr>"

fun snapshot_side :: "level list \<Rightarrow> side \<Rightarrow> side" where
  "snapshot_side [] m = m"
| "snapshot_side ((p, s) # lvls) m = snapshot_side lvls (AList.update p s m)"

definition ApplySnapshot ::
    "level list \<Rightarrow> level list \<Rightarrow> instant \<Rightarrow> BookReconstructor \<Rightarrow> BookReconstructor" where
  "ApplySnapshot bids asks now r =
     r\<lparr>br_bids := snapshot_side bids [], br_asks := snapshot_side asks [], br_lastUpdate := now\<rparr>"

fun diff_side :: "level list \<Rightarrow> side \<Rightarrow> side" where
  "diff_side [] m = m"
| "diff_side ((p, s) # lvls) m =
     diff_side lvls (if s = ''0'' \<or> s = [] then AList.delete p m else AList.update p s m)"

text \<open>The two results of \<open>ApplyDiff\<close>: was it applied, and was there a gap.\<close>

definition ApplyDiff ::
    "int \<Rightarrow> level list \<Rightarrow> level list \<Rightarrow> instant \<Rightarrow> BookReconstructor
      \<Rightarrow> BookReconstructor \<times> bool \<times> bool" where
  "ApplyDiff seq bids asks now r =
     (if br_lastSeq r \<noteq> 0 \<and> seq \<le> br_lastSeq r then (r, False, False)
      else if br_lastSeq r \<noteq> 0 \<and> seq > wrap64 (br_lastSeq r + 1) then (r, False, True)
      else (r\<lparr>br_bids := diff_side bids (br_bids r), br_asks := diff_side asks (br_asks r),
              br_lastSeq := seq, br_lastUpdate := now\<rparr>, True, False))"

definition MarkGap :: "BookReconstructor \<Rightarrow> BookReconstructor \<times> metric list" where
  "MarkGap r = (r\<lparr>br_lastSeq := 0\<rparr>, [Inc WSGapCount [br_venue r]])"

definition Lag :: "instant \<Rightarrow> BookReconstructor \<Rightarrow> float64" where
  "Lag now r =
     (if time_IsZero (br_lastUpdate r) then F64 0
      else duration_Seconds (time_Sub now (br_lastUpdate r)))"

text \<open>
  The in-place insertion sort: \<open>sink\<close> is the inner loop, which swaps the element at index \<open>j\<close>
  down until the one before it is less.
\<close>

definition level_less :: "bool \<Rightarrow> string \<Rightarrow> string \<Rightarrow> bool" where
  "level_less descending a b = (if descending then a > b else a < b)"

fun sink :: "bool \<Rightarrow> nat \<Rightarrow> level list \<Rightarrow> level list" where
  "sink descending 0 s = s"
| "sink descending (Suc j) s =
     (if level_less descending (fst (s ! j)) (fst (s ! Suc j)) then s
      else sink descending j (s[j := s ! Suc j, Suc j := s ! j]))"

definition sortLevels :: "level list \<Rightarrow> bool \<Rightarrow> level list" where
  "sortLevels s descending = fold (sink descending) [1..<length s] s"

definition collectLevels :: "(side \<Rightarrow> level list) \<Rightarrow> side \<Rightarrow> bool \<Rightarrow> nat \<Rightarrow> level list" where
  "collectLevels ord m descending n =
     (let out = sortLevels (ord m) descending in if length out > n then take n out else out)"

text \<open>
  The count is a natural number. In Go it is an \<open>int\<close>, and a negative one would panic for a side
  with levels; both callers pass 20.
\<close>

definition TopN :: "(side \<Rightarrow> level list) \<Rightarrow> nat \<Rightarrow> BookReconstructor \<Rightarrow> level list \<times> level list" where
  "TopN ord n r = (collectLevels ord (br_bids r) True n, collectLevels ord (br_asks r) False n)"

text \<open>A range over a map visits every entry once.\<close>

definition range_order :: "(side \<Rightarrow> level list) \<Rightarrow> bool" where
  "range_order ord \<longleftrightarrow> (\<forall>m. mset (ord m) = mset m)"

section \<open>The book as a map, and what the operations do to it\<close>

definition book_of :: "side \<Rightarrow> string \<rightharpoonup> string" where
  "book_of m = map_of m"

definition side_ok :: "side \<Rightarrow> bool" where
  "side_ok m \<longleftrightarrow> distinct (map fst m)"

definition book_ok :: "BookReconstructor \<Rightarrow> bool" where
  "book_ok r \<longleftrightarrow> side_ok (br_bids r) \<and> side_ok (br_asks r)"

text \<open>
  The specification: the last level a message has for a price decides; a size \<open>0\<close> or the empty
  string removes the price.
\<close>

definition diff_spec :: "level list \<Rightarrow> (string \<rightharpoonup> string) \<Rightarrow> (string \<rightharpoonup> string)" where
  "diff_spec lvls b =
     (\<lambda>p. case map_of (rev lvls) p of None \<Rightarrow> b p
          | Some s \<Rightarrow> if s = ''0'' \<or> s = [] then None else Some s)"

lemma side_ok_empty [simp]: "side_ok []"
  by (simp add: side_ok_def)

lemma snapshot_side_ok [simp]: "side_ok m \<Longrightarrow> side_ok (snapshot_side lvls m)"
  by (induction lvls m rule: snapshot_side.induct) (auto simp: side_ok_def distinct_update)

lemma diff_side_ok [simp]: "side_ok m \<Longrightarrow> side_ok (diff_side lvls m)"
  by (induction lvls m rule: diff_side.induct)
    (auto simp: side_ok_def distinct_update distinct_delete)

lemma snapshot_side_spec: "book_of (snapshot_side lvls m) = (book_of m) ++ map_of (rev lvls)"
  by (induction lvls m rule: snapshot_side.induct)
    (auto simp: book_of_def update_conv' map_add_def split: option.splits)

lemma diff_side_spec: "book_of (diff_side lvls m) = diff_spec lvls (book_of m)"
proof (induction lvls m rule: diff_side.induct)
  case (1 m)
  then show ?case by (simp add: diff_spec_def)
next
  case (2 p s lvls m)
  have "book_of (if s = ''0'' \<or> s = [] then AList.delete p m else AList.update p s m)
      = diff_spec [(p, s)] (book_of m)"
    by (auto simp: book_of_def diff_spec_def update_conv' delete_conv' fun_eq_iff)
  with 2 show ?case
    by (auto simp: diff_spec_def fun_eq_iff map_add_def split: option.splits)
qed

lemma ApplySnapshot_view [simp]:
  "book_of (br_bids (ApplySnapshot bids asks now r)) = map_of (rev bids)"
  "book_of (br_asks (ApplySnapshot bids asks now r)) = map_of (rev asks)"
  "br_lastSeq (ApplySnapshot bids asks now r) = br_lastSeq r"
  by (simp_all add: ApplySnapshot_def snapshot_side_spec) (simp_all add: book_of_def)

lemma book_ok_operations:
  "book_ok (NewBookReconstructor v p)"
  "book_ok (ApplySnapshot bids asks now r)"
  "book_ok r \<Longrightarrow> book_ok (fst (ApplyDiff seq bids asks now r))"
  "book_ok r \<Longrightarrow> book_ok (fst (MarkGap r))"
  by (simp_all add: book_ok_def NewBookReconstructor_def ApplySnapshot_def ApplyDiff_def MarkGap_def)

section \<open>The insertion sort\<close>

text \<open>The inner loop as an insertion into the reversed sorted prefix.\<close>

fun insert_back :: "bool \<Rightarrow> level \<Rightarrow> level list \<Rightarrow> level list" where
  "insert_back desc x [] = [x]"
| "insert_back desc x (y # r) =
     (if level_less desc (fst y) (fst x) then x # y # r else y # insert_back desc x r)"

lemma sink_insert_back: "sink desc (length r) (rev r @ x # ys) = rev (insert_back desc x r) @ ys"
proof (induction r arbitrary: ys)
  case Nil
  then show ?case by simp
next
  case (Cons y r)
  have nth: "(rev r @ y # x # ys) ! length r = y" "(rev r @ y # x # ys) ! Suc (length r) = x"
    by (simp_all add: nth_append)
  have upd: "(rev r @ y # x # ys)[length r := x, Suc (length r) := y] = rev r @ x # y # ys"
    by (simp add: list_update_append)
  show ?case using Cons.IH [of "y # ys"] by (simp add: nth upd)
qed

lemma fold_sink:
  "k \<le> length s \<Longrightarrow>
     fold (sink desc) [0..<k] s = rev (fold (insert_back desc) (take k s) []) @ drop k s"
proof (induction k)
  case 0
  then show ?case by simp
next
  case (Suc k)
  let ?r = "fold (insert_back desc) (take k s) []"
  have len: "length (fold (insert_back desc) xs ys) = length xs + length ys" for xs ys
  proof (induction xs arbitrary: ys)
    case (Cons x xs)
    have "length (insert_back desc x ys) = Suc (length ys)" by (induction ys) auto
    with Cons show ?case by simp
  qed simp
  have "drop k s = s ! k # drop (Suc k) s" using Suc.prems by (simp add: Cons_nth_drop_Suc)
  then have "fold (sink desc) [0..<Suc k] s = sink desc (length ?r) (rev ?r @ s ! k # drop (Suc k) s)"
    using Suc by (simp add: len)
  also have "\<dots> = rev (insert_back desc (s ! k) ?r) @ drop (Suc k) s" by (rule sink_insert_back)
  finally show ?case using Suc.prems by (simp add: take_Suc_conv_app_nth)
qed

lemma sortLevels_insert_back: "sortLevels s desc = rev (fold (insert_back desc) s [])"
proof (cases s)
  case Nil
  then show ?thesis by (simp add: sortLevels_def)
next
  case (Cons x xs)
  have "[0..<length s] = 0 # [1..<length s]" using Cons upt_conv_Cons [of 0 "length s"] by (metis One_nat_def length_greater_0_conv list.distinct(1))
  then have "sortLevels s desc = fold (sink desc) [0..<length s] s" by (simp add: sortLevels_def)
  then show ?thesis using fold_sink [of "length s" s desc] by simp
qed

lemma mset_insert_back: "mset (insert_back desc x r) = {#x#} + mset r"
  by (induction desc x r rule: insert_back.induct) auto

lemma mset_sortLevels: "mset (sortLevels s desc) = mset s"
proof -
  have "mset (fold (insert_back desc) s r) = mset s + mset r" for r
    by (induction s arbitrary: r) (auto simp: mset_insert_back)
  from this [of "[]"] show ?thesis by (simp add: sortLevels_insert_back)
qed

definition level_le :: "bool \<Rightarrow> level \<Rightarrow> level \<Rightarrow> bool" where
  "level_le desc x y = (if desc then fst y \<le> fst x else fst x \<le> fst y)"

lemma level_le_trans: "level_le desc x y \<Longrightarrow> level_le desc y z \<Longrightarrow> level_le desc x z"
  by (auto simp: level_le_def split: if_splits)

lemma level_not_less: "\<not> level_less desc (fst y) (fst x) \<longleftrightarrow> level_le desc x y"
  by (auto simp: level_le_def level_less_def)

lemma level_less_le: "level_less desc (fst y) (fst x) \<Longrightarrow> level_le desc y x"
  by (auto simp: level_le_def level_less_def split: if_splits)

lemma sorted_insert_back:
  "sorted_wrt (\<lambda>x y. level_le desc y x) r \<Longrightarrow>
     sorted_wrt (\<lambda>x y. level_le desc y x) (insert_back desc x r)"
proof (induction desc x r rule: insert_back.induct)
  case (2 desc x y r)
  have set: "set (insert_back desc x r) = insert x (set r)"
    using mset_insert_back [of desc x r] by (metis set_mset_mset set_mset_add_mset_insert add_mset_add_single add.commute)
  from 2 show ?case
    by (auto simp: set level_not_less dest: level_less_le intro: level_le_trans)
qed simp

lemma sorted_sortLevels: "sorted_wrt (level_le desc) (sortLevels s desc)"
proof -
  have "sorted_wrt (\<lambda>x y. level_le desc y x) r \<Longrightarrow>
      sorted_wrt (\<lambda>x y. level_le desc y x) (fold (insert_back desc) s r)" for r
    by (induction s arbitrary: r) (auto intro: sorted_insert_back)
  from this [of "[]"] show ?thesis by (simp add: sortLevels_insert_back sorted_wrt_rev)
qed

text \<open>With distinct prices the sorted list is determined by the set of levels.\<close>

lemma level_sorted_unique:
  "sorted_wrt (level_le desc) xs \<Longrightarrow> sorted_wrt (level_le desc) ys \<Longrightarrow> mset xs = mset ys \<Longrightarrow>
     distinct (map fst xs) \<Longrightarrow> xs = ys"
proof (induction xs arbitrary: ys)
  case Nil
  then show ?case by simp
next
  case (Cons x xs)
  then obtain y ys' where ys: "ys = y # ys'" by (cases ys) auto
  have "x \<in> set ys" "y \<in> set (x # xs)" using Cons.prems(3) ys
    by (metis list.set_intros(1) mset_eq_setD, metis list.set_intros(1) mset_eq_setD)
  then have "level_le desc y x" "level_le desc x y"
    using Cons.prems(1,2) ys by (auto simp: level_le_def)
  then have "fst x = fst y" by (auto simp: level_le_def split: if_splits)
  with \<open>y \<in> set (x # xs)\<close> Cons.prems(4) have "x = y" by (auto simp: image_iff)
  with Cons ys show ?case by auto
qed

lemma level_le_False: "level_le False = (\<lambda>x y. fst x \<le> fst y)"
  by (simp add: level_le_def fun_eq_iff)

lemma level_le_True: "level_le True = (\<lambda>x y. fst y \<le> fst x)"
  by (simp add: level_le_def fun_eq_iff)

lemma sortLevels_sort_key:
  assumes "distinct (map fst s)" "mset s = mset m"
  shows "sortLevels s False = sort_key fst m" "sortLevels s True = rev (sort_key fst m)"
proof -
  have dist: "distinct (map fst (sortLevels s desc))" for desc
    using assms(1) mset_sortLevels [of s desc] by (metis mset_eq_imp_distinct_iff mset_map)
  have sorted: "sorted_wrt (\<lambda>x y. fst x \<le> fst y) (sort_key fst m)"
    using sorted_sort_key [of fst m] by (simp add: sorted_map)
  show "sortLevels s False = sort_key fst m"
    by (rule level_sorted_unique [of False])
      (use sorted_sortLevels [of False s] sorted dist assms(2) in
        \<open>simp_all add: level_le_False mset_sortLevels\<close>)
  show "sortLevels s True = rev (sort_key fst m)"
    by (rule level_sorted_unique [of True])
      (use sorted_sortLevels [of True s] sorted dist assms(2) in
        \<open>simp_all add: level_le_True mset_sortLevels sorted_wrt_rev\<close>)
qed

lemma collectLevels_sort_key:
  assumes "range_order ord" "side_ok m"
  shows "collectLevels ord m False n = take n (sort_key fst m)"
    and "collectLevels ord m True n = take n (rev (sort_key fst m))"
proof -
  have "mset (ord m) = mset m" using assms(1) by (simp add: range_order_def)
  moreover from this have "distinct (map fst (ord m))"
    using assms(2) by (metis mset_eq_imp_distinct_iff mset_map side_ok_def)
  ultimately show "collectLevels ord m False n = take n (sort_key fst m)"
    "collectLevels ord m True n = take n (rev (sort_key fst m))"
    using sortLevels_sort_key [of "ord m" m] by (simp_all add: collectLevels_def Let_def)
qed

section \<open>Runs of diffs\<close>

type_synonym diff = "int \<times> level list \<times> level list \<times> instant"

definition diff_call :: "diff \<Rightarrow> BookReconstructor \<Rightarrow> BookReconstructor \<times> bool \<times> bool" where
  "diff_call = (\<lambda>(seq, bids, asks, now) r. ApplyDiff seq bids asks now r)"

lemma ApplyDiff_next:
  assumes "br_lastSeq r = 0 \<or> seq = br_lastSeq r + 1 \<and> in64 seq"
  shows "ApplyDiff seq bids asks now r =
     (r\<lparr>br_bids := diff_side bids (br_bids r), br_asks := diff_side asks (br_asks r),
        br_lastSeq := seq, br_lastUpdate := now\<rparr>, True, False)"
  using assms by (auto simp: ApplyDiff_def go_arith)

lemma ApplyDiff_refused:
  assumes "br_lastSeq r \<noteq> 0" "in64 (br_lastSeq r + 1)" "seq \<noteq> br_lastSeq r + 1"
  shows "ApplyDiff seq bids asks now r = (r, False, seq > br_lastSeq r)"
  using assms by (auto simp: ApplyDiff_def go_arith)

lemma run_diffs_stuck:
  assumes "br_lastSeq r \<noteq> 0" "in64 (br_lastSeq r + 1)"
    and "list_all (\<lambda>(seq, _). seq > br_lastSeq r + 1) ds"
  shows "run_calls diff_call ds r = (r, replicate (length ds) (False, True))"
  using assms(3)
  by (induction ds) (auto simp: diff_call_def ApplyDiff_refused [OF assms(1,2)])

lemma run_diffs_next:
  assumes "br_lastSeq r = 0 \<or> n = br_lastSeq r + 1" "0 < n" "n + int (length ds) \<le> 2 ^ 63"
    and "map fst ds = [n..n + int (length ds) - 1]"
    and "run_calls diff_call ds r = (r', as)"
  shows "as = replicate (length ds) (True, False)
    \<and> book_of (br_bids r') = fold (\<lambda>(_, bids, _). diff_spec bids) ds (book_of (br_bids r))
    \<and> book_of (br_asks r') = fold (\<lambda>(_, _, asks, _). diff_spec asks) ds (book_of (br_asks r))
    \<and> br_lastSeq r' = (if ds = [] then br_lastSeq r else n + int (length ds) - 1)"
  using assms
proof (induction ds arbitrary: r n as)
  case Nil
  then show ?case by simp
next
  case (Cons d ds)
  obtain seq bids asks now where d: "d = (seq, bids, asks, now)" by (cases d) auto
  have seq: "seq = n" "map fst ds = [n + 1..n + 1 + int (length ds) - 1]"
    using Cons.prems(4) by (auto simp: d upto_rec1 [of n])
  let ?r1 = "r\<lparr>br_bids := diff_side bids (br_bids r), br_asks := diff_side asks (br_asks r),
        br_lastSeq := n, br_lastUpdate := now\<rparr>"
  have step: "ApplyDiff n bids asks now r = (?r1, True, False)"
    by (rule ApplyDiff_next) (use Cons.prems(1-3) in \<open>auto simp: in64_def\<close>)
  obtain as' where as: "as = (True, False) # as'" and run: "run_calls diff_call ds ?r1 = (r', as')"
    using Cons.prems(5) unfolding d seq(1)
    by (elim run_calls_ConsE) (simp add: diff_call_def step)
  have "as' = replicate (length ds) (True, False)
    \<and> book_of (br_bids r') = fold (\<lambda>(_, bids, _). diff_spec bids) ds (book_of (br_bids ?r1))
    \<and> book_of (br_asks r') = fold (\<lambda>(_, _, asks, _). diff_spec asks) ds (book_of (br_asks ?r1))
    \<and> br_lastSeq r' = (if ds = [] then br_lastSeq ?r1 else n + 1 + int (length ds) - 1)"
    by (rule Cons.IH [OF _ _ _ seq(2) run]) (use Cons.prems(2,3) in auto)
  then show ?case by (auto simp: as d diff_side_spec)
qed

lemma run_calls_append:
  "run_calls f (xs @ ys) s =
    (let (s1, rs1) = run_calls f xs s; (s2, rs2) = run_calls f ys s1 in (s2, rs1 @ rs2))"
  by (induction xs arbitrary: s) (simp_all add: Let_def split: prod.splits)

lemma run_diffs_stale:
  "br_lastSeq r \<noteq> 0 \<Longrightarrow> list_all (\<lambda>(seq, _). seq \<le> br_lastSeq r) ds \<Longrightarrow>
    run_calls diff_call ds r = (r, replicate (length ds) (False, False))"
  by (induction ds) (auto simp: diff_call_def ApplyDiff_def)

text \<open>How many of the consecutive diffs from \<open>n\<close> on the book has already seen.\<close>

definition seen_diffs :: "BookReconstructor \<Rightarrow> int \<Rightarrow> nat \<Rightarrow> nat" where
  "seen_diffs r n k = (if br_lastSeq r = 0 then 0 else min k (nat (br_lastSeq r + 1 - n)))"

lemma run_diffs_consecutive:
  assumes "0 < n" "n + int (length ds) \<le> 2 ^ 63" "map fst ds = [n..n + int (length ds) - 1]"
    and "br_lastSeq r = 0 \<or> n \<le> br_lastSeq r + 1"
    and "run_calls diff_call ds r = (r', as)"
  defines "k \<equiv> seen_diffs r n (length ds)"
  shows "as = replicate k (False, False) @ replicate (length ds - k) (True, False)
    \<and> book_of (br_bids r') = fold (\<lambda>(_, bids, _). diff_spec bids) (drop k ds) (book_of (br_bids r))
    \<and> book_of (br_asks r') = fold (\<lambda>(_, _, asks, _). diff_spec asks) (drop k ds) (book_of (br_asks r))
    \<and> br_lastSeq r' = (if k = length ds then br_lastSeq r else n + int (length ds) - 1)"
proof -
  have k: "k \<le> length ds" by (simp add: k_def seen_diffs_def)
  have nth: "fst (ds ! i) = n + int i" if "i < length ds" for i
    using arg_cong [OF assms(3), of "\<lambda>xs. xs ! i"] that by simp
  have old: "run_calls diff_call (take k ds) r = (r, replicate k (False, False))"
  proof (cases "k = 0")
    case False
    then have nz: "br_lastSeq r \<noteq> 0" by (auto simp: k_def seen_diffs_def)
    have "fst (ds ! i) \<le> br_lastSeq r" if "i < k" for i
      using nth [of i] that k by (auto simp: k_def seen_diffs_def nz)
    then have "list_all (\<lambda>(seq, _). seq \<le> br_lastSeq r) (take k ds)"
      by (simp add: list_all_length split_beta)
    from run_diffs_stale [OF nz this] k show ?thesis by (simp add: min_def)
  qed simp
  have "drop k (map fst ds) = [n + int k..n + int (length ds) - 1]"
    unfolding assms(3) using k by (intro nth_equalityI) auto
  then have fresh: "map fst (drop k ds) = [n + int k..n + int k + int (length (drop k ds)) - 1]"
    using k by (simp add: drop_map of_nat_diff)
  obtain as' where run: "run_calls diff_call (drop k ds) r = (r', as')" and as: "as = replicate k (False, False) @ as'"
    using assms(5) run_calls_append [of diff_call "take k ds" "drop k ds" r] by (auto simp: old split: prod.splits)
  show ?thesis
  proof (cases "k = length ds")
    case True
    with run as show ?thesis by simp
  next
    case False
    then have "br_lastSeq r = 0 \<or> n + int k = br_lastSeq r + 1"
      using assms(4) by (auto simp: k_def seen_diffs_def min_def)
    from run_diffs_next [OF this _ _ fresh run] assms(1,2) k False as show ?thesis
      by (simp add: of_nat_diff)
  qed
qed

lemma run_diffs_ahead:
  assumes "0 < n" "n + int (length ds) \<le> 2 ^ 63" "map fst ds = [n..n + int (length ds) - 1]"
    and "br_lastSeq r \<noteq> 0" "br_lastSeq r + 1 < n" "in64 (br_lastSeq r)"
  shows "run_calls diff_call ds r = (r, replicate (length ds) (False, True))"
proof -
  have "\<forall>s \<in> set (map fst ds). s > br_lastSeq r + 1" unfolding assms(3) using assms(5) by simp
  then have "list_all (\<lambda>(s, _). s > br_lastSeq r + 1) ds" by (auto simp: list_all_iff)
  moreover have "in64 (br_lastSeq r + 1)" using assms(2,5,6) by (simp add: in64_def)
  ultimately show ?thesis using run_diffs_stuck assms(4) by blast
qed

section \<open>Properties\<close>

text \<open>
  C7. Reconstruction, for every book. A snapshot followed by diffs with the consecutive sequence
  numbers \<open>n\<close>, \<open>n + 1\<close>, ... replaces the levels and leaves the last sequence number. If that number
  is set and \<open>n\<close> skips ahead of it, every diff is reported as a gap and the book stays the
  snapshot. Otherwise the diffs that are not newer than it are ignored, all others are applied,
  and both sides are the snapshot's levels updated by these in order, the last level for a price
  deciding and a size \<open>0\<close> or the empty text removing it; on a new book, or one with a marked
  gap, that is all diffs.
\<close>

theorem snapshot_then_diffs:
  fixes r :: BookReconstructor
  assumes "in64 (br_lastSeq r)" "0 < n" "n + int (length ds) \<le> 2 ^ 63"
    and "map fst ds = [n..n + int (length ds) - 1]"
  defines "q \<equiv> br_lastSeq r"
  defines "k \<equiv> (if q = 0 then 0 else min (length ds) (nat (q + 1 - n)))"
  shows "let (r', as) = run_calls diff_call ds (ApplySnapshot bids asks now r) in
      if q \<noteq> 0 \<and> q + 1 < n then
        as = replicate (length ds) (False, True) \<and> br_lastSeq r' = q
        \<and> book_of (br_bids r') = map_of (rev bids) \<and> book_of (br_asks r') = map_of (rev asks)
      else
        as = replicate k (False, False) @ replicate (length ds - k) (True, False)
        \<and> book_of (br_bids r') = fold (\<lambda>(_, b, _). diff_spec b) (drop k ds) (map_of (rev bids))
        \<and> book_of (br_asks r') = fold (\<lambda>(_, _, a, _). diff_spec a) (drop k ds) (map_of (rev asks))
        \<and> br_lastSeq r' = (if k = length ds then q else n + int (length ds) - 1)"
proof -
  let ?s = "ApplySnapshot bids asks now r"
  obtain r' as where run: "run_calls diff_call ds ?s = (r', as)"
    by (metis surj_pair)
  have k: "k = seen_diffs ?s n (length ds)" by (simp add: k_def seen_diffs_def q_def)
  show ?thesis
  proof (cases "q \<noteq> 0 \<and> q + 1 < n")
    case True
    with run_diffs_ahead [of n ds ?s] assms(1-4) show ?thesis by (simp add: q_def)
  next
    case False
    then have "br_lastSeq ?s = 0 \<or> n \<le> br_lastSeq ?s + 1" by (auto simp: q_def)
    from run_diffs_consecutive [OF assms(2-4) this run] show ?thesis
      by (simp add: run k if_not_P [OF False]) (simp add: q_def)
  qed
qed

text \<open>The witness: a book that stands at 7, so of the diffs 7 and 8 the second one is applied.\<close>

theorem snapshot_then_diffs_witness:
  "let (r', as) = run_calls diff_call
        [(7, [(''100'', ''2'')], [], 1), (8, [(''101'', ''0'')], [(''102'', ''5'')], 2)]
        (ApplySnapshot [(''101'', ''1'')] [(''103'', ''4'')] 0
          ((NewBookReconstructor ''binance'' ''BTCUSDT'')\<lparr>br_lastSeq := 7\<rparr>))
   in as = [(False, False), (True, False)] \<and> br_lastSeq r' = 8
      \<and> book_of (br_bids r') = Map.empty \<and> book_of (br_asks r') = [''103'' \<mapsto> ''4'', ''102'' \<mapsto> ''5'']"
proof -
  let ?ds = "[(7, [(''100'', ''2'')], [], 1), (8, [(''101'', ''0'')], [(''102'', ''5'')], 2)] :: diff list"
  have "diff_spec [(''101'', ''0'')] [''101'' \<mapsto> ''1''] = Map.empty"
    "diff_spec [(''102'', ''5'')] [''103'' \<mapsto> ''4''] = [''103'' \<mapsto> ''4'', ''102'' \<mapsto> ''5'']"
    by (auto simp: diff_spec_def fun_eq_iff)
  moreover have "map fst ?ds = [7..7 + int (length ?ds) - 1]" by (simp add: upto_rec1)
  ultimately show ?thesis
    using snapshot_then_diffs [of "(NewBookReconstructor ''binance'' ''BTCUSDT'')\<lparr>br_lastSeq := 7\<rparr>" 7 ?ds
        "[(''101'', ''1'')]" "[(''103'', ''4'')]" 0]
    by (simp add: in64_def del: run_calls.simps split: prod.splits)
qed

text \<open>
  C12. \<open>TopN\<close> does not depend on the order in which Go ranges over its maps, and it is the
  reference: the bids sorted by price string in descending order and the asks in ascending
  order, cut to \<open>n\<close> levels.
\<close>

theorem TopN_reference:
  assumes "range_order ord" "book_ok r"
  shows "TopN ord n r =
    (take n (rev (sort_key fst (br_bids r))), take n (sort_key fst (br_asks r)))"
  using assms by (simp add: TopN_def book_ok_def collectLevels_sort_key)

theorem TopN_reference_witness:
  "TopN rev 1 (ApplySnapshot [(''100'', ''1''), (''101'', ''2'')] [(''103'', ''1'')] 0
      (NewBookReconstructor ''binance'' ''BTCUSDT''))
   = (take 1 (rev (sort_key fst [(''100'', ''1''), (''101'', ''2'')])),
      take 1 (sort_key fst [(''103'', ''1'')]))"
proof -
  have "range_order rev" by (simp add: range_order_def)
  from TopN_reference [OF this book_ok_operations(2), of 1 "[(''100'', ''1''), (''101'', ''2'')]"
      "[(''103'', ''1'')]" 0 "NewBookReconstructor ''binance'' ''BTCUSDT''"]
  show ?thesis by (simp add: ApplySnapshot_def)
qed

text \<open>
  Price levels are compared as strings: for any two prices of the bid side, the first one
  \<open>TopN\<close> lists is the lexicographically greater one. So the best bid of a book with the bids 10
  and 9 is reported as 9.
\<close>

theorem TopN_best_bid_is_lexicographic:
  assumes "range_order ord" "br_bids r = [(p, s), (q, t)]" "side_ok (br_asks r)" "p < q"
  shows "fst (TopN ord 1 r) = [(q, t)]"
proof -
  have "book_ok r" using assms by (auto simp: book_ok_def side_ok_def)
  with assms less_imp_le [OF assms(4)] show ?thesis
    by (simp add: TopN_def book_ok_def collectLevels_sort_key)
qed

text \<open>
  A diff that is not the next one changes nothing: it is reported as a gap exactly when it
  is ahead, and as long as nobody calls \<open>MarkGap\<close> every later diff that skips a number is
  refused too, so the book stays as it is for ever.
\<close>

theorem out_of_sequence_diffs_change_nothing:
  assumes "br_lastSeq r \<noteq> 0" "in64 (br_lastSeq r + 1)"
  shows "(seq \<noteq> br_lastSeq r + 1 \<longrightarrow>
            ApplyDiff seq bids asks now r = (r, False, seq > br_lastSeq r))
    \<and> (list_all (\<lambda>(s, _). s > br_lastSeq r + 1) ds \<longrightarrow>
         run_calls diff_call ds r = (r, replicate (length ds) (False, True)))"
  using ApplyDiff_refused [OF assms] run_diffs_stuck [OF assms] by simp

text \<open>
  After a gap is marked and a fresh snapshot is applied, the next diff is accepted whatever
  its sequence number, also one older than the snapshot: the snapshot does not set the sequence.
\<close>

theorem gap_recovery_accepts_any_sequence:
  "snd (ApplyDiff seq bids asks now' (ApplySnapshot sbids sasks now (fst (MarkGap r)))) = (True, False)
   \<and> br_lastSeq (fst (ApplyDiff seq bids asks now' (ApplySnapshot sbids sasks now (fst (MarkGap r))))) = seq"
  by (simp add: MarkGap_def ApplySnapshot_def ApplyDiff_def)

end
