(* ===== verification/WsClient.thy ===== *)
theory WsClient
  imports Metrics
begin

text \<open>
  The reconnecting WebSocket client of \<open>internal/ws/ws.go\<close>. \<open>Run\<close> is a step relation: its
  rules are the loop's control points, and the choices are the environment's (does the dial
  succeed, what does a read return, is the context cancelled, is \<open>Close\<close> called concurrently,
  which jitter does \<open>rand.Int63n\<close> draw). The WebSocket library is not part of the program: a
  connection is the number of the dial that made it, and the network records what was written
  to which connection and which were closed.
\<close>

record Client =
  wc_url :: string
  wc_venue :: string
  wc_handler :: bool
  wc_conn :: "nat option"
  wc_closed :: bool
  wc_maxBackoff :: duration

text \<open>\<open>wc_handler\<close> says whether a handler is installed; what it is given is recorded below.\<close>

record 'm network =
  nw_dials :: nat
  nw_sent :: "(nat \<times> 'm) list"
  nw_shut :: "nat list"

definition defaultMaxBackoff :: duration where
  "defaultMaxBackoff = 30 * Second"

definition NewClient :: "string \<Rightarrow> string \<Rightarrow> Client" where
  "NewClient url venue =
     \<lparr>wc_url = url, wc_venue = venue, wc_handler = False, wc_conn = None, wc_closed = False,
      wc_maxBackoff = defaultMaxBackoff\<rparr>"

definition SetHandler :: "Client \<Rightarrow> Client" where
  "SetHandler c = c\<lparr>wc_handler := True\<rparr>"

text \<open>A successful dial stores the new connection; a failed one changes nothing.\<close>

definition connect :: "bool \<Rightarrow> Client \<Rightarrow> 'm network \<Rightarrow> Client \<times> 'm network \<times> bool" where
  "connect dial_ok c n =
     (if dial_ok
      then (c\<lparr>wc_conn := Some (nw_dials n)\<rparr>, n\<lparr>nw_dials := Suc (nw_dials n)\<rparr>, True)
      else (c, n, False))"

definition shut :: "nat option \<Rightarrow> 'm network \<Rightarrow> 'm network" where
  "shut conn n = (case conn of None \<Rightarrow> n | Some k \<Rightarrow> n\<lparr>nw_shut := k # nw_shut n\<rparr>)"

definition Close :: "Client \<Rightarrow> 'm network \<Rightarrow> Client \<times> 'm network" where
  "Close c n = (c\<lparr>wc_closed := True\<rparr>, shut (wc_conn c) n)"

definition WriteJSON :: "'m \<Rightarrow> Client \<Rightarrow> 'm network \<Rightarrow> string option \<times> 'm network" where
  "WriteJSON v c n =
     (case wc_conn c of
        None \<Rightarrow> (Some ''ws: not connected'', n)
      | Some k \<Rightarrow> (None, n\<lparr>nw_sent := nw_sent n @ [(k, v)]\<rparr>))"

text \<open>
  \<open>nextBackoff\<close>, with the number \<open>rand.Int63n\<close> returned as an argument; \<open>rand.Int63n\<close> panics
  (\<open>None\<close>) when its argument is not positive.
\<close>

definition nextBackoff :: "duration \<Rightarrow> duration \<Rightarrow> int \<Rightarrow> duration option" where
  "nextBackoff prev maxd jitter =
     (if wrap64 (prev + 1) \<le> 0 then None
      else let next = wrap64 (int64_of_f64 (f64_mul (f64_of_int prev) (F64 2)) + jitter)
           in Some (if next > maxd then maxd else next))"

section \<open>The loop of Run\<close>

datatype run_pc = AtTop | Reading | AfterRead | Sleeping | Returned "string option" | Panicked

record 'm Run_state =
  rs_client :: Client
  rs_net :: "'m network"
  rs_pc :: run_pc
  rs_backoff :: duration
  rs_ctxErr :: "string option"
  rs_metrics :: "metric list"
  rs_delivered :: "(nat \<times> string) list"

definition Run_start :: "Client \<Rightarrow> 'm network \<Rightarrow> string option \<Rightarrow> 'm Run_state" where
  "Run_start c n ctxErr =
     \<lparr>rs_client = c, rs_net = n, rs_pc = AtTop, rs_backoff = 100 * Millisecond,
      rs_ctxErr = ctxErr, rs_metrics = [], rs_delivered = []\<rparr>"

text \<open>Going to sleep with the next backoff, or panicking in \<open>rand.Int63n\<close>.\<close>

definition sleep_next :: "int \<Rightarrow> 'm Run_state \<Rightarrow> 'm Run_state" where
  "sleep_next jitter s =
     (case nextBackoff (rs_backoff s) (wc_maxBackoff (rs_client s)) jitter of
        None \<Rightarrow> s\<lparr>rs_pc := Panicked\<rparr>
      | Some b \<Rightarrow> s\<lparr>rs_pc := Sleeping, rs_backoff := b\<rparr>)"

definition jitter_of :: "duration \<Rightarrow> int \<Rightarrow> bool" where
  "jitter_of prev j \<longleftrightarrow> 0 \<le> j \<and> j < wrap64 (prev + 1)"

inductive run_step :: "'m Run_state \<Rightarrow> 'm Run_state \<Rightarrow> bool" where
  top_closed: "rs_pc s = AtTop \<Longrightarrow> wc_closed (rs_client s) \<Longrightarrow>
     run_step s (s\<lparr>rs_pc := Returned None\<rparr>)"
| dial_ok: "rs_pc s = AtTop \<Longrightarrow> \<not> wc_closed (rs_client s) \<Longrightarrow>
     connect True (rs_client s) (rs_net s) = (c, n, ok) \<Longrightarrow>
     run_step s (s\<lparr>rs_client := c, rs_net := n, rs_pc := Reading, rs_backoff := 100 * Millisecond,
       rs_metrics := rs_metrics s @ [Inc WSReconnectCount [wc_venue c]]\<rparr>)"
| dial_cancelled: "rs_pc s = AtTop \<Longrightarrow> \<not> wc_closed (rs_client s) \<Longrightarrow> rs_ctxErr s = Some e \<Longrightarrow>
     run_step s (s\<lparr>rs_pc := Returned (Some e)\<rparr>)"
| dial_failed: "rs_pc s = AtTop \<Longrightarrow> \<not> wc_closed (rs_client s) \<Longrightarrow> rs_ctxErr s = None \<Longrightarrow>
     jitter_of (rs_backoff s) j \<or> wrap64 (rs_backoff s + 1) \<le> 0 \<Longrightarrow> run_step s (sleep_next j s)"
| read_stop: "rs_pc s = Reading \<Longrightarrow> wc_conn (rs_client s) = None \<or> wc_closed (rs_client s) \<Longrightarrow>
     run_step s (s\<lparr>rs_pc := AfterRead\<rparr>)"
| read_error: "rs_pc s = Reading \<Longrightarrow> wc_conn (rs_client s) = Some k \<Longrightarrow> \<not> wc_closed (rs_client s) \<Longrightarrow>
     run_step s (s\<lparr>rs_pc := AfterRead\<rparr>)"
| read_message: "rs_pc s = Reading \<Longrightarrow> wc_conn (rs_client s) = Some k \<Longrightarrow>
     \<not> wc_closed (rs_client s) \<Longrightarrow>
     run_step s (if wc_handler (rs_client s)
       then s\<lparr>rs_delivered := rs_delivered s @ [(k, msg)]\<rparr> else s)"
| after_cancelled: "rs_pc s = AfterRead \<Longrightarrow> rs_ctxErr s = Some e \<Longrightarrow>
     run_step s (s\<lparr>rs_pc := Returned (Some e)\<rparr>)"
| after_retry: "rs_pc s = AfterRead \<Longrightarrow> rs_ctxErr s = None \<Longrightarrow>
     jitter_of (rs_backoff s) j \<or> wrap64 (rs_backoff s + 1) \<le> 0 \<Longrightarrow>
     run_step s (sleep_next j (s\<lparr>rs_net := shut (wc_conn (rs_client s)) (rs_net s),
       rs_client := (rs_client s)\<lparr>wc_conn := None\<rparr>\<rparr>))"
| sleep_over: "rs_pc s = Sleeping \<Longrightarrow> run_step s (s\<lparr>rs_pc := AtTop\<rparr>)"
| sleep_cancelled: "rs_pc s = Sleeping \<Longrightarrow> rs_ctxErr s = Some e \<Longrightarrow>
     run_step s (s\<lparr>rs_pc := Returned (Some e)\<rparr>)"
| env_cancel: "rs_ctxErr s = None \<Longrightarrow> run_step s (s\<lparr>rs_ctxErr := Some e\<rparr>)"
| env_close: "Close (rs_client s) (rs_net s) = (c, n) \<Longrightarrow>
     run_step s (s\<lparr>rs_client := c, rs_net := n\<rparr>)"

inductive run_reach :: "'m Run_state \<Rightarrow> 'm Run_state \<Rightarrow> bool" for s0 where
  reach_start: "run_reach s0 s0"
| reach_step: "run_reach s0 s \<Longrightarrow> run_step s t \<Longrightarrow> run_reach s0 t"

lemma run_reach_invariant:
  assumes "run_reach s0 s" "I s0" "\<And>s t. I s \<Longrightarrow> run_step s t \<Longrightarrow> I t"
  shows "I s"
  using assms(1) by induction (use assms(2,3) in auto)

section \<open>The backoff\<close>

lemma nextBackoff_value:
  assumes "0 \<le> prev" "prev < 2 ^ 51" "0 \<le> j" "j \<le> prev"
  shows "nextBackoff prev maxd j = Some (min maxd (2 * prev + j))"
proof -
  have d: "f64_mul (f64_of_int prev) (F64 2) = F64 (of_int (2 * prev))"
    using assms by (intro f64_double_exact) simp
  have i: "int64_of_f64 (F64 (of_int (2 * prev))) = 2 * prev"
    using assms by (intro int64_of_f64_of_int) (simp add: in64_def)
  have w: "wrap64 (prev + 1) = prev + 1" "wrap64 (2 * prev + j) = 2 * prev + j"
    using assms by (auto intro!: wrap64_id simp: in64_def)
  show ?thesis using assms by (simp only: nextBackoff_def d i w Let_def) (simp add: min_def)
qed

lemma jitter_of_small: "0 \<le> prev \<Longrightarrow> prev < 2 ^ 51 \<Longrightarrow> jitter_of prev j \<longleftrightarrow> 0 \<le> j \<and> j \<le> prev"
  by (auto simp: jitter_of_def wrap64_id in64_def)

text \<open>Consecutive failures: the backoffs for a list of jitters.\<close>

fun backoffs :: "duration \<Rightarrow> duration \<Rightarrow> int list \<Rightarrow> duration option" where
  "backoffs maxd prev [] = Some prev"
| "backoffs maxd prev (j # js) =
     (case nextBackoff prev maxd j of None \<Rightarrow> None | Some b \<Rightarrow> backoffs maxd b js)"

fun jitters_ok :: "duration \<Rightarrow> duration \<Rightarrow> int list \<Rightarrow> bool" where
  "jitters_ok maxd prev [] = True"
| "jitters_ok maxd prev (j # js) =
     (jitter_of prev j \<and> (case nextBackoff prev maxd j of None \<Rightarrow> True | Some b \<Rightarrow> jitters_ok maxd b js))"

lemma backoffs_exponential:
  assumes "0 < prev" "prev \<le> maxd" "maxd < 2 ^ 51" "jitters_ok maxd prev js"
  shows "\<exists>b. backoffs maxd prev js = Some b \<and> min maxd (2 ^ length js * prev) \<le> b \<and> b \<le> maxd"
  using assms
proof (induction js arbitrary: prev)
  case Nil
  then show ?case by simp
next
  case (Cons j js)
  have j: "0 \<le> j" "j \<le> prev"
    using Cons.prems jitter_of_small [of prev j] by auto
  let ?b = "min maxd (2 * prev + j)"
  have nb: "nextBackoff prev maxd j = Some ?b"
    using Cons.prems j by (intro nextBackoff_value) auto
  obtain b where b: "backoffs maxd ?b js = Some b" "min maxd (2 ^ length js * ?b) \<le> b" "b \<le> maxd"
    using Cons.IH [of ?b] Cons.prems j nb by auto
  have "min maxd (2 ^ length (j # js) * prev) \<le> min maxd (2 ^ length js * ?b)"
  proof -
    let ?p = "(2 :: int) ^ length js"
    have one: "1 \<le> ?p" by simp
    have le: "?p * (2 * prev) \<le> ?p * (2 * prev + j)" "maxd \<le> ?p * maxd"
      using j(1) one Cons.prems(1,2) mult_right_mono [OF one, of maxd] by simp_all
    have "?p * ?b = min (?p * maxd) (?p * (2 * prev + j))" by (simp add: min_mult_distrib_left)
    moreover have "2 ^ length (j # js) * prev = ?p * (2 * prev)" by simp
    ultimately show ?thesis using le by linarith
  qed
  with b nb show ?case by auto
qed

section \<open>Invariants of Run\<close>

definition backoff_ok :: "'m Run_state \<Rightarrow> bool" where
  "backoff_ok s \<longleftrightarrow>
     100 * Millisecond \<le> rs_backoff s \<and> rs_backoff s \<le> wc_maxBackoff (rs_client s)
     \<and> wc_maxBackoff (rs_client s) < 2 ^ 51 \<and> rs_pc s \<noteq> Panicked"

lemma sleep_next_backoff_ok:
  assumes "backoff_ok s" "jitter_of (rs_backoff s) j \<or> wrap64 (rs_backoff s + 1) \<le> 0"
  shows "backoff_ok (sleep_next j s)"
proof -
  have b: "0 \<le> rs_backoff s" "rs_backoff s < 2 ^ 51" using assms(1) by (auto simp: backoff_ok_def)
  then have w: "wrap64 (rs_backoff s + 1) = rs_backoff s + 1" by (simp add: wrap64_id in64_def)
  with assms(2) b have "0 \<le> j" "j \<le> rs_backoff s" by (auto simp: jitter_of_def)
  from nextBackoff_value [OF b this] show ?thesis using assms(1) \<open>0 \<le> j\<close>
    by (auto simp: sleep_next_def backoff_ok_def)
qed

lemma run_step_backoff_ok: "run_step s t \<Longrightarrow> backoff_ok s \<Longrightarrow> backoff_ok t"
proof (induction rule: run_step.induct)
  case (dial_failed s j)
  then show ?case by (intro sleep_next_backoff_ok)
next
  case (after_retry s j)
  then show ?case by (intro sleep_next_backoff_ok) (simp_all add: backoff_ok_def)
qed (auto simp: backoff_ok_def connect_def Close_def)

text \<open>Every return is the context's error, or follows \<open>Close\<close>.\<close>

definition return_ok :: "'m Run_state \<Rightarrow> bool" where
  "return_ok s \<longleftrightarrow>
     (case rs_pc s of
        Returned None \<Rightarrow> wc_closed (rs_client s)
      | Returned (Some e) \<Rightarrow> rs_ctxErr s = Some e
      | _ \<Rightarrow> True)"

lemma run_step_return_ok: "run_step s t \<Longrightarrow> return_ok s \<Longrightarrow> return_ok t"
  by (induction rule: run_step.induct)
    (auto simp: return_ok_def connect_def Close_def sleep_next_def split: option.splits run_pc.splits)

text \<open>
  What is delivered was read from a connection that \<open>Run\<close> itself dialled, and what is written
  to the network does not change.
\<close>

definition own_dials :: "nat \<Rightarrow> (nat \<times> 'm) list \<Rightarrow> 'm Run_state \<Rightarrow> bool" where
  "own_dials k0 sent s \<longleftrightarrow>
     k0 \<le> nw_dials (rs_net s) \<and> nw_sent (rs_net s) = sent
     \<and> list_all (\<lambda>(k, _). k0 \<le> k) (rs_delivered s)
     \<and> (rs_pc s = Reading \<longrightarrow> (case wc_conn (rs_client s) of None \<Rightarrow> True | Some k \<Rightarrow> k0 \<le> k))"

lemma shut_frame [simp]: "nw_dials (shut c n) = nw_dials n" "nw_sent (shut c n) = nw_sent n"
  by (simp_all add: shut_def split: option.splits)

lemma sleep_next_frame [simp]:
  "rs_client (sleep_next j s) = rs_client s" "rs_net (sleep_next j s) = rs_net s"
  "rs_delivered (sleep_next j s) = rs_delivered s" "rs_metrics (sleep_next j s) = rs_metrics s"
  "rs_pc (sleep_next j s) \<noteq> Reading"
  by (simp_all add: sleep_next_def split: option.splits)

lemma run_step_own_dials: "run_step s t \<Longrightarrow> own_dials k0 sent s \<Longrightarrow> own_dials k0 sent t"
  by (induction rule: run_step.induct)
    (auto simp: own_dials_def connect_def Close_def split: option.splits)

text \<open>The reconnect counter counts the successful dials.\<close>

definition reconnects_counted :: "string \<Rightarrow> nat \<Rightarrow> 'm Run_state \<Rightarrow> bool" where
  "reconnects_counted venue k0 s \<longleftrightarrow>
     wc_venue (rs_client s) = venue
     \<and> nw_dials (rs_net s) = k0 + incs WSReconnectCount [venue] (rs_metrics s)"

lemma run_step_reconnects: "run_step s t \<Longrightarrow> reconnects_counted v k0 s \<Longrightarrow> reconnects_counted v k0 t"
  by (induction rule: run_step.induct) (auto simp: reconnects_counted_def connect_def Close_def)

section \<open>Properties\<close>

text \<open>
  C37. The reconnect backoff is exponential and bounded: after \<open>k\<close> failures in a row, whatever
  the jitters, it is defined (no panic in \<open>rand.Int63n\<close>), at least \<open>2 ^ k\<close> times the first one
  unless the maximum is smaller, and never above the maximum.
\<close>

theorem reconnect_backoff_exponential:
  assumes "0 < prev" "prev \<le> maxd" "maxd < 2 ^ 51" "jitters_ok maxd prev js"
  shows "\<exists>b. backoffs maxd prev js = Some b \<and> min maxd (2 ^ length js * prev) \<le> b \<and> b \<le> maxd"
  by (rule backoffs_exponential [OF assms])

theorem reconnect_backoff_exponential_witness:
  "\<exists>b. backoffs defaultMaxBackoff (100 * Millisecond) [0, 5, 7] = Some b
     \<and> min defaultMaxBackoff (2 ^ length [0 :: int, 5, 7] * (100 * Millisecond)) \<le> b
     \<and> b \<le> defaultMaxBackoff"
  by (rule reconnect_backoff_exponential)
    (simp_all add: defaultMaxBackoff_def nextBackoff_value jitter_of_small)

text \<open>
  C13. In every state that \<open>Run\<close> of a new client can reach, under any interleaving with \<open>Close\<close>
  and cancellation, the backoff lies between 100 ms and the maximum of 30 s, it has not
  panicked, the reconnect counter equals the number of connections it dialled, and if it has
  returned then it returned the context's error or \<open>Close\<close> had been called.
\<close>

theorem Run_invariant:
  assumes "run_reach (Run_start (SetHandler (NewClient url venue)) n ctxErr) s"
  shows "100 * Millisecond \<le> rs_backoff s \<and> rs_backoff s \<le> defaultMaxBackoff \<and> rs_pc s \<noteq> Panicked
    \<and> nw_dials (rs_net s) = nw_dials n + incs WSReconnectCount [venue] (rs_metrics s)
    \<and> (rs_pc s = Returned None \<longrightarrow> wc_closed (rs_client s))
    \<and> (\<forall>e. rs_pc s = Returned (Some e) \<longrightarrow> rs_ctxErr s = Some e)"
proof -
  let ?s0 = "Run_start (SetHandler (NewClient url venue)) n ctxErr"
  have m: "run_step s t \<Longrightarrow> wc_maxBackoff (rs_client t) = wc_maxBackoff (rs_client s)"
    for s t :: "'a Run_state"
    by (induction rule: run_step.induct) (auto simp: connect_def Close_def)
  have start: "backoff_ok ?s0" "return_ok ?s0" "reconnects_counted venue (nw_dials n) ?s0"
      "wc_maxBackoff (rs_client ?s0) = defaultMaxBackoff"
    by (simp_all add: backoff_ok_def return_ok_def reconnects_counted_def Run_start_def NewClient_def
        SetHandler_def defaultMaxBackoff_def)
  have "backoff_ok s" "return_ok s" "reconnects_counted venue (nw_dials n) s"
      "wc_maxBackoff (rs_client s) = defaultMaxBackoff"
    using run_reach_invariant [OF assms, of backoff_ok] run_reach_invariant [OF assms, of return_ok]
      run_reach_invariant [OF assms, of "reconnects_counted venue (nw_dials n)"]
      run_reach_invariant [OF assms, of "\<lambda>s. wc_maxBackoff (rs_client s) = defaultMaxBackoff"]
      run_step_backoff_ok run_step_return_ok run_step_reconnects m start by metis+
  then show ?thesis
    by (auto simp: backoff_ok_def return_ok_def reconnects_counted_def)
qed

theorem Run_invariant_witness:
  "\<exists>s. run_reach (Run_start (SetHandler (NewClient ''wss://x'' ''binance''))
            \<lparr>nw_dials = 0, nw_sent = ([] :: (nat \<times> nat) list), nw_shut = []\<rparr> None) s
      \<and> rs_pc s = Reading \<and> 100 * Millisecond \<le> rs_backoff s \<and> rs_backoff s \<le> defaultMaxBackoff
      \<and> rs_pc s \<noteq> Panicked \<and> nw_dials (rs_net s) = 0 + incs WSReconnectCount [''binance''] (rs_metrics s)"
proof -
  let ?n = "\<lparr>nw_dials = 0, nw_sent = ([] :: (nat \<times> nat) list), nw_shut = []\<rparr>"
  let ?s0 = "Run_start (SetHandler (NewClient ''wss://x'' ''binance'')) ?n None"
  have "run_step ?s0 (?s0\<lparr>rs_client := (rs_client ?s0)\<lparr>wc_conn := Some 0\<rparr>,
      rs_net := ?n\<lparr>nw_dials := 1\<rparr>, rs_pc := Reading, rs_backoff := 100 * Millisecond,
      rs_metrics := rs_metrics ?s0 @ [Inc WSReconnectCount [wc_venue ((rs_client ?s0)\<lparr>wc_conn := Some 0\<rparr>)]]\<rparr>)"
    by (rule run_step.dial_ok) (simp_all add: Run_start_def NewClient_def SetHandler_def connect_def)
  from run_reach.reach_step [OF run_reach.reach_start this] obtain s where
    s: "run_reach ?s0 s" "rs_pc s = Reading" by fastforce
  from Run_invariant [OF s(1)] s show ?thesis by auto
qed

end
