(* ===== verification/GoEnv.thy ===== *)
theory GoEnv
  imports Metrics
begin

text \<open>
  What the program asks of its surroundings: the clock, fresh identifiers, HTTP exchanges and
  files. \<open>env_urlErr\<close> is the verdict of \<open>url.Parse\<close> on a URL. \<open>err_texts\<close> is the wording of the
  standard library's decoding errors, which is not modelled.
  The surroundings are arbitrary functions of the number of questions asked so far, so nothing
  is assumed about the answers; the requests that were sent and the metric updates are recorded.
\<close>

record err_texts =
  et_base64 :: "string \<Rightarrow> string"
  et_json :: "string \<Rightarrow> string"

record http_request =
  rq_method :: string
  rq_url :: string
  rq_headers :: "(string \<times> string) list"
  rq_body :: string

text \<open>A response whose body cannot be read has the read error as its body.\<close>

record http_response =
  rp_status :: int
  rp_headers :: "(string \<times> string) list"
  rp_body :: "string + string"

record env =
  env_clock :: "nat \<Rightarrow> instant"
  env_ticks :: nat
  env_uuid :: "nat \<Rightarrow> string"
  env_uuids :: nat
  env_http :: "nat \<Rightarrow> http_request \<Rightarrow> string + http_response"
  env_sent :: "http_request list"
  env_metrics :: "metric list"
  env_slept :: "duration list"
  env_urlErr :: "string \<Rightarrow> string option"
  env_file :: "string \<Rightarrow> string + string"

text \<open>An environment for examples: a stopped clock, one identifier, no network.\<close>

definition fixed_env :: env where
  "fixed_env =
     \<lparr>env_clock = (\<lambda>_. 5), env_ticks = 0, env_uuid = (\<lambda>_. ''u''), env_uuids = 0,
      env_http = (\<lambda>_ _. Inl ''no network''), env_sent = [], env_metrics = [], env_slept = [],
      env_urlErr = (\<lambda>_. None), env_file = (\<lambda>_. Inl ''no such file or directory'')\<rparr>"

definition time_Now :: "env \<Rightarrow> instant \<times> env" where
  "time_Now e = (env_clock e (env_ticks e), e\<lparr>env_ticks := Suc (env_ticks e)\<rparr>)"

definition uuid_NewString :: "env \<Rightarrow> string \<times> env" where
  "uuid_NewString e = (env_uuid e (env_uuids e), e\<lparr>env_uuids := Suc (env_uuids e)\<rparr>)"

definition http_Do :: "http_request \<Rightarrow> env \<Rightarrow> (string + http_response) \<times> env" where
  "http_Do rq e = (env_http e (length (env_sent e)) rq, e\<lparr>env_sent := env_sent e @ [rq]\<rparr>)"

definition time_Sleep :: "duration \<Rightarrow> env \<Rightarrow> env" where
  "time_Sleep d e = e\<lparr>env_slept := env_slept e @ [d]\<rparr>"

definition update_metrics :: "metric list \<Rightarrow> env \<Rightarrow> env" where
  "update_metrics ms e = e\<lparr>env_metrics := env_metrics e @ ms\<rparr>"

text \<open>\<open>Header.Get\<close>: the first value of a header, the empty string when it is absent.\<close>

fun Header_Get :: "(string \<times> string) list \<Rightarrow> string \<Rightarrow> string" where
  "Header_Get [] k = []"
| "Header_Get ((h, v) # hs) k = (if ToLower h = ToLower k then v else Header_Get hs k)"

named_theorems env_simps \<open>how the questions change the environment\<close>

lemma env_frame [simp, env_simps]:
  "env_sent (snd (time_Now e)) = env_sent e"
  "env_sent (snd (uuid_NewString e)) = env_sent e"
  "env_sent (update_metrics ms e) = env_sent e"
  "env_metrics (snd (time_Now e)) = env_metrics e"
  "env_metrics (snd (http_Do rq e)) = env_metrics e"
  "env_metrics (update_metrics ms e) = env_metrics e @ ms"
  "env_sent (snd (http_Do rq e)) = env_sent e @ [rq]"
  "env_clock (snd (time_Now e)) = env_clock e"
  "env_clock (update_metrics ms e) = env_clock e"
  "env_sent (time_Sleep d e) = env_sent e"
  "env_metrics (time_Sleep d e) = env_metrics e"
  "env_slept (time_Sleep d e) = env_slept e @ [d]"
  "env_slept (snd (time_Now e)) = env_slept e"
  "env_slept (update_metrics ms e) = env_slept e"
  by (simp_all add: time_Now_def uuid_NewString_def update_metrics_def http_Do_def time_Sleep_def)

end
