(* ===== verification/Venue.thy ===== *)
theory Venue
  imports GoEnv
begin

text \<open>
  The venue types of \<open>internal/venue/venue.go\<close>, the connector interface every adapter
  implements, and the dummy connector of \<open>internal/venue/dummy.go\<close>.

  Decimal arithmetic is the package \<open>shopspring/decimal\<close>, which is not part of the program. It
  is a parameter: a record of the operations the code calls, over a type \<open>'d\<close> of decimals.
\<close>

section \<open>Decimals\<close>

record 'd decimal_ops =
  d_Zero :: 'd
  d_NewFromString :: "string \<Rightarrow> 'd \<times> string option"
  d_NewFromFloat :: "float64 \<Rightarrow> 'd"
  d_NewFromInt :: "int \<Rightarrow> 'd"
  d_IsZero :: "'d \<Rightarrow> bool"
  d_Add :: "'d \<Rightarrow> 'd \<Rightarrow> 'd"
  d_Sub :: "'d \<Rightarrow> 'd \<Rightarrow> 'd"
  d_Mul :: "'d \<Rightarrow> 'd \<Rightarrow> 'd"
  d_Div :: "'d \<Rightarrow> 'd \<Rightarrow> 'd"
  d_Cmp :: "'d \<Rightarrow> 'd \<Rightarrow> int"
  d_String :: "'d \<Rightarrow> string"
  d_Float64 :: "'d \<Rightarrow> float64"
  d_MarshalJSON :: "'d \<Rightarrow> string"
  d_UnmarshalJSON :: "string \<Rightarrow> 'd \<Rightarrow> 'd \<times> string option"

text \<open>The comparisons of the package are readings of \<open>Cmp\<close>, as documented.\<close>

definition d_Equal :: "'d decimal_ops \<Rightarrow> 'd \<Rightarrow> 'd \<Rightarrow> bool" where
  "d_Equal D a b \<longleftrightarrow> d_Cmp D a b = 0"

definition d_LessThan :: "'d decimal_ops \<Rightarrow> 'd \<Rightarrow> 'd \<Rightarrow> bool" where
  "d_LessThan D a b \<longleftrightarrow> d_Cmp D a b < 0"

definition d_LessThanOrEqual :: "'d decimal_ops \<Rightarrow> 'd \<Rightarrow> 'd \<Rightarrow> bool" where
  "d_LessThanOrEqual D a b \<longleftrightarrow> d_Cmp D a b \<le> 0"

definition d_GreaterThan :: "'d decimal_ops \<Rightarrow> 'd \<Rightarrow> 'd \<Rightarrow> bool" where
  "d_GreaterThan D a b \<longleftrightarrow> d_Cmp D a b > 0"

text \<open>
  An instance for the witnesses: decimals as rationals, with a parser for digit strings. It
  shows that the hypotheses about decimals can hold; no definition of the model uses it.
\<close>

fun digits_value :: "string \<Rightarrow> rat \<Rightarrow> rat option" where
  "digits_value [] acc = Some acc"
| "digits_value (c # cs) acc =
     (let n = of_char c :: nat in
      if 48 \<le> n \<and> n \<le> 57 then digits_value cs (10 * acc + of_nat (n - 48)) else None)"

definition rat_decimal :: "rat decimal_ops" where
  "rat_decimal =
     \<lparr>d_Zero = 0,
      d_NewFromString = (\<lambda>s. case s of [] \<Rightarrow> (0, Some ''can't convert'')
        | c # cs \<Rightarrow> (case digits_value s 0 of None \<Rightarrow> (0, Some ''can't convert'') | Some v \<Rightarrow> (v, None))),
      d_NewFromFloat = (\<lambda>f. case f of F64 q \<Rightarrow> q | _ \<Rightarrow> 0),
      d_NewFromInt = of_int,
      d_IsZero = (\<lambda>a. a = 0),
      d_Add = (+), d_Sub = (-), d_Mul = (*), d_Div = (/),
      d_Cmp = (\<lambda>a b. if a < b then -1 else if a = b then 0 else 1),
      d_String = (\<lambda>a. FormatInt \<lfloor>a\<rfloor>),
      d_Float64 = f64_round,
      d_MarshalJSON = (\<lambda>a. [CHR 0x22] @ FormatInt \<lfloor>a\<rfloor> @ [CHR 0x22]),
      d_UnmarshalJSON = (\<lambda>s old. case digits_value s 0 of None \<Rightarrow> (old, Some ''can't convert'')
        | Some v \<Rightarrow> (v, None))\<rparr>"

section \<open>The venue types\<close>

text \<open>Sides, order types and statuses are Go string types: any string can occur.\<close>

type_synonym Side = string
type_synonym OrderType = string
type_synonym OrderStatus = string

abbreviation SideBuy :: Side where "SideBuy \<equiv> ''buy''"
abbreviation SideSell :: Side where "SideSell \<equiv> ''sell''"
abbreviation OrderTypeMarket :: OrderType where "OrderTypeMarket \<equiv> ''market''"
abbreviation OrderTypeLimit :: OrderType where "OrderTypeLimit \<equiv> ''limit''"
abbreviation OrderStatusNew :: OrderStatus where "OrderStatusNew \<equiv> ''new''"
abbreviation OrderStatusPartial :: OrderStatus where "OrderStatusPartial \<equiv> ''partial''"
abbreviation OrderStatusFilled :: OrderStatus where "OrderStatusFilled \<equiv> ''filled''"
abbreviation OrderStatusCanceled :: OrderStatus where "OrderStatusCanceled \<equiv> ''canceled''"

record 'd OrderRequest =
  or_ClientOrderID :: string
  or_Symbol :: string
  or_Side :: Side
  or_Type :: OrderType
  or_Quantity :: 'd
  or_Price :: 'd

record CancelRequest =
  cr_VenueOrderID :: string
  cr_ClientOrderID :: string

record FillQuery =
  fq_VenueOrderID :: string
  fq_Start :: instant
  fq_End :: instant
  fq_Limit :: int

record 'd Fill =
  fl_VenueOrderID :: string
  fl_TradeID :: string
  fl_Price :: 'd
  fl_Quantity :: 'd
  fl_Fee :: 'd
  fl_FeeAsset :: string
  fl_Timestamp :: instant

record 'd OrderResponse =
  os_VenueOrderID :: string
  os_ClientOrderID :: string
  os_Status :: OrderStatus
  os_FilledQty :: 'd
  os_AvgPrice :: 'd
  os_Fills :: "'d Fill list"

record 'd Balance =
  bal_Asset :: string
  bal_Free :: 'd
  bal_Locked :: 'd

text \<open>A Go map that the code ranges over is an association list with distinct keys.\<close>

type_synonym 'd Balances = "(string \<times> 'd Balance) list"

record 'd BookLevel =
  bl_Price :: 'd
  bl_Size :: 'd

record 'd BookUpdate =
  bu_Pair :: string
  bu_Bids :: "'d BookLevel list"
  bu_Asks :: "'d BookLevel list"
  bu_TS :: instant

record VenueConfig =
  vc_Name :: string
  vc_RESTBase :: string
  vc_WSBase :: string

abbreviation ErrOrderNotFound :: string where
  "ErrOrderNotFound \<equiv> ''venue: order not found''"

text \<open>
  The interface \<open>VenueConnector\<close>: its methods as functions on the connector's state and the
  environment. A failed call returns the error's text on the left. \<open>SubscribeBook\<close> returns its
  error; the updates of an accepted subscription arrive at the aggregator one by one.
\<close>

record ('c, 'd) VenueConnector =
  PlaceOrder :: "'d OrderRequest \<Rightarrow> 'c \<times> env \<Rightarrow> (string + 'd OrderResponse) \<times> 'c \<times> env"
  CancelOrder :: "CancelRequest \<Rightarrow> 'c \<times> env \<Rightarrow> string option \<times> 'c \<times> env"
  GetOrder :: "string \<Rightarrow> 'c \<times> env \<Rightarrow> (string + 'd OrderResponse) \<times> 'c \<times> env"
  GetFills :: "FillQuery \<Rightarrow> 'c \<times> env \<Rightarrow> (string + 'd Fill list) \<times> 'c \<times> env"
  GetBalances :: "'c \<times> env \<Rightarrow> (string + 'd Balances) \<times> 'c \<times> env"
  SubscribeBook :: "string list \<Rightarrow> 'c \<times> env \<Rightarrow> string option \<times> 'c \<times> env"
  LastFill :: "'c \<Rightarrow> 'd Fill option option"

text \<open>
  \<open>LastFill\<close> is not in the Go interface: it stands for the type assertion to the dummy
  connector in \<open>handleAdminStatus\<close>, \<open>None\<close> for every other connector.
\<close>

end
