(* ===== verification/Dummy.thy ===== *)
theory Dummy
  imports Venue
begin

text \<open>
  The dummy connector of \<open>internal/venue/dummy.go\<close>: it fills every order at once, at the
  request's price or its own reference price, and remembers orders and fills. The pointer that
  \<open>PlaceOrder\<close> returns and the map entry are one object in the code; the model returns the value
  the object has at that moment.
\<close>

record 'd DummyVenueConnector =
  dv_price :: 'd
  dv_fills :: "'d Fill list"
  dv_orders :: "string \<rightharpoonup> 'd OrderResponse"

text \<open>\<open>price_env\<close> is the value of the variable \<open>DUMMY_PRICE\<close>, empty when unset.\<close>

definition NewDummyVenueConnector :: "'d decimal_ops \<Rightarrow> string \<Rightarrow> 'd DummyVenueConnector" where
  "NewDummyVenueConnector D price_env =
     (let price = d_NewFromFloat D (F64 50000);
          price' = (if price_env \<noteq> [] then
                      (case d_NewFromString D price_env of (p, None) \<Rightarrow> p | (_, Some _) \<Rightarrow> price)
                    else price)
      in \<lparr>dv_price = price', dv_fills = [], dv_orders = Map.empty\<rparr>)"

definition Dummy_PlaceOrder ::
    "'d decimal_ops \<Rightarrow> 'd OrderRequest \<Rightarrow> 'd DummyVenueConnector \<times> env
      \<Rightarrow> (string + 'd OrderResponse) \<times> 'd DummyVenueConnector \<times> env" where
  "Dummy_PlaceOrder D req = (\<lambda>(d, e0).
     (let (id, e1) = (if or_ClientOrderID req = [] then uuid_NewString e0
                      else (or_ClientOrderID req, e0));
          price = (if d_IsZero D (or_Price req) then dv_price d else or_Price req);
          qty = or_Quantity req;
          (tradeID, e2) = uuid_NewString e1;
          (now, e3) = time_Now e2;
          fill = \<lparr>fl_VenueOrderID = id, fl_TradeID = tradeID, fl_Price = price, fl_Quantity = qty,
                  fl_Fee = d_Mul D (d_Mul D price qty) (d_NewFromFloat D (f64_round (1 / 1000))),
                  fl_FeeAsset = ''USDT'', fl_Timestamp = now\<rparr>;
          resp = \<lparr>os_VenueOrderID = id, os_ClientOrderID = id, os_Status = OrderStatusFilled,
                  os_FilledQty = qty, os_AvgPrice = price, os_Fills = [fill]\<rparr>;
          d' = d\<lparr>dv_fills := dv_fills d @ [fill], dv_orders := (dv_orders d)(id \<mapsto> resp)\<rparr>
      in (Inr resp, d', e3)))"

definition Dummy_CancelOrder ::
    "CancelRequest \<Rightarrow> 'd DummyVenueConnector \<times> env \<Rightarrow> string option \<times> 'd DummyVenueConnector \<times> env" where
  "Dummy_CancelOrder req = (\<lambda>(d, e).
     (let id = (if cr_VenueOrderID req = [] then cr_ClientOrderID req else cr_VenueOrderID req)
      in case dv_orders d id of
           Some o' \<Rightarrow> (None, d\<lparr>dv_orders := (dv_orders d)(id \<mapsto> o'\<lparr>os_Status := OrderStatusCanceled\<rparr>)\<rparr>, e)
         | None \<Rightarrow> (None, d, e)))"

definition Dummy_GetOrder ::
    "string \<Rightarrow> 'd DummyVenueConnector \<times> env
      \<Rightarrow> (string + 'd OrderResponse) \<times> 'd DummyVenueConnector \<times> env" where
  "Dummy_GetOrder venueOrderID = (\<lambda>(d, e).
     (case dv_orders d venueOrderID of
        Some o' \<Rightarrow> (Inr o', d, e)
      | None \<Rightarrow> (Inl ErrOrderNotFound, d, e)))"

definition fill_matches :: "FillQuery \<Rightarrow> 'd Fill \<Rightarrow> bool" where
  "fill_matches query f \<longleftrightarrow>
     \<not> (fq_VenueOrderID query \<noteq> [] \<and> fl_VenueOrderID f \<noteq> fq_VenueOrderID query)
     \<and> \<not> (\<not> time_IsZero (fq_Start query) \<and> fl_Timestamp f < fq_Start query)
     \<and> \<not> (\<not> time_IsZero (fq_End query) \<and> fl_Timestamp f > fq_End query)"

definition limit_fills :: "int \<Rightarrow> 'a list \<Rightarrow> 'a list" where
  "limit_fills limit out = (if limit > 0 \<and> int (length out) > limit then take (nat limit) out else out)"

definition Dummy_GetFills ::
    "FillQuery \<Rightarrow> 'd DummyVenueConnector \<times> env
      \<Rightarrow> (string + 'd Fill list) \<times> 'd DummyVenueConnector \<times> env" where
  "Dummy_GetFills query = (\<lambda>(d, e).
     (Inr (limit_fills (fq_Limit query) (filter (fill_matches query) (dv_fills d))), d, e))"

definition Dummy_GetBalances ::
    "'d decimal_ops \<Rightarrow> 'd DummyVenueConnector \<times> env
      \<Rightarrow> (string + 'd Balances) \<times> 'd DummyVenueConnector \<times> env" where
  "Dummy_GetBalances D = (\<lambda>(d, e).
     (Inr
       [(''BTC'', \<lparr>bal_Asset = ''BTC'', bal_Free = d_NewFromFloat D (F64 (3 / 2)),
                   bal_Locked = d_NewFromFloat D (f64_round (1 / 10))\<rparr>),
        (''USDT'', \<lparr>bal_Asset = ''USDT'', bal_Free = d_NewFromFloat D (F64 250000),
                    bal_Locked = d_NewFromFloat D (F64 1000)\<rparr>),
        (''ETH'', \<lparr>bal_Asset = ''ETH'', bal_Free = d_NewFromFloat D (F64 20), bal_Locked = d_Zero D\<rparr>)],
      d, e))"

text \<open>
  One tick of the goroutine of \<open>SubscribeBook\<close>: an update per pair around the reference price,
  \<open>rs\<close> being the numbers \<open>rand.Float64\<close> returned and \<open>ts\<close> the clock readings.
\<close>

fun Dummy_tick ::
    "'d decimal_ops \<Rightarrow> 'd \<Rightarrow> string list \<Rightarrow> float64 list \<Rightarrow> instant list \<Rightarrow> 'd BookUpdate list" where
  "Dummy_tick D base (pair # pairs) (r # rs) (t # ts) =
     (let delta = d_Mul D (d_Mul D (d_NewFromFloat D (f64_sub r (F64 (1 / 2)))) base)
                    (d_NewFromFloat D (f64_round (1 / 1000)));
          mid = d_Add D base delta
      in \<lparr>bu_Pair = pair,
          bu_Bids = [\<lparr>bl_Price = d_Sub D mid (d_NewFromInt D 1), bl_Size = d_NewFromFloat D (F64 (1 / 2))\<rparr>],
          bu_Asks = [\<lparr>bl_Price = d_Add D mid (d_NewFromInt D 1), bl_Size = d_NewFromFloat D (F64 (1 / 2))\<rparr>],
          bu_TS = t\<rparr> # Dummy_tick D base pairs rs ts)"
| "Dummy_tick D base _ _ _ = []"

definition Dummy_SubscribeBook ::
    "string list \<Rightarrow> 'd DummyVenueConnector \<times> env \<Rightarrow> string option \<times> 'd DummyVenueConnector \<times> env" where
  "Dummy_SubscribeBook pairs = (\<lambda>(d, e). (None, d, e))"

definition Dummy_LastFill :: "'d DummyVenueConnector \<Rightarrow> 'd Fill option" where
  "Dummy_LastFill d = (if dv_fills d = [] then None else Some (last (dv_fills d)))"

definition Dummy_connector :: "'d decimal_ops \<Rightarrow> ('d DummyVenueConnector, 'd) VenueConnector" where
  "Dummy_connector D =
     \<lparr>PlaceOrder = Dummy_PlaceOrder D, CancelOrder = Dummy_CancelOrder, GetOrder = Dummy_GetOrder,
      GetFills = Dummy_GetFills, GetBalances = Dummy_GetBalances D,
      SubscribeBook = Dummy_SubscribeBook, LastFill = (\<lambda>d. Some (Dummy_LastFill d))\<rparr>"


section \<open>The invariant\<close>

text \<open>
  Every remembered order carries its own key as both identifiers and one fill of its quantity
  and price, which is among the remembered fills; every fill belongs to a remembered order.
\<close>

definition dummy_ok :: "'d DummyVenueConnector \<Rightarrow> bool" where
  "dummy_ok d \<longleftrightarrow>
     (\<forall>id o'. dv_orders d id = Some o' \<longrightarrow>
        os_VenueOrderID o' = id \<and> os_ClientOrderID o' = id
        \<and> (\<exists>f \<in> set (dv_fills d). os_Fills o' = [f] \<and> fl_VenueOrderID f = id
              \<and> fl_Quantity f = os_FilledQty o' \<and> fl_Price f = os_AvgPrice o'))
     \<and> (\<forall>f \<in> set (dv_fills d). dv_orders d (fl_VenueOrderID f) \<noteq> None)"

lemma dummy_ok_New: "dummy_ok (NewDummyVenueConnector D v)"
  by (simp add: dummy_ok_def NewDummyVenueConnector_def Let_def)

lemma dummy_ok_PlaceOrder:
  "dummy_ok d \<Longrightarrow> Dummy_PlaceOrder D req (d, e) = (r, d', e') \<Longrightarrow> dummy_ok d'"
  by (auto simp: dummy_ok_def Dummy_PlaceOrder_def Let_def split: prod.splits if_splits)

lemma dummy_ok_CancelOrder:
  "dummy_ok d \<Longrightarrow> Dummy_CancelOrder req (d, e) = (r, d', e') \<Longrightarrow> dummy_ok d'"
  by (auto simp: dummy_ok_def Dummy_CancelOrder_def Let_def split: option.splits if_splits)

lemma length_limit_fills: "0 < n \<Longrightarrow> int (length (limit_fills n xs)) \<le> n"
  by (auto simp: limit_fills_def)

lemma limit_fills_prefix: "\<exists>ys. xs = limit_fills n xs @ ys"
  by (auto simp: limit_fills_def intro: exI [of _ "drop (nat n) xs"])

section \<open>Properties\<close>

text \<open>
  The life of a dummy order. Placing an order always succeeds with a filled order under the
  client's identifier (a fresh one when the request has none); \<open>GetOrder\<close> then returns exactly
  that order, \<open>GetFills\<close> on its identifier without bounds ends with its fill, and after
  \<open>CancelOrder\<close> the same order is returned with the status canceled, its fills unchanged.
\<close>

theorem Dummy_order_life:
  fixes D :: "'d decimal_ops"
  assumes "Dummy_PlaceOrder D req (d, e) = (r, d1, e1)"
  defines "oid \<equiv> (if or_ClientOrderID req = [] then env_uuid e (env_uuids e) else or_ClientOrderID req)"
  shows "\<exists>o' f. r = Inr o' \<and> os_VenueOrderID o' = oid \<and> os_Status o' = OrderStatusFilled
      \<and> os_FilledQty o' = or_Quantity req \<and> os_Fills o' = [f]
      \<and> Dummy_GetOrder oid (d1, e1) = (Inr o', d1, e1)
      \<and> dv_fills d1 = dv_fills d @ [f]
      \<and> (oid \<noteq> [] \<longrightarrow> (\<exists>fs. Dummy_GetFills \<lparr>fq_VenueOrderID = oid, fq_Start = 0, fq_End = 0, fq_Limit = 0\<rparr> (d1, e1)
            = (Inr (fs @ [f]), d1, e1)))
      \<and> (\<exists>d2. Dummy_CancelOrder \<lparr>cr_VenueOrderID = oid, cr_ClientOrderID = oid\<rparr> (d1, e1) = (None, d2, e1)
            \<and> Dummy_GetOrder oid (d2, e1) = (Inr (o'\<lparr>os_Status := OrderStatusCanceled\<rparr>), d2, e1)
            \<and> dv_fills d2 = dv_fills d1)"
  using assms(1) unfolding oid_def
  by (auto simp: Dummy_PlaceOrder_def Dummy_GetOrder_def Dummy_GetFills_def Dummy_CancelOrder_def
      uuid_NewString_def time_Now_def limit_fills_def fill_matches_def time_IsZero_def Let_def
      split: prod.splits if_splits)

text \<open>
  \<open>GetFills\<close> returns remembered fills only, in the order they happened, each of the queried
  order and inside the queried time window, and never more than a positive limit; with no
  limit it returns all of them.
\<close>

theorem Dummy_GetFills_sound:
  "\<exists>fs. Dummy_GetFills query (d, e) = (Inr fs, d, e)
     \<and> (\<exists>rest. filter (fill_matches query) (dv_fills d) = fs @ rest \<and> (fq_Limit query \<le> 0 \<longrightarrow> rest = []))
     \<and> list_all (\<lambda>f. (fq_VenueOrderID query = [] \<or> fl_VenueOrderID f = fq_VenueOrderID query)
          \<and> (fq_Start query = 0 \<or> fq_Start query \<le> fl_Timestamp f)
          \<and> (fq_End query = 0 \<or> fl_Timestamp f \<le> fq_End query)) fs
     \<and> (0 < fq_Limit query \<longrightarrow> int (length fs) \<le> fq_Limit query)"
proof -
  let ?all = "filter (fill_matches query) (dv_fills d)"
  obtain rest where rest: "?all = limit_fills (fq_Limit query) ?all @ rest"
    using limit_fills_prefix by blast
  have "list_all (fill_matches query) (limit_fills (fq_Limit query) ?all)"
    by (auto simp: list_all_iff limit_fills_def dest: in_set_takeD)
  then have "list_all (\<lambda>f. (fq_VenueOrderID query = [] \<or> fl_VenueOrderID f = fq_VenueOrderID query)
          \<and> (fq_Start query = 0 \<or> fq_Start query \<le> fl_Timestamp f)
          \<and> (fq_End query = 0 \<or> fl_Timestamp f \<le> fq_End query)) (limit_fills (fq_Limit query) ?all)"
    by (rule list.pred_mono_strong) (auto simp: fill_matches_def time_IsZero_def)
  moreover have "fq_Limit query \<le> 0 \<Longrightarrow> rest = []" using rest by (simp add: limit_fills_def)
  ultimately show ?thesis
    using rest length_limit_fills [of "fq_Limit query" ?all]
    by (intro exI [of _ "limit_fills (fq_Limit query) ?all"]) (auto simp: Dummy_GetFills_def)
qed

end
