(* ===== verification/Store.thy ===== *)
theory Store
  imports Venue
begin

text \<open>
  The order store of \<open>internal/store/store.go\<close>: the interface, the in-memory implementation, and
  the contract that the first record of an order or of a fill wins.
\<close>

record 'd store_Order =
  so_VenueOrderID :: string
  so_ClientOrderID :: string
  so_Venue :: string
  so_Pair :: string
  so_Side :: string
  so_OrderType :: string
  so_Status :: string
  so_FilledQty :: 'd
  so_AvgPrice :: 'd
  so_Quantity :: 'd
  so_Price :: 'd
  so_CreatedAt :: instant
  so_UpdatedAt :: instant

record 'd store_Fill =
  sf_VenueOrderID :: string
  sf_TradeID :: string
  sf_Venue :: string
  sf_Pair :: string
  sf_Price :: 'd
  sf_Quantity :: 'd
  sf_Fee :: 'd
  sf_FeeAsset :: string
  sf_Timestamp :: instant

text \<open>The interface \<open>Store\<close>; the error of a failed call is its text.\<close>

record ('s, 'd) Store_ops =
  RecordOrder :: "'d store_Order \<Rightarrow> 's \<times> env \<Rightarrow> (string + bool) \<times> 's \<times> env"
  GetOrderByClientID :: "string \<Rightarrow> 's \<Rightarrow> 'd store_Order option"
  RecordFill :: "'d store_Fill \<Rightarrow> 's \<times> env \<Rightarrow> (string + bool) \<times> 's \<times> env"
  FillsForOrder :: "string \<Rightarrow> 's \<Rightarrow> string + 'd store_Fill list"

section \<open>The in-memory store\<close>

record 'd MemStore =
  ms_orders :: "string \<rightharpoonup> 'd store_Order"
  ms_fills :: "'d store_Fill list"

definition MemStore_New :: "'d MemStore" where
  "MemStore_New = \<lparr>ms_orders = Map.empty, ms_fills = []\<rparr>"

definition MemStore_RecordOrder ::
    "'d store_Order \<Rightarrow> 'd MemStore \<times> env \<Rightarrow> (string + bool) \<times> 'd MemStore \<times> env" where
  "MemStore_RecordOrder o0 = (\<lambda>(s, e0).
     (case ms_orders s (so_ClientOrderID o0) of
        Some _ \<Rightarrow> (Inr False, s, e0)
      | None \<Rightarrow>
          (let (o1, e1) = (if time_IsZero (so_CreatedAt o0)
                           then (let (now, e') = time_Now e0 in (o0\<lparr>so_CreatedAt := now\<rparr>, e'))
                           else (o0, e0));
               (now2, e2) = time_Now e1;
               o2 = o1\<lparr>so_UpdatedAt := now2\<rparr>
           in (Inr True, s\<lparr>ms_orders := (ms_orders s)(so_ClientOrderID o2 \<mapsto> o2)\<rparr>, e2))))"

definition MemStore_GetOrderByClientID :: "string \<Rightarrow> 'd MemStore \<Rightarrow> 'd store_Order option" where
  "MemStore_GetOrderByClientID clientOrderID s = ms_orders s clientOrderID"

fun fill_recorded :: "'d store_Fill \<Rightarrow> 'd store_Fill list \<Rightarrow> bool" where
  "fill_recorded f [] = False"
| "fill_recorded f (x # xs) =
     (if sf_Venue x = sf_Venue f \<and> sf_TradeID x = sf_TradeID f then True else fill_recorded f xs)"

definition MemStore_RecordFill ::
    "'d store_Fill \<Rightarrow> 'd MemStore \<times> env \<Rightarrow> (string + bool) \<times> 'd MemStore \<times> env" where
  "MemStore_RecordFill f0 = (\<lambda>(s, e0).
     (if fill_recorded f0 (ms_fills s) then (Inr False, s, e0)
      else
        (let (f1, e1) = (if time_IsZero (sf_Timestamp f0)
                         then (let (now, e') = time_Now e0 in (f0\<lparr>sf_Timestamp := now\<rparr>, e'))
                         else (f0, e0))
         in (Inr True, s\<lparr>ms_fills := ms_fills s @ [f1]\<rparr>, e1))))"

fun fills_for_order :: "string \<Rightarrow> 'd store_Fill list \<Rightarrow> 'd store_Fill list" where
  "fills_for_order venueOrderID [] = []"
| "fills_for_order venueOrderID (f # fs) =
     (if sf_VenueOrderID f = venueOrderID then f # fills_for_order venueOrderID fs
      else fills_for_order venueOrderID fs)"

definition MemStore_FillsForOrder :: "string \<Rightarrow> 'd MemStore \<Rightarrow> string + 'd store_Fill list" where
  "MemStore_FillsForOrder venueOrderID s = Inr (fills_for_order venueOrderID (ms_fills s))"

definition MemStore_ops :: "('d MemStore, 'd) Store_ops" where
  "MemStore_ops =
     \<lparr>RecordOrder = MemStore_RecordOrder, GetOrderByClientID = MemStore_GetOrderByClientID,
      RecordFill = MemStore_RecordFill, FillsForOrder = MemStore_FillsForOrder\<rparr>"

section \<open>The contract of a store\<close>

text \<open>The identity of a fill, and the parts of a record that the caller supplies.\<close>

definition fill_key :: "'d store_Fill \<Rightarrow> string \<times> string" where
  "fill_key f = (sf_Venue f, sf_TradeID f)"

definition same_order :: "'d store_Order \<Rightarrow> 'd store_Order \<Rightarrow> bool" where
  "same_order a b \<longleftrightarrow>
     a\<lparr>so_CreatedAt := 0, so_UpdatedAt := 0\<rparr> = b\<lparr>so_CreatedAt := 0, so_UpdatedAt := 0\<rparr>"

definition same_fill :: "'d store_Fill \<Rightarrow> 'd store_Fill \<Rightarrow> bool" where
  "same_fill a b \<longleftrightarrow> a\<lparr>sf_Timestamp := 0\<rparr> = b\<lparr>sf_Timestamp := 0\<rparr>"

text \<open>A stored fill: as it was given, but for a missing timestamp.\<close>

definition kept_fill :: "'d store_Fill \<Rightarrow> 'd store_Fill \<Rightarrow> bool" where
  "kept_fill f g \<longleftrightarrow> same_fill f g \<and> (sf_Timestamp f \<noteq> 0 \<longrightarrow> g = f)"

text \<open>The reference: of the fills with a key that is not in \<open>K\<close>, the first of every key, in order.\<close>

fun first_fills :: "(string \<times> string) set \<Rightarrow> 'd store_Fill list \<Rightarrow> 'd store_Fill list" where
  "first_fills K [] = []"
| "first_fills K (f # fs) =
     (if fill_key f \<in> K then first_fills K fs else f # first_fills (insert (fill_key f) K) fs)"

lemma kept_fill_key: "kept_fill f g \<Longrightarrow> fill_key g = fill_key f \<and> sf_VenueOrderID g = sf_VenueOrderID f"
  by (auto simp: kept_fill_def same_fill_def fill_key_def
      dest: arg_cong [of _ _ sf_Venue] arg_cong [of _ _ sf_TradeID] arg_cong [of _ _ sf_VenueOrderID])

lemma kept_fills_filter:
  "list_all2 kept_fill fs gs \<Longrightarrow>
    list_all2 kept_fill (filter (\<lambda>f. sf_VenueOrderID f = v) fs) (filter (\<lambda>f. sf_VenueOrderID f = v) gs)"
  by (induction rule: list_all2_induct) (auto dest: kept_fill_key)

text \<open>A call of a store operation as a step of a run.\<close>

definition store_call :: "('x \<Rightarrow> 'st \<Rightarrow> 'r \<times> 'st) \<Rightarrow> 'x \<Rightarrow> 'st \<Rightarrow> 'st \<times> 'r" where
  "store_call f x st = (snd (f x st), fst (f x st))"

locale order_store =
  fixes ops :: "('s, 'd) Store_ops" and orders :: "'s \<Rightarrow> string \<rightharpoonup> 'd store_Order"
    and fills :: "'s \<Rightarrow> 'd store_Fill list"
  assumes get_order: "GetOrderByClientID ops c s = orders s c"
    and record_known: "orders s (so_ClientOrderID x) \<noteq> None \<Longrightarrow> RecordOrder ops x (s, e) = (Inr False, s, e)"
    and record_new: "orders s (so_ClientOrderID x) = None \<Longrightarrow>
      \<exists>y s' e'. RecordOrder ops x (s, e) = (Inr True, s', e') \<and> same_order x y
        \<and> orders s' = (orders s)(so_ClientOrderID x \<mapsto> y) \<and> fills s' = fills s"
    and fill_known: "fill_key f \<in> fill_key ` set (fills s) \<Longrightarrow> RecordFill ops f (s, e) = (Inr False, s, e)"
    and fill_new: "fill_key f \<notin> fill_key ` set (fills s) \<Longrightarrow>
      \<exists>g s' e'. RecordFill ops f (s, e) = (Inr True, s', e') \<and> kept_fill f g
        \<and> fills s' = fills s @ [g] \<and> orders s' = orders s"
    and fills_for: "FillsForOrder ops v s = Inr (filter (\<lambda>f. sf_VenueOrderID f = v) (fills s))"
begin

lemma record_order_first_wins:
  assumes "RecordOrder ops x (s, e) = (r, s', e')"
  shows "(orders s (so_ClientOrderID x) = None \<longrightarrow> r = Inr True
            \<and> (\<exists>y. orders s' (so_ClientOrderID x) = Some y \<and> same_order x y))
       \<and> (\<forall>c y. orders s c = Some y \<longrightarrow> orders s' c = Some y)
       \<and> (\<forall>c. c \<noteq> so_ClientOrderID x \<longrightarrow> orders s' c = orders s c)"
  using assms record_known [of s x e] record_new [of s x e]
  by (cases "orders s (so_ClientOrderID x) = None") fastforce+

lemma record_order_again:
  assumes "RecordOrder ops x (s, e) = (r, s', e')" "so_ClientOrderID z = so_ClientOrderID x"
  shows "RecordOrder ops z (s', e2) = (Inr False, s', e2)"
proof -
  have "orders s' (so_ClientOrderID x) \<noteq> None"
    using record_order_first_wins [OF assms(1)] by (cases "orders s (so_ClientOrderID x)") auto
  then show ?thesis using record_known [of s' z e2] assms(2) by simp
qed

lemma record_fill_keys:
  assumes "RecordFill ops f (s, e) = (r, s', e')" "distinct (map fill_key (fills s))"
  shows "distinct (map fill_key (fills s'))
       \<and> fill_key ` set (fills s') = insert (fill_key f) (fill_key ` set (fills s))
       \<and> (\<exists>new. fills s' = fills s @ new) \<and> orders s' = orders s"
proof (cases "fill_key f \<in> fill_key ` set (fills s)")
  case True
  with fill_known [OF this, of e] assms show ?thesis by auto
next
  case False
  then obtain g where g: "kept_fill f g" "fills s' = fills s @ [g]" "orders s' = orders s"
    using fill_new [OF False, of e] assms(1) by auto
  with kept_fill_key [OF g(1)] False assms(2) show ?thesis by auto
qed

lemma record_fills_run:
  assumes "run_calls (store_call (RecordFill ops)) fs (s, e) = ((s', e'), rs)"
    and "distinct (map fill_key (fills s))"
  shows "distinct (map fill_key (fills s'))
       \<and> fill_key ` set (fills s') = fill_key ` set (fills s) \<union> fill_key ` set fs
       \<and> orders s' = orders s"
  using assms
proof (induction fs arbitrary: s e rs)
  case Nil
  then show ?case by simp
next
  case (Cons f fs)
  obtain r s1 e1 where f: "RecordFill ops f (s, e) = (r, s1, e1)" by (metis surj_pair)
  obtain rs' where run: "run_calls (store_call (RecordFill ops)) fs (s1, e1) = ((s', e'), rs')"
    using Cons.prems(1) by (elim run_calls_ConsE) (auto simp: f store_call_def [of _ f])
  from record_fill_keys [OF f Cons.prems(2)] Cons.IH [OF run] show ?case by auto
qed

lemma record_fills_contents:
  assumes "run_calls (store_call (RecordFill ops)) fs (s, e) = ((s', e'), rs)"
  shows "\<exists>new. fills s' = fills s @ new \<and> list_all2 kept_fill (first_fills (fill_key ` set (fills s)) fs) new
    \<and> (\<forall>i < length fs. rs ! i = Inr (fill_key (fs ! i) \<notin> fill_key ` set (fills s) \<union> fill_key ` set (take i fs)))"
  using assms
proof (induction fs arbitrary: s e rs)
  case Nil
  then show ?case by simp
next
  case (Cons f fs)
  obtain r s1 e1 where f: "RecordFill ops f (s, e) = (r, s1, e1)" by (metis surj_pair)
  obtain rs' where run: "run_calls (store_call (RecordFill ops)) fs (s1, e1) = ((s', e'), rs')" and rs: "rs = r # rs'"
    using Cons.prems(1) by (elim run_calls_ConsE) (auto simp: f store_call_def [of _ f])
  obtain mid where mid: "fills s1 = fills s @ mid" "r = Inr (fill_key f \<notin> fill_key ` set (fills s))"
      "list_all2 kept_fill (if fill_key f \<in> fill_key ` set (fills s) then [] else [f]) mid"
      "fill_key ` set (fills s1) = insert (fill_key f) (fill_key ` set (fills s))"
  proof (cases "fill_key f \<in> fill_key ` set (fills s)")
    case True
    with fill_known [OF this, of e] f that [of "[]"] show ?thesis by auto
  next
    case False
    then obtain g where "r = Inr True" "kept_fill f g" "fills s1 = fills s @ [g]"
      using fill_new [OF False, of e] f by auto
    with False that [of "[g]"] kept_fill_key [of f g] show ?thesis by simp
  qed
  obtain new where new: "fills s' = fills s1 @ new" "list_all2 kept_fill (first_fills (fill_key ` set (fills s1)) fs) new"
      "\<forall>i < length fs. rs' ! i = Inr (fill_key (fs ! i) \<notin> fill_key ` set (fills s1) \<union> fill_key ` set (take i fs))"
    using Cons.IH [OF run] by blast
  have "list_all2 kept_fill (first_fills (fill_key ` set (fills s)) (f # fs)) (mid @ new)"
    using mid(3,4) new(2) by (auto simp: insert_absorb list_all2_Cons1 split: if_splits)
  moreover have "rs ! i = Inr (fill_key ((f # fs) ! i) \<notin> fill_key ` set (fills s) \<union> fill_key ` set (take i (f # fs)))"
    if "i < length (f # fs)" for i
    using that mid(2,4) new(3) by (cases i) (auto simp: rs)
  ultimately show ?case using mid(1) new(1) by auto
qed

lemma record_orders_run:
  assumes "run_calls (store_call (RecordOrder ops)) xs (s, e) = ((s', e'), rs)"
  shows "case orders s c of
      Some y \<Rightarrow> orders s' c = Some y
    | None \<Rightarrow> (case find (\<lambda>x. so_ClientOrderID x = c) xs of
        None \<Rightarrow> orders s' c = None
      | Some x \<Rightarrow> \<exists>y. orders s' c = Some y \<and> same_order x y)"
  using assms
proof (induction xs arbitrary: s e rs)
  case Nil
  then show ?case by (simp split: option.splits)
next
  case (Cons x xs)
  obtain r s1 e1 where x: "RecordOrder ops x (s, e) = (r, s1, e1)" by (metis surj_pair)
  obtain rs' where run: "run_calls (store_call (RecordOrder ops)) xs (s1, e1) = ((s', e'), rs')"
    using Cons.prems by (elim run_calls_ConsE) (auto simp: x store_call_def [of _ x])
  note first = record_order_first_wins [OF x]
  from Cons.IH [OF run] first show ?case
    by (cases "orders s c"; cases "so_ClientOrderID x = c") (auto split: option.splits)
qed

lemma record_orders_answers:
  assumes "run_calls (store_call (RecordOrder ops)) xs (s, e) = ((s', e'), rs)"
    and "i < length xs"
  shows "rs ! i = Inr (orders s (so_ClientOrderID (xs ! i)) = None
                        \<and> so_ClientOrderID (xs ! i) \<notin> so_ClientOrderID ` set (take i xs))"
  using assms
proof (induction xs arbitrary: s e rs i)
  case Nil
  then show ?case by simp
next
  case (Cons x xs)
  obtain r s1 e1 where x: "RecordOrder ops x (s, e) = (r, s1, e1)" by (metis surj_pair)
  obtain rs' where run: "run_calls (store_call (RecordOrder ops)) xs (s1, e1) = ((s', e'), rs')"
      and rs: "rs = r # rs'"
    using Cons.prems(1) by (elim run_calls_ConsE) (auto simp: x store_call_def [of _ x])
  note first = record_order_first_wins [OF x]
  show ?case
  proof (cases i)
    case 0
    have "r = Inr (orders s (so_ClientOrderID x) = None)"
    proof (cases "orders s (so_ClientOrderID x) = None")
      case True
      then show ?thesis using first by simp
    next
      case False
      then show ?thesis using record_known [OF False, of e] x by simp
    qed
    with 0 show ?thesis by (simp add: rs)
  next
    case (Suc k)
    have "orders s1 (so_ClientOrderID (xs ! k)) = None \<longleftrightarrow>
        orders s (so_ClientOrderID (xs ! k)) = None \<and> so_ClientOrderID (xs ! k) \<noteq> so_ClientOrderID x"
      using first by (cases "orders s (so_ClientOrderID (xs ! k))") auto
    with Cons.IH [OF run, of k] Cons.prems(2) Suc show ?thesis by (auto simp: rs)
  qed
qed

end

section \<open>The in-memory store keeps the contract\<close>

lemma fill_recorded_iff: "fill_recorded f fs \<longleftrightarrow> fill_key f \<in> fill_key ` set fs"
  by (induction fs) (auto simp: fill_key_def)

lemma fills_for_order_filter: "fills_for_order v fs = filter (\<lambda>f. sf_VenueOrderID f = v) fs"
  by (induction fs) auto

interpretation mem: order_store MemStore_ops ms_orders ms_fills
proof unfold_locales
  fix s :: "'d MemStore" and x :: "'d store_Order" and e
  assume "ms_orders s (so_ClientOrderID x) = None"
  then show "\<exists>y s' e'. RecordOrder MemStore_ops x (s, e) = (Inr True, s', e') \<and> same_order x y
      \<and> ms_orders s' = (ms_orders s)(so_ClientOrderID x \<mapsto> y) \<and> ms_fills s' = ms_fills s"
    by (intro exI [of _ "if time_IsZero (so_CreatedAt x)
          then x\<lparr>so_CreatedAt := env_clock e (env_ticks e), so_UpdatedAt := env_clock e (Suc (env_ticks e))\<rparr>
          else x\<lparr>so_UpdatedAt := env_clock e (env_ticks e)\<rparr>"])
      (auto simp: MemStore_ops_def MemStore_RecordOrder_def same_order_def Let_def time_Now_def)
next
  fix s :: "'d MemStore" and f :: "'d store_Fill" and e
  assume "fill_key f \<notin> fill_key ` set (ms_fills s)"
  then show "\<exists>g s' e'. RecordFill MemStore_ops f (s, e) = (Inr True, s', e') \<and> kept_fill f g
      \<and> ms_fills s' = ms_fills s @ [g] \<and> ms_orders s' = ms_orders s"
    by (auto simp: MemStore_ops_def MemStore_RecordFill_def kept_fill_def same_fill_def time_IsZero_def Let_def
        time_Now_def fill_recorded_iff)
qed (auto simp: MemStore_ops_def MemStore_GetOrderByClientID_def MemStore_RecordOrder_def
      MemStore_RecordFill_def MemStore_FillsForOrder_def fill_recorded_iff fills_for_order_filter)

section \<open>Properties\<close>

text \<open>
  C11. Orders are recorded at most once. For any sequence of \<open>RecordOrder\<close> calls on a new
  in-memory store, a call answers true exactly when no earlier call had its client order id,
  and \<open>GetOrderByClientID\<close> afterwards returns the first order recorded under an id, with only
  its two timestamps filled in, and nothing for an id that was never recorded.
\<close>

theorem MemStore_orders_recorded_once:
  assumes "run_calls (store_call MemStore_RecordOrder) xs (MemStore_New, e) = ((s', e'), rs)"
  shows "(\<forall>i < length xs. rs ! i = Inr (so_ClientOrderID (xs ! i) \<notin> so_ClientOrderID ` set (take i xs)))
    \<and> (\<forall>c. case find (\<lambda>x. so_ClientOrderID x = c) xs of
        None \<Rightarrow> MemStore_GetOrderByClientID c s' = None
      | Some x \<Rightarrow> \<exists>y. MemStore_GetOrderByClientID c s' = Some y \<and> same_order x y)"
proof -
  have run: "run_calls (store_call (RecordOrder MemStore_ops)) xs (MemStore_New, e) = ((s', e'), rs)"
    using assms by (simp add: MemStore_ops_def)
  have empty: "ms_orders MemStore_New c = None" for c by (simp add: MemStore_New_def)
  have get: "MemStore_GetOrderByClientID c s' = ms_orders s' c" for c
    by (simp add: MemStore_GetOrderByClientID_def)
  show ?thesis unfolding get
    using mem.record_orders_answers [OF run] mem.record_orders_run [OF run]
    by (intro conjI allI) (simp_all add: empty)
qed

theorem MemStore_orders_recorded_once_witness:
  defines "e \<equiv> fixed_env"
    and "x \<equiv> \<lparr>so_VenueOrderID = ''1'', so_ClientOrderID = ''c'', so_Venue = ''dummy'', so_Pair = ''BTCUSDT'',
      so_Side = ''buy'', so_OrderType = ''market'', so_Status = ''filled'', so_FilledQty = (1 :: nat),
      so_AvgPrice = 1, so_Quantity = 1, so_Price = 0, so_CreatedAt = 0, so_UpdatedAt = 0\<rparr>"
  shows "\<exists>s' e' rs. run_calls (store_call MemStore_RecordOrder) [x, x\<lparr>so_Pair := ''ETHUSDT''\<rparr>] (MemStore_New, e)
        = ((s', e'), rs) \<and> rs ! 1 = Inr False
      \<and> (\<exists>y. MemStore_GetOrderByClientID ''c'' s' = Some y \<and> same_order x y)"
proof -
  obtain s' e' rs where run: "run_calls (store_call MemStore_RecordOrder)
      [x, x\<lparr>so_Pair := ''ETHUSDT''\<rparr>] (MemStore_New, e) = ((s', e'), rs)" by (metis surj_pair)
  from MemStore_orders_recorded_once [OF run]
  have "rs ! 1 = Inr False \<and> (\<exists>y. MemStore_GetOrderByClientID ''c'' s' = Some y \<and> same_order x y)"
    by (auto simp: x_def dest!: spec [of _ "''c''"] spec [of _ 1])
  with run show ?thesis by blast
qed

text \<open>
  C30. Fills are recorded exactly once and in order. For any sequence of \<open>RecordFill\<close> calls on a
  new in-memory store, a call answers true exactly when no earlier call had its venue and trade
  id; the store then holds the first fill of every such key, in the order of the calls and as
  given, with only a missing timestamp filled in; and \<open>FillsForOrder\<close> returns those of the order,
  in the same order.
\<close>

theorem MemStore_fills_exactly_once:
  assumes "run_calls (store_call MemStore_RecordFill) fs (MemStore_New, e) = ((s', e'), rs)"
  shows "(\<forall>i < length fs. rs ! i = Inr (fill_key (fs ! i) \<notin> fill_key ` set (take i fs)))
    \<and> list_all2 kept_fill (first_fills {} fs) (ms_fills s')
    \<and> distinct (map fill_key (ms_fills s')) \<and> fill_key ` set (ms_fills s') = fill_key ` set fs
    \<and> (\<exists>out. MemStore_FillsForOrder v s' = Inr out
        \<and> list_all2 kept_fill (filter (\<lambda>f. sf_VenueOrderID f = v) (first_fills {} fs)) out)"
proof -
  have run: "run_calls (store_call (RecordFill MemStore_ops)) fs (MemStore_New, e) = ((s', e'), rs)"
    using assms by (simp add: MemStore_ops_def)
  have empty: "ms_fills MemStore_New = []" by (simp add: MemStore_New_def)
  note keys = mem.record_fills_run [OF run] and contents = mem.record_fills_contents [OF run]
  have "MemStore_FillsForOrder v s' = Inr (filter (\<lambda>f. sf_VenueOrderID f = v) (ms_fills s'))"
    by (simp add: MemStore_FillsForOrder_def fills_for_order_filter)
  with keys contents show ?thesis by (simp add: empty kept_fills_filter)
qed

theorem MemStore_fills_exactly_once_witness:
  defines "e \<equiv> fixed_env"
    and "f \<equiv> \<lparr>sf_VenueOrderID = ''1'', sf_TradeID = ''t'', sf_Venue = ''dummy'', sf_Pair = ''BTCUSDT'',
      sf_Price = (1 :: nat), sf_Quantity = 1, sf_Fee = 0, sf_FeeAsset = ''USDT'', sf_Timestamp = 7\<rparr>"
  shows "\<exists>s' e' rs. run_calls (store_call MemStore_RecordFill)
        [f, f\<lparr>sf_Price := 2\<rparr>, f\<lparr>sf_TradeID := ''u''\<rparr>] (MemStore_New, e) = ((s', e'), rs)
      \<and> rs ! 1 = Inr False \<and> ms_fills s' = [f, f\<lparr>sf_TradeID := ''u''\<rparr>]
      \<and> MemStore_FillsForOrder ''1'' s' = Inr [f, f\<lparr>sf_TradeID := ''u''\<rparr>]"
proof -
  let ?fs = "[f, f\<lparr>sf_Price := 2\<rparr>, f\<lparr>sf_TradeID := ''u''\<rparr>]"
  obtain s' e' rs where run: "run_calls (store_call MemStore_RecordFill) ?fs (MemStore_New, e) = ((s', e'), rs)"
    by (metis surj_pair)
  have "first_fills {} ?fs = [f, f\<lparr>sf_TradeID := ''u''\<rparr>]" by (simp add: f_def fill_key_def)
  with MemStore_fills_exactly_once [OF run, of "''1''"]
  have "rs ! 1 = Inr False \<and> ms_fills s' = [f, f\<lparr>sf_TradeID := ''u''\<rparr>]
      \<and> MemStore_FillsForOrder ''1'' s' = Inr [f, f\<lparr>sf_TradeID := ''u''\<rparr>]"
    by (auto simp: list_all2_Cons1 kept_fill_def f_def fill_key_def dest!: spec [of _ 1])
  with run show ?thesis by blast
qed

end
