(* ===== verification/GoJson.thy ===== *)
theory GoJson
  imports GoFloat
begin

text \<open>
  What the program uses of \<open>encoding/json\<close>, on byte strings: the scanner that accepts one JSON
  value (with the nesting limit of 10000), the unquoting of string literals, the decoding of a
  value into Go data with the rules of \<open>Unmarshal\<close> (a mismatch leaves the target as it is, is
  remembered as an error and the decoding goes on; \<open>null\<close> leaves a scalar alone; a struct field
  matches a key up to case; the last of several keys wins) and the quoting of strings as
  \<open>Marshal\<close> does it. The text of a decoding error is not modelled, only that there is one.
\<close>

section \<open>UTF-8\<close>

abbreviation byte :: "char \<Rightarrow> nat" where
  "byte c \<equiv> of_char c"

definition cont :: "char \<Rightarrow> bool" where
  "cont c \<longleftrightarrow> 128 \<le> byte c \<and> byte c \<le> 191"

text \<open>The length of the well-formed sequence at the head of a string, 0 when there is none.\<close>

fun rune_len :: "string \<Rightarrow> nat" where
  "rune_len [] = 0"
| "rune_len (a # s) =
     (let n = byte a in
      if n < 128 then 1
      else if 194 \<le> n \<and> n \<le> 223 then (case s of b # _ \<Rightarrow> if cont b then 2 else 0 | _ \<Rightarrow> 0)
      else if 224 \<le> n \<and> n \<le> 239 then
        (case s of b # c # _ \<Rightarrow>
           if cont b \<and> cont c \<and> (n = 224 \<longrightarrow> 160 \<le> byte b) \<and> (n = 237 \<longrightarrow> byte b \<le> 159) then 3 else 0
         | _ \<Rightarrow> 0)
      else if 240 \<le> n \<and> n \<le> 244 then
        (case s of b # c # d # _ \<Rightarrow>
           if cont b \<and> cont c \<and> cont d \<and> (n = 240 \<longrightarrow> 144 \<le> byte b) \<and> (n = 244 \<longrightarrow> byte b \<le> 143)
           then 4 else 0
         | _ \<Rightarrow> 0)
      else 0)"

text \<open>The UTF-8 encoding of a code point; surrogates and values above the range become U+FFFD.\<close>

definition encode_rune :: "nat \<Rightarrow> string" where
  "encode_rune r =
     (if r < 128 then [char_of r]
      else if r < 2048 then [char_of (192 + r div 64), char_of (128 + r mod 64)]
      else if 55296 \<le> r \<and> r \<le> 57343 \<or> r > 1114111 then [char_of (239 :: nat), char_of (191 :: nat), char_of (189 :: nat)]
      else if r < 65536 then
        [char_of (224 + r div 4096), char_of (128 + r div 64 mod 64), char_of (128 + r mod 64)]
      else [char_of (240 + r div 262144), char_of (128 + r div 4096 mod 64),
            char_of (128 + r div 64 mod 64), char_of (128 + r mod 64)])"

definition replacement :: string where
  "replacement = [char_of (239 :: nat), char_of (191 :: nat), char_of (189 :: nat)]"

section \<open>Values and the scanner\<close>

text \<open>Numbers and strings keep their source text; a string's is what stands between the quotes.\<close>

datatype json =
    JNull
  | JBool bool
  | JNum string
  | JStr string
  | JArr "json list"
  | JObj "(string \<times> json) list"

definition is_space :: "char \<Rightarrow> bool" where
  "is_space c \<longleftrightarrow> c = CHR '' '' \<or> byte c = 9 \<or> byte c = 10 \<or> byte c = 13"

definition is_digit :: "char \<Rightarrow> bool" where
  "is_digit c \<longleftrightarrow> 48 \<le> byte c \<and> byte c \<le> 57"

definition hex_digit :: "char \<Rightarrow> nat option" where
  "hex_digit c =
     (let n = byte c in
      if 48 \<le> n \<and> n \<le> 57 then Some (n - 48)
      else if 97 \<le> n \<and> n \<le> 102 then Some (n - 87)
      else if 65 \<le> n \<and> n \<le> 70 then Some (n - 55)
      else None)"

fun skip_space :: "string \<Rightarrow> string" where
  "skip_space [] = []"
| "skip_space (c # s) = (if is_space c then skip_space s else c # s)"

definition is_hex :: "char \<Rightarrow> bool" where
  "is_hex c \<longleftrightarrow> hex_digit c \<noteq> None"

text \<open>After an opening quote: the raw text up to the closing quote, and the rest.\<close>

fun scan_string :: "string \<Rightarrow> (string \<times> string) option" where
  "scan_string [] = None"
| "scan_string (c # s) =
     (if c = CHR 0x22 then Some ([], s)
      else if c = CHR 0x5C then
        (case s of
           [] \<Rightarrow> None
         | x # t \<Rightarrow>
             if x = CHR ''u'' then
               (case t of
                  a # b # d # e # t' \<Rightarrow>
                    if is_hex a \<and> is_hex b \<and> is_hex d \<and> is_hex e
                    then map_option (\<lambda>(r, u). (c # x # a # b # d # e # r, u)) (scan_string t') else None
                | _ \<Rightarrow> None)
             else if x \<in> set [CHR 0x22, CHR 0x5C, CHR ''/'', CHR ''b'', CHR ''f'', CHR ''n'', CHR ''r'', CHR ''t'']
             then map_option (\<lambda>(r, u). (c # x # r, u)) (scan_string t) else None)
      else if byte c < 32 then None
      else map_option (\<lambda>(r, t'). (c # r, t')) (scan_string s))"

fun take_digits :: "string \<Rightarrow> string \<times> string" where
  "take_digits [] = ([], [])"
| "take_digits (c # s) =
     (if is_digit c then (let (ds, r) = take_digits s in (c # ds, r)) else ([], c # s))"

text \<open>The parts of a number: sign, integer part without leading zeros, fraction, exponent.\<close>

definition scan_int_part :: "string \<Rightarrow> (string \<times> string) option" where
  "scan_int_part s =
     (case s of
        [] \<Rightarrow> None
      | c # t \<Rightarrow> if c = CHR ''0'' then Some ([c], t)
                else if is_digit c then Some (take_digits s) else None)"

definition scan_fraction :: "string \<Rightarrow> (string \<times> string) option" where
  "scan_fraction s =
     (case s of
        CHR ''.'' # t \<Rightarrow> (let (ds, r) = take_digits t in if ds = [] then None else Some (CHR ''.'' # ds, r))
      | _ \<Rightarrow> Some ([], s))"

definition scan_exponent :: "string \<Rightarrow> (string \<times> string) option" where
  "scan_exponent s =
     (case s of
        e # t \<Rightarrow>
          if e = CHR ''e'' \<or> e = CHR ''E'' then
            (let (sg, u) = (case t of x # t' \<Rightarrow> if x = CHR ''+'' \<or> x = CHR ''-'' then ([x], t') else ([], t)
                            | [] \<Rightarrow> ([], []));
                 (ds, r) = take_digits u
             in if ds = [] then None else Some (e # sg @ ds, r))
          else Some ([], s)
      | [] \<Rightarrow> Some ([], []))"

definition scan_number :: "string \<Rightarrow> (string \<times> string) option" where
  "scan_number s =
     (let (sg, s0) = (case s of x # t \<Rightarrow> if x = CHR ''-'' then ([x], t) else ([], s) | [] \<Rightarrow> ([], [])) in
      case scan_int_part s0 of None \<Rightarrow> None
      | Some (i, s1) \<Rightarrow> (case scan_fraction s1 of None \<Rightarrow> None
        | Some (f, s2) \<Rightarrow> (case scan_exponent s2 of None \<Rightarrow> None
          | Some (x, s3) \<Rightarrow> Some (sg @ i @ f @ x, s3))))"

definition scan_word :: "string \<Rightarrow> json \<Rightarrow> string \<Rightarrow> (json \<times> string) option" where
  "scan_word w v s = (if HasPrefix s w then Some (v, drop (length w) s) else None)"

text \<open>
  The scanner. The first argument bounds the recursion: a value is followed by at most one call
  for the rest of its array or object after each consumed byte, so twice the length of the input
  plus one is enough (\<open>parse_enough\<close>). The second is the nesting depth.
\<close>

fun parse_value :: "nat \<Rightarrow> nat \<Rightarrow> string \<Rightarrow> (json \<times> string) option"
and parse_elems :: "nat \<Rightarrow> nat \<Rightarrow> string \<Rightarrow> (json list \<times> string) option"
and parse_members :: "nat \<Rightarrow> nat \<Rightarrow> string \<Rightarrow> ((string \<times> json) list \<times> string) option" where
  "parse_value 0 d s = None"
| "parse_value (Suc k) d s =
     (case skip_space s of
        [] \<Rightarrow> None
      | c # t \<Rightarrow>
          if c = CHR ''{'' then
            (if d \<ge> 10000 then None else
             case skip_space t of
               [] \<Rightarrow> None
             | x # t' \<Rightarrow> if x = CHR ''}'' then Some (JObj [], t')
                         else map_option (\<lambda>(ms, r). (JObj ms, r)) (parse_members k (Suc d) t))
          else if c = CHR ''['' then
            (if d \<ge> 10000 then None else
             case skip_space t of
               [] \<Rightarrow> None
             | x # t' \<Rightarrow> if x = CHR '']'' then Some (JArr [], t')
                         else map_option (\<lambda>(vs, r). (JArr vs, r)) (parse_elems k (Suc d) t))
          else if c = CHR 0x22 then map_option (\<lambda>(x, r). (JStr x, r)) (scan_string t)
          else if c = CHR ''t'' then scan_word ''true'' (JBool True) (c # t)
          else if c = CHR ''f'' then scan_word ''false'' (JBool False) (c # t)
          else if c = CHR ''n'' then scan_word ''null'' JNull (c # t)
          else map_option (\<lambda>(x, r). (JNum x, r)) (scan_number (c # t)))"
| "parse_elems 0 d s = None"
| "parse_elems (Suc k) d s =
     (case parse_value k d s of None \<Rightarrow> None
      | Some (v, r) \<Rightarrow>
          (case skip_space r of
             [] \<Rightarrow> None
           | c # t \<Rightarrow> if c = CHR '']'' then Some ([v], t)
                     else if c = CHR '','' then map_option (\<lambda>(vs, r'). (v # vs, r')) (parse_elems k d t)
                     else None))"
| "parse_members 0 d s = None"
| "parse_members (Suc k) d s =
     (case skip_space s of
        [] \<Rightarrow> None
      | q # t \<Rightarrow>
          if q \<noteq> CHR 0x22 then None else
          (case scan_string t of None \<Rightarrow> None
           | Some (key, r) \<Rightarrow>
               (case skip_space r of
                  [] \<Rightarrow> None
                | c # t' \<Rightarrow>
                    if c \<noteq> CHR '':'' then None else
                    (case parse_value k d t' of None \<Rightarrow> None
                     | Some (v, r') \<Rightarrow>
                         (case skip_space r' of
                            [] \<Rightarrow> None
                          | e # u \<Rightarrow> if e = CHR ''}'' then Some ([(key, v)], u)
                                    else if e = CHR '','' then
                                      map_option (\<lambda>(ms, w). ((key, v) # ms, w)) (parse_members k d u)
                                    else None)))))"

text \<open>\<open>Unmarshal\<close> wants one value and nothing after it; \<open>Decoder.Decode\<close> takes the first value.\<close>

definition json_decode_first :: "string \<Rightarrow> json option" where
  "json_decode_first s = map_option fst (parse_value (2 * length s + 1) 0 s)"

definition json_parse :: "string \<Rightarrow> json option" where
  "json_parse s =
     (case parse_value (2 * length s + 1) 0 s of
        None \<Rightarrow> None
      | Some (v, r) \<Rightarrow> if skip_space r = [] then Some v else None)"

section \<open>Unquoting\<close>

definition hex4 :: "char \<Rightarrow> char \<Rightarrow> char \<Rightarrow> char \<Rightarrow> nat" where
  "hex4 a b c d =
     ((the (hex_digit a) * 16 + the (hex_digit b)) * 16 + the (hex_digit c)) * 16 + the (hex_digit d)"

definition unescape :: "char \<Rightarrow> char" where
  "unescape c =
     (if c = CHR ''b'' then char_of (8 :: nat) else if c = CHR ''f'' then char_of (12 :: nat)
      else if c = CHR ''n'' then char_of (10 :: nat) else if c = CHR ''r'' then char_of (13 :: nat)
      else if c = CHR ''t'' then char_of (9 :: nat) else c)"

text \<open>
  A surrogate pair is one code point, a lone surrogate and an ill-formed byte become U+FFFD.
  The first argument bounds the recursion; the length of the literal is enough.
\<close>

fun unquote :: "nat \<Rightarrow> string \<Rightarrow> string" where
  "unquote 0 s = []"
| "unquote (Suc k) [] = []"
| "unquote (Suc k) (c # s) =
     (if c = CHR 0x5C then
        (case s of
           CHR ''u'' # h1 # h2 # h3 # h4 # t \<Rightarrow>
             (let r = hex4 h1 h2 h3 h4 in
              if 55296 \<le> r \<and> r \<le> 56319 then
                (case t of
                   x # y # g1 # g2 # g3 # g4 # t' \<Rightarrow>
                     (if x = CHR 0x5C \<and> y = CHR ''u'' \<and> is_hex g1 \<and> is_hex g2 \<and> is_hex g3 \<and> is_hex g4
                        \<and> 56320 \<le> hex4 g1 g2 g3 g4 \<and> hex4 g1 g2 g3 g4 \<le> 57343
                      then encode_rune ((r - 55296) * 1024 + (hex4 g1 g2 g3 g4 - 56320) + 65536) @ unquote k t'
                      else replacement @ unquote k t)
                 | _ \<Rightarrow> replacement @ unquote k t)
              else encode_rune r @ unquote k t)
         | x # t \<Rightarrow> unescape x # unquote k t
         | [] \<Rightarrow> [])
      else
        (let n = rune_len (c # s) in
         if n = 0 then replacement @ unquote k s else take n (c # s) @ unquote k (drop n (c # s))))"

definition json_unquote :: "string \<Rightarrow> string" where
  "json_unquote s = unquote (length s) s"

section \<open>Decoding into Go data\<close>

text \<open>A decoder takes the value and the target's old content; it returns the new content and whether there was an error.\<close>

type_synonym 'a decoder = "json \<Rightarrow> 'a \<Rightarrow> 'a \<times> bool"

fun dec_string :: "string decoder" where
  "dec_string (JStr raw) old = (json_unquote raw, False)"
| "dec_string JNull old = (old, False)"
| "dec_string _ old = (old, True)"

fun digits_int :: "string \<Rightarrow> int \<Rightarrow> int option" where
  "digits_int [] acc = Some acc"
| "digits_int (c # s) acc =
     (if is_digit c then digits_int s (10 * acc + int (byte c - 48)) else None)"

text \<open>\<open>strconv.ParseInt\<close> in base 10 with 64 bits; underscores are refused in an explicit base.\<close>

definition ParseInt :: "string \<Rightarrow> int option" where
  "ParseInt s =
     (let (neg, ds) = (case s of c # t \<Rightarrow> if c = CHR ''-'' then (True, t)
                          else if c = CHR ''+'' then (False, t) else (False, s) | [] \<Rightarrow> (False, []))
      in if ds = [] then None
         else case digits_int ds 0 of None \<Rightarrow> None
              | Some n \<Rightarrow> let i = (if neg then - n else n) in if in64 i then Some i else None)"

fun dec_int64 :: "int decoder" where
  "dec_int64 (JNum raw) old = (case ParseInt raw of Some i \<Rightarrow> (i, False) | None \<Rightarrow> (old, True))"
| "dec_int64 JNull old = (old, False)"
| "dec_int64 _ old = (old, True)"

text \<open>The elements of a slice are decoded over what the slice held at their index.\<close>

fun dec_elems :: "'a decoder \<Rightarrow> 'a \<Rightarrow> json list \<Rightarrow> 'a list \<Rightarrow> 'a list \<times> bool" where
  "dec_elems d zero [] old = ([], False)"
| "dec_elems d zero (v # vs) old =
     (let (x, e1) = d v (case old of [] \<Rightarrow> zero | o' # _ \<Rightarrow> o');
          (xs, e2) = dec_elems d zero vs (tl old)
      in (x # xs, e1 \<or> e2))"

fun dec_slice :: "'a decoder \<Rightarrow> 'a \<Rightarrow> 'a list decoder" where
  "dec_slice d zero (JArr vs) old = dec_elems d zero vs old"
| "dec_slice d zero JNull old = ([], False)"
| "dec_slice d zero _ old = (old, True)"

text \<open>\<open>[2]string\<close>: missing elements become empty, further ones are dropped.\<close>

fun dec_pair :: "(string \<times> string) decoder" where
  "dec_pair (JArr []) old = (([], []), False)"
| "dec_pair (JArr [v]) (a, b) = (let (x, e) = dec_string v a in ((x, []), e))"
| "dec_pair (JArr (v # w # vs)) (a, b) =
     (let (x, e1) = dec_string v a; (y, e2) = dec_string w b in ((x, y), e1 \<or> e2))"
| "dec_pair JNull old = (old, False)"
| "dec_pair _ old = (old, True)"

text \<open>
  Keys match a field's name exactly or up to case folding, by which the Kelvin sign and the
  long s also stand for k and s.
\<close>

fun fold_name :: "string \<Rightarrow> string" where
  "fold_name [] = []"
| "fold_name (a # b # c # s) =
     (if byte a = 226 \<and> byte b = 132 \<and> byte c = 170 then CHR ''K'' # fold_name s
      else if byte a = 197 \<and> byte b = 191 then CHR ''S'' # fold_name (c # s)
      else char_upper a # fold_name (b # c # s))"
| "fold_name (a # b # s) =
     (if byte a = 197 \<and> byte b = 191 then CHR ''S'' # fold_name s else char_upper a # fold_name (b # s))"
| "fold_name (a # s) = char_upper a # fold_name s"

definition field_matches :: "string \<Rightarrow> string \<Rightarrow> bool" where
  "field_matches name raw_key \<longleftrightarrow>
     json_unquote raw_key = name \<or> fold_name (json_unquote raw_key) = fold_name name"

text \<open>
  A struct is decoded member by member; \<open>dec_member\<close> says what a member does to the struct
  (nothing, when its key is no field).
\<close>

fun dec_members :: "(string \<Rightarrow> json \<Rightarrow> 'a \<Rightarrow> 'a \<times> bool) \<Rightarrow> (string \<times> json) list \<Rightarrow> 'a \<Rightarrow> 'a \<times> bool" where
  "dec_members f [] s = (s, False)"
| "dec_members f ((k, v) # ms) s =
     (let (s1, e1) = f k v s; (s2, e2) = dec_members f ms s1 in (s2, e1 \<or> e2))"

fun dec_struct :: "(string \<Rightarrow> json \<Rightarrow> 'a \<Rightarrow> 'a \<times> bool) \<Rightarrow> 'a decoder" where
  "dec_struct f (JObj ms) s = dec_members f ms s"
| "dec_struct f JNull s = (s, False)"
| "dec_struct f _ s = (s, True)"

text \<open>Decoding a member into a field given by its name, reader and writer.\<close>

definition into_field :: "'b decoder \<Rightarrow> ('a \<Rightarrow> 'b) \<Rightarrow> (('b \<Rightarrow> 'b) \<Rightarrow> 'a \<Rightarrow> 'a) \<Rightarrow> json \<Rightarrow> 'a \<Rightarrow> 'a \<times> bool" where
  "into_field d get upd v s = (let (x, e) = d v (get s) in (upd (\<lambda>_. x) s, e))"

text \<open>\<open>json.Unmarshal\<close>: a syntax error leaves the target alone.\<close>

definition json_Unmarshal :: "'a decoder \<Rightarrow> string \<Rightarrow> 'a \<Rightarrow> 'a \<times> bool" where
  "json_Unmarshal d s old = (case json_parse s of None \<Rightarrow> (old, True) | Some v \<Rightarrow> d v old)"

definition json_Decode :: "'a decoder \<Rightarrow> string \<Rightarrow> 'a \<Rightarrow> 'a \<times> bool" where
  "json_Decode d s old = (case json_decode_first s of None \<Rightarrow> (old, True) | Some v \<Rightarrow> d v old)"

section \<open>Quoting\<close>

definition hex_char :: "nat \<Rightarrow> char" where
  "hex_char n = (if n < 10 then char_of (48 + n) else char_of (87 + n))"

definition quote_char :: "char \<Rightarrow> string" where
  "quote_char c =
     (let n = byte c in
      if c = CHR 0x22 \<or> c = CHR 0x5C then [CHR 0x5C, c]
      else if n = 8 then [CHR 0x5C, CHR ''b''] else if n = 12 then [CHR 0x5C, CHR ''f'']
      else if n = 10 then [CHR 0x5C, CHR ''n''] else if n = 13 then [CHR 0x5C, CHR ''r'']
      else if n = 9 then [CHR 0x5C, CHR ''t'']
      else if n < 32 \<or> c = CHR ''<'' \<or> c = CHR ''>'' \<or> c = CHR ''&'' then
        [CHR 0x5C, CHR ''u'', CHR ''0'', CHR ''0'', hex_char (n div 16), hex_char (n mod 16)]
      else [c])"

fun quote_body :: "nat \<Rightarrow> string \<Rightarrow> string" where
  "quote_body 0 s = []"
| "quote_body (Suc k) [] = []"
| "quote_body (Suc k) (c # s) =
     (if byte c < 128 then quote_char c @ quote_body k s
      else let n = rune_len (c # s) in
        if n = 0 then [CHR 0x5C] @ ''ufffd'' @ quote_body k s
        else if n = 3 \<and> byte c = 226 \<and> byte (s ! 0) = 128 \<and> (byte (s ! 1) = 168 \<or> byte (s ! 1) = 169)
        then [CHR 0x5C] @ ''u202'' @ [hex_char (byte (s ! 1) mod 16)] @ quote_body k (drop n (c # s))
        else take n (c # s) @ quote_body k (drop n (c # s)))"

definition json_quote :: "string \<Rightarrow> string" where
  "json_quote s = [CHR 0x22] @ quote_body (length s) s @ [CHR 0x22]"

text \<open>An object from its members' texts, in order.\<close>

definition json_object :: "(string \<times> string) list \<Rightarrow> string" where
  "json_object ms = ''{'' @ Join (map (\<lambda>(k, v). json_quote k @ '':'' @ v) ms) '','' @ ''}''"

section \<open>Reading back what was written\<close>

abbreviation ascii :: "string \<Rightarrow> bool" where
  "ascii \<equiv> list_all (\<lambda>c. byte c < 128)"

lemma hex_char_digit: "n < 16 \<Longrightarrow> hex_digit (hex_char n) = Some n"
  by (auto simp: hex_digit_def hex_char_def Let_def of_char_of)

lemma hex_zero: "hex_digit (CHR ''0'') = Some 0"
  by (simp add: hex_digit_def)

lemma quote_char_nonempty [simp]: "quote_char c \<noteq> []"
  by (simp add: quote_char_def Let_def)

lemma quote_body_ascii: "ascii s \<Longrightarrow> length s \<le> k \<Longrightarrow> quote_body k s = concat (map quote_char s)"
proof (induction s arbitrary: k)
  case Nil
  then show ?case by (cases k) simp_all
next
  case (Cons c s)
  then show ?case by (cases k) simp_all
qed

lemma scan_quote_char:
  assumes "byte c < 128"
  shows "scan_string (quote_char c @ s) = map_option (\<lambda>(r, t). (quote_char c @ r, t)) (scan_string s)"
proof -
  have h: "is_hex (hex_char (byte c div 16))" "is_hex (hex_char (byte c mod 16))" "is_hex (CHR ''0'')"
    using assms by (simp_all add: is_hex_def hex_char_digit hex_zero less_mult_imp_div_less)
  show ?thesis using h unfolding quote_char_def Let_def
    by (simp add: map_option.compositionality comp_def split_beta)
qed

lemma scan_quoted: "ascii s \<Longrightarrow> scan_string (concat (map quote_char s) @ CHR 0x22 # t) = Some (concat (map quote_char s), t)"
proof (induction s)
  case Nil
  then show ?case by simp
next
  case (Cons c s)
  then show ?case by (simp add: scan_quote_char)
qed

lemma unquote_quote_char:
  assumes "byte c < 128"
  shows "unquote (Suc k) (quote_char c @ s) = c # unquote k s"
proof -
  consider (esc) "c = CHR 0x22 \<or> c = CHR 0x5C" | (b) "byte c = 8" | (f) "byte c = 12" | (n) "byte c = 10"
    | (r) "byte c = 13" | (t) "byte c = 9"
    | (u) "c \<noteq> CHR 0x22" "c \<noteq> CHR 0x5C" "byte c \<notin> {8, 9, 10, 12, 13}"
          "byte c < 32 \<or> c = CHR ''<'' \<or> c = CHR ''>'' \<or> c = CHR ''&''"
    | (plain) "c \<noteq> CHR 0x22" "c \<noteq> CHR 0x5C" "\<not> byte c < 32" "c \<noteq> CHR ''<''" "c \<noteq> CHR ''>''" "c \<noteq> CHR ''&''"
    by auto
  then show ?thesis
  proof cases
    case u
    have q: "quote_char c = [CHR 0x5C, CHR ''u'', CHR ''0'', CHR ''0'', hex_char (byte c div 16), hex_char (byte c mod 16)]"
      using u by (simp add: quote_char_def Let_def)
    have h: "hex4 (CHR ''0'') (CHR ''0'') (hex_char (byte c div 16)) (hex_char (byte c mod 16)) = byte c"
      using assms by (simp add: hex4_def hex_zero hex_char_digit less_mult_imp_div_less)
    show ?thesis using assms by (simp add: q h Let_def encode_rune_def)
  next
    case plain
    then have "quote_char c = [c]" by (auto simp: quote_char_def Let_def)
    with plain assms show ?thesis by (simp add: Let_def)
  next
    case esc
    then show ?thesis by (auto simp: quote_char_def unescape_def)
  qed (auto simp: quote_char_def unescape_def Let_def dest: arg_cong [of _ _ char_of])
qed

lemma unquote_quoted: "ascii s \<Longrightarrow> length s \<le> k \<Longrightarrow> unquote k (concat (map quote_char s)) = s"
proof (induction s arbitrary: k)
  case Nil
  then show ?case by (cases k) simp_all
next
  case (Cons c s)
  then obtain k' where "k = Suc k'" by (cases k) auto
  with Cons show ?case by (simp add: unquote_quote_char)
qed

lemma length_quoted: "length s \<le> length (concat (map quote_char s))"
proof (induction s)
  case (Cons c s)
  then show ?case by (cases "quote_char c") auto
qed simp

lemma json_unquote_quoted: "ascii s \<Longrightarrow> json_unquote (concat (map quote_char s)) = s"
  unfolding json_unquote_def by (rule unquote_quoted [OF _ length_quoted])

lemma parse_quoted:
  "ascii s \<Longrightarrow> parse_value (Suc k) d (json_quote s @ t) = Some (JStr (concat (map quote_char s)), t)"
  by (simp add: json_quote_def quote_body_ascii scan_quoted is_space_def)

section \<open>The bound on the recursion is enough\<close>

lemma length_skip_space: "length (skip_space s) \<le> length s"
  by (induction s) auto

lemma length_skip_space_Cons: "skip_space s = c # t \<Longrightarrow> length t < length s"
  using length_skip_space [of s] by simp

lemma scan_string_step:
  assumes "scan_string (c # s) = Some (x, r)"
    and "\<And>t a. length t \<le> length s \<Longrightarrow> scan_string t = Some (a, r) \<Longrightarrow> P" "r = s \<Longrightarrow> P"
  shows P
proof -
  have *: "map_option f y = Some (x, r) \<Longrightarrow> (\<And>a. snd (f a) = snd a) \<Longrightarrow> \<exists>a. y = Some (a, r)"
    for f :: "string \<times> string \<Rightarrow> string \<times> string" and y
    by (cases y) (simp, metis option.map(2) option.sel prod.collapse snd_conv)
  consider "c = CHR 0x22" | "c = CHR 0x5C" | "c \<noteq> CHR 0x22" "c \<noteq> CHR 0x5C" by blast
  then show P
  proof cases
    case 1
    then show P using assms(1,3) by simp
  next
    case 2
    show P
    proof (cases s)
      case Nil
      then show P using 2 assms(1) by simp
    next
      case (Cons y t)
      show P
      proof (cases "y = CHR ''u''")
        case True
        with 2 Cons assms(1) obtain p q m n t' where t: "t = p # q # m # n # t'"
          by (auto split: list.splits)
        with 2 Cons True assms(1) have "\<exists>a. scan_string t' = Some (a, r)"
          by (intro * [of "\<lambda>(z, u). (c # y # p # q # m # n # z, u)"]) (auto split: if_splits)
        with assms(2) [of t'] Cons t show P by auto
      next
        case False
        with 2 Cons assms(1) have "\<exists>a. scan_string t = Some (a, r)"
          by (intro * [of "\<lambda>(z, u). (c # y # z, u)"]) (auto split: if_splits)
        with assms(2) [of t] Cons show P by auto
      qed
    qed
  next
    case 3
    with assms(1) have "\<exists>a. scan_string s = Some (a, r)"
      by (intro * [of "\<lambda>(z, u). (c # z, u)"]) (auto split: if_splits)
    with assms(2) show P by auto
  qed
qed

lemma length_scan_string: "scan_string s = Some (x, r) \<Longrightarrow> length r < length s"
proof (induction s arbitrary: x r rule: length_induct)
  case (1 s)
  show ?case
  proof (cases s)
    case Nil
    with 1 show ?thesis by simp
  next
    case (Cons c t)
    have IH: "length u < length s \<Longrightarrow> scan_string u = Some (a, r) \<Longrightarrow> length r < length u" for u a
      using 1(1) by blast
    from 1(2) [unfolded Cons] show ?thesis
    proof (rule scan_string_step)
      fix u a assume "length u \<le> length t" "scan_string u = Some (a, r)"
      with IH [of u a] Cons show ?thesis by simp
    qed (simp add: Cons)
  qed
qed

lemma length_take_digits: "take_digits s = (ds, r) \<Longrightarrow> length r \<le> length s"
  by (induction s arbitrary: ds r) (auto split: if_splits prod.splits)

lemma length_scan_number: "scan_number s = Some (x, r) \<Longrightarrow> length r \<le> length s"
proof -
  have i: "length r \<le> length s" if "scan_int_part s = Some (x, r)" for s x r
    using that length_take_digits [of s] by (auto simp: scan_int_part_def split: list.splits if_splits)
  have f: "length r \<le> length s" if "scan_fraction s = Some (x, r)" for s x r
    using that by (auto simp: scan_fraction_def split: list.splits char.splits bool.splits if_splits prod.splits dest: length_take_digits)
  have e: "length r \<le> length s" if "scan_exponent s = Some (x, r)" for s x r
    using that by (auto simp: scan_exponent_def split: list.splits if_splits prod.splits dest: length_take_digits)
  show "scan_number s = Some (x, r) \<Longrightarrow> length r \<le> length s"
    by (force simp: scan_number_def split: list.splits option.splits if_splits prod.splits dest: i f e)
qed

lemma length_parse:
  "parse_value k d s = Some (v, r) \<Longrightarrow> length r \<le> length s"
  "parse_elems k d s = Some (vs, r) \<Longrightarrow> length r \<le> length s"
  "parse_members k d s = Some (ms, r) \<Longrightarrow> length r \<le> length s"
proof (induction k d s and k d s and k d s arbitrary: v r and vs r and ms r
    rule: parse_value_parse_elems_parse_members.induct)
  case (2 k d s)
  from 2(3) obtain c t where ss: "skip_space s = c # t" by (auto split: list.splits)
  note t = length_skip_space_Cons [OF ss]
  have w: "scan_word x y (c # t) = Some (v, r) \<Longrightarrow> length r \<le> length s" for x y
    using t by (auto simp: scan_word_def split: if_splits)
  have n: "map_option (\<lambda>(x, r). (JNum x, r)) (scan_number (c # t)) = Some (v, r) \<Longrightarrow> length r \<le> length s"
    using t by (auto dest!: length_scan_number)
  have q: "map_option (\<lambda>(x, r). (JStr x, r)) (scan_string t) = Some (v, r) \<Longrightarrow> length r \<le> length s"
    using t by (auto dest!: length_scan_string)
  have sub: "skip_space t = x # t' \<Longrightarrow> length t' \<le> length s" for x t'
    using t length_skip_space_Cons [of t x t'] by simp
  show ?case
  proof (cases "c = CHR ''{'' \<or> c = CHR ''[''")
    case True
    have o1: "map_option (\<lambda>(ms, r). (JObj ms, r)) (parse_members k (Suc d) t) = Some (v, r) \<Longrightarrow> length r \<le> length s"
      if "c = CHR ''{''" "d < 10000" "skip_space t = x # t'" "x \<noteq> CHR ''}''" for x t'
      using that t 2(1) [OF ss] by fastforce
    have a1: "map_option (\<lambda>(vs, r). (JArr vs, r)) (parse_elems k (Suc d) t) = Some (v, r) \<Longrightarrow> length r \<le> length s"
      if "c = CHR ''[''" "d < 10000" "skip_space t = x # t'" "x \<noteq> CHR '']''" for x t'
      using that t 2(2) [OF ss] by fastforce
    from True 2(3) sub o1 a1 show ?thesis
      by (auto simp: ss not_le split: if_splits list.splits)
  next
    case False
    with 2(3) w n q show ?thesis by (auto simp: ss split: if_splits)
  qed
next
  case (4 k d s)
  from 4(3) obtain x r1 where p: "parse_value k d s = Some (x, r1)" by (auto split: option.splits)
  from 4(3) p obtain c t where ss: "skip_space r1 = c # t" by (auto split: list.splits)
  have t: "length t < length s" using length_skip_space_Cons [OF ss] 4(1) [OF p] by simp
  show ?case
  proof (cases "c = CHR '','' ")
    case True
    with 4(3) p ss obtain vs' where "parse_elems k d t = Some (vs', r)" by auto
    from 4(2) [OF p refl ss _ True this] True t show ?thesis by simp
  next
    case False
    with 4(3) p ss t show ?thesis by (auto split: if_splits)
  qed
next
  case (6 k d s)
  from 6(3) obtain t where ss: "skip_space s = CHR 0x22 # t" by (auto split: list.splits if_splits)
  from 6(3) ss obtain key r1 where sc: "scan_string t = Some (key, r1)" by (auto split: option.splits)
  from 6(3) ss sc obtain t' where s1: "skip_space r1 = CHR '':'' # t'" by (auto split: list.splits if_splits)
  from 6(3) ss sc s1 obtain x r2 where p: "parse_value k d t' = Some (x, r2)" by (auto split: option.splits)
  from 6(3) ss sc s1 p obtain c u where s2: "skip_space r2 = c # u" by (auto split: list.splits)
  have IH: "parse_value k d t' = Some (v, r) \<Longrightarrow> length r \<le> length t'" for v r
    using 6(1) [OF ss _ sc _ s1] by simp
  have u: "length u < length s"
    using length_skip_space_Cons [OF ss] length_scan_string [OF sc] length_skip_space_Cons [OF s1]
      IH [OF p] length_skip_space_Cons [OF s2] by simp
  show ?case
  proof (cases "c = CHR '','' ")
    case True
    with 6(3) ss sc s1 p s2 obtain ms' where m: "parse_members k d u = Some (ms', r)" by auto
    have "parse_members k d u = Some (ms', r) \<Longrightarrow> length r \<le> length u"
      using 6(2) [OF ss _ sc _ s1 _ p _ s2] True by simp
    with m u show ?thesis by simp
  next
    case False
    with 6(3) ss sc s1 p s2 u show ?thesis by (auto split: if_splits)
  qed
qed simp_all

text \<open>More fuel than the bound changes nothing: the scanner never stops for lack of it.\<close>

lemma parse_enough_step:
  assumes "\<And>j d s. 2 * length s + 1 \<le> k \<Longrightarrow> k \<le> j \<Longrightarrow> parse_value j d s = parse_value k d s"
    and "\<And>j d s. 2 * length s + 2 \<le> k \<Longrightarrow> k \<le> j \<Longrightarrow> parse_elems j d s = parse_elems k d s"
    and "\<And>j d s. 2 * length s + 2 \<le> k \<Longrightarrow> k \<le> j \<Longrightarrow> parse_members j d s = parse_members k d s"
    and "k \<le> j"
  shows "2 * length s + 1 \<le> Suc k \<Longrightarrow> parse_value (Suc j) d s = parse_value (Suc k) d s"
    and "2 * length s + 2 \<le> Suc k \<Longrightarrow> parse_elems (Suc j) d s = parse_elems (Suc k) d s"
    and "2 * length s + 2 \<le> Suc k \<Longrightarrow> parse_members (Suc j) d s = parse_members (Suc k) d s"
proof -
  note fuel = assms(1) [OF _ assms(4)] assms(2) [OF _ assms(4)] assms(3) [OF _ assms(4)]
  show "parse_value (Suc j) d s = parse_value (Suc k) d s" if "2 * length s + 1 \<le> Suc k"
  proof (cases "skip_space s")
    case (Cons c t)
    have "2 * length t + 2 \<le> k" using length_skip_space_Cons [OF Cons] that by simp
    then show ?thesis using fuel(2,3) [of t "Suc d"] by (simp add: Cons split: list.split)
  qed simp
  show "parse_elems (Suc j) d s = parse_elems (Suc k) d s" if "2 * length s + 2 \<le> Suc k"
  proof (cases "parse_value k d s")
    case None
    then show ?thesis using fuel(1) [of s d] that by simp
  next
    case (Some p)
    obtain v r where p: "p = (v, r)" by force
    have "2 * length t + 2 \<le> k" if "skip_space r = c # t" for c t
      using length_skip_space_Cons [OF that] length_parse(1) [of k d s v r] Some p
        \<open>2 * length s + 2 \<le> Suc k\<close> by simp
    then show ?thesis using fuel(1) [of s d] fuel(2) that Some p by (auto split: list.split)
  qed
  show "parse_members (Suc j) d s = parse_members (Suc k) d s" if len: "2 * length s + 2 \<le> Suc k"
  proof -
    have v: "parse_value j d t' = parse_value k d t' \<and> (\<forall>x r' e u. parse_value k d t' = Some (x, r') \<longrightarrow>
          skip_space r' = e # u \<longrightarrow> parse_members j d u = parse_members k d u)"
      if "skip_space s = q # t" "scan_string t = Some (key, r)" "skip_space r = c # t'" for q t key r c t'
    proof -
      have t': "length t' < length s"
        using length_skip_space_Cons [OF that(1)] length_scan_string [OF that(2)]
          length_skip_space_Cons [OF that(3)] by simp
      have "parse_members j d u = parse_members k d u"
        if "parse_value k d t' = Some (x, r')" "skip_space r' = e # u" for x r' e u
      proof -
        have "length u < length s"
          using length_parse(1) [OF that(1)] length_skip_space_Cons [OF that(2)] t' by simp
        with len show ?thesis by (intro fuel(3)) simp
      qed
      moreover have "parse_value j d t' = parse_value k d t'" using t' len by (intro fuel(1)) simp
      ultimately show ?thesis by blast
    qed
    show ?thesis
    proof (cases "skip_space s")
      case (Cons q t)
      show ?thesis
      proof (cases "scan_string t")
        case None
        then show ?thesis by (simp add: Cons)
      next
        case (Some p)
        obtain key r where p: "p = (key, r)" by force
        show ?thesis
        proof (cases "skip_space r")
          case Nil
          then show ?thesis by (simp add: Cons Some p)
        next
          case (Cons c t')
          with v [OF \<open>skip_space s = q # t\<close> Some [unfolded p] this] show ?thesis
            by (auto simp: \<open>skip_space s = q # t\<close> Some p split: option.split list.split)
        qed
      qed
    qed simp
  qed
qed

lemma parse_enough:
  "2 * length s + 1 \<le> k \<Longrightarrow> k \<le> j \<Longrightarrow> parse_value j d s = parse_value k d s"
  "2 * length s + 2 \<le> k \<Longrightarrow> k \<le> j \<Longrightarrow> parse_elems j d s = parse_elems k d s"
  "2 * length s + 2 \<le> k \<Longrightarrow> k \<le> j \<Longrightarrow> parse_members j d s = parse_members k d s"
proof (induction k arbitrary: j d s)
  case 0
  { case 1 then show ?case by simp next
    case 2 then show ?case by simp next
    case 3 then show ?case by simp }
next
  case (Suc k)
  { case 1
    then obtain i where "j = Suc i" "k \<le> i" by (cases j) auto
    show ?case unfolding \<open>j = Suc i\<close> by (rule parse_enough_step(1) [OF Suc \<open>k \<le> i\<close> 1(1)])
  next
    case 2
    then obtain i where "j = Suc i" "k \<le> i" by (cases j) auto
    show ?case unfolding \<open>j = Suc i\<close> by (rule parse_enough_step(2) [OF Suc \<open>k \<le> i\<close> 2(1)])
  next
    case 3
    then obtain i where "j = Suc i" "k \<le> i" by (cases j) auto
    show ?case unfolding \<open>j = Suc i\<close> by (rule parse_enough_step(3) [OF Suc \<open>k \<le> i\<close> 3(1)]) }
qed

section \<open>Integers\<close>

lemma char_zero: "char_of (48 :: nat) = CHR ''0''"
  by code_simp

lemma is_digit_char: "n < 10 \<Longrightarrow> is_digit (char_of (48 + n :: nat))"
  by (simp add: is_digit_def)

lemma nat_digits_all: "list_all is_digit (nat_digits n)"
proof (induction n rule: nat_digits.induct)
  case (1 n)
  then show ?case
    by (subst nat_digits.simps) (simp add: is_digit_char)
qed

lemma nat_digits_nonempty [simp]: "nat_digits n \<noteq> []"
  by (subst nat_digits.simps) simp

lemma hd_nat_digits: "0 < n \<Longrightarrow> hd (nat_digits n) \<noteq> CHR ''0''"
proof (induction n rule: nat_digits.induct)
  case (1 n)
  show ?case
  proof (cases "n < 10")
    case True
    have "byte (char_of (48 + n)) \<noteq> byte (CHR ''0'')" using True 1(2) by simp
    then have "char_of (48 + n) \<noteq> CHR ''0''" by metis
    with True show ?thesis by (subst nat_digits.simps) simp
  next
    case False
    with 1 show ?thesis by (subst nat_digits.simps) (simp add: hd_append div_greater_zero_iff)
  qed
qed

lemma digits_int_append:
  "digits_int (s @ t) acc = (case digits_int s acc of None \<Rightarrow> None | Some a \<Rightarrow> digits_int t a)"
  by (induction s arbitrary: acc) auto

lemma digits_int_nat_digits: "digits_int (nat_digits n) 0 = Some (int n)"
proof (induction n rule: nat_digits.induct)
  case (1 n)
  show ?case
  proof (cases "n < 10")
    case True
    then show ?thesis by (subst nat_digits.simps) (simp add: is_digit_char)
  next
    case False
    have "digits_int (nat_digits n) 0 = Some (10 * int (n div 10) + int (n mod 10))"
      using False 1 by (subst nat_digits.simps) (simp add: digits_int_append is_digit_char)
    also have "10 * int (n div 10) + int (n mod 10) = int n"
      by (metis mult_div_mod_eq of_nat_add of_nat_mult of_nat_numeral)
    finally show ?thesis .
  qed
qed

lemma digit_not_sign: "is_digit c \<Longrightarrow> c \<noteq> CHR ''-'' \<and> c \<noteq> CHR ''+''"
  by (auto simp: is_digit_def)

lemma nat_digits_Cons: obtains c s where "nat_digits n = c # s" "is_digit c"
  using nat_digits_all [of n] nat_digits_nonempty [of n] by (cases "nat_digits n") auto

lemma ParseInt_FormatInt: "in64 i \<Longrightarrow> ParseInt (FormatInt i) = Some i"
proof (cases "i < 0")
  case True
  assume "in64 i"
  with True show ?thesis by (simp add: ParseInt_def FormatInt_def digits_int_nat_digits)
next
  case False
  assume "in64 i"
  obtain c s where cs: "nat_digits (nat i) = c # s" "is_digit c" by (rule nat_digits_Cons)
  with digits_int_nat_digits [of "nat i"] False \<open>in64 i\<close> show ?thesis
    by (auto simp: ParseInt_def FormatInt_def dest: digit_not_sign)
qed

text \<open>A number ends at a character that can not go on with it.\<close>

definition ends_number :: "char \<Rightarrow> bool" where
  "ends_number c \<longleftrightarrow> \<not> is_digit c \<and> c \<noteq> CHR ''.'' \<and> c \<noteq> CHR ''e'' \<and> c \<noteq> CHR ''E''"

lemma take_digits_append:
  "list_all is_digit ds \<Longrightarrow> \<not> is_digit c \<Longrightarrow> take_digits (ds @ c # t) = (ds, c # t)"
  by (induction ds) auto

lemma scan_int_nat_digits:
  assumes "ends_number c"
  shows "scan_int_part (nat_digits n @ c # t) = Some (nat_digits n, c # t)"
proof (cases "n = 0")
  case True
  then show ?thesis by (simp add: nat_digits.simps [of 0] scan_int_part_def char_zero)
next
  case False
  obtain d s where ds: "nat_digits n = d # s" "is_digit d" by (rule nat_digits_Cons)
  with hd_nat_digits [of n] False have "d \<noteq> CHR ''0''" by simp
  with ds take_digits_append [OF nat_digits_all [of n], of c t] assms show ?thesis
    by (simp add: scan_int_part_def ends_number_def)
qed

lemma scan_fraction_none: "c \<noteq> CHR ''.'' \<Longrightarrow> scan_fraction (c # t) = Some ([], c # t)"
  by (auto simp: scan_fraction_def split: char.splits bool.splits)

lemma scan_number_FormatInt:
  assumes "ends_number c"
  shows "scan_number (FormatInt i @ c # t) = Some (FormatInt i, c # t)"
proof -
  have f: "scan_fraction (c # t) = Some ([], c # t)" "scan_exponent (c # t) = Some ([], c # t)"
    using assms by (auto simp: scan_fraction_none scan_exponent_def ends_number_def)
  obtain d s where ds: "nat_digits (nat i) = d # s" "is_digit d" by (rule nat_digits_Cons)
  show ?thesis
  proof (cases "i < 0")
    case True
    then show ?thesis
      using scan_int_nat_digits [OF assms, of "nat (- i)" t] f by (simp add: scan_number_def FormatInt_def)
  next
    case False
    then show ?thesis
      using scan_int_nat_digits [OF assms, of "nat i" t] f ds digit_not_sign
      by (auto simp: scan_number_def FormatInt_def)
  qed
qed

lemma FormatInt_head: obtains c s where "FormatInt i = c # s" "is_digit c \<or> c = CHR ''-''"
proof (cases "i < 0")
  case True
  then show ?thesis using that [of "CHR ''-''"] by (simp add: FormatInt_def)
next
  case False
  obtain c s where "nat_digits (nat i) = c # s" "is_digit c" by (rule nat_digits_Cons)
  with False that show ?thesis by (simp add: FormatInt_def)
qed

lemma parse_FormatInt:
  assumes "ends_number c"
  shows "parse_value (Suc k) d (FormatInt i @ c # t) = Some (JNum (FormatInt i), c # t)"
proof -
  obtain x s where x: "FormatInt i = x # s" "is_digit x \<or> x = CHR ''-''" by (rule FormatInt_head)
  have "x \<notin> {CHR ''{'', CHR ''['', CHR 0x22, CHR ''t'', CHR ''f'', CHR ''n''} \<and> \<not> is_space x"
    using x(2) by (auto simp: is_digit_def is_space_def)
  then show ?thesis
    using scan_number_FormatInt [OF assms, of i t] by (simp add: x(1))
qed

text \<open>One member of an object and the rest of it.\<close>

lemma parse_member:
  assumes "ascii key" "parse_value k d (v @ c # t) = Some (x, c # t)" "c = CHR '','' \<or> c = CHR ''}''"
  shows "parse_members (Suc k) d (json_quote key @ '':'' @ v @ c # t) =
     (if c = CHR ''}'' then Some ([(concat (map quote_char key), x)], t)
      else map_option (\<lambda>(ms, w). ((concat (map quote_char key), x) # ms, w)) (parse_members k d t))"
proof -
  let ?q = "concat (map quote_char key)"
  have s: "skip_space (c # t) = c # t" using assms(3) by (auto simp: is_space_def)
  have k: "skip_space (json_quote key @ '':'' @ v @ c # t) = CHR 0x22 # ?q @ CHR 0x22 # CHR '':'' # v @ c # t"
    using assms(1) by (simp add: json_quote_def quote_body_ascii is_space_def)
  have sc: "scan_string (?q @ CHR 0x22 # CHR '':'' # v @ c # t) = Some (?q, CHR '':'' # v @ c # t)"
    by (rule scan_quoted [OF assms(1)])
  have sp: "skip_space (CHR '':'' # v @ c # t) = CHR '':'' # v @ c # t" by (simp add: is_space_def)
  have "parse_members (Suc k) d (json_quote key @ '':'' @ v @ c # t) =
      (case skip_space (c # t) of [] \<Rightarrow> None
       | e # u \<Rightarrow> if e = CHR ''}'' then Some ([(?q, x)], u)
                 else if e = CHR '','' then map_option (\<lambda>(ms, w). ((?q, x) # ms, w)) (parse_members k d u)
                 else None)"
    unfolding parse_members.simps k using assms(2) by (simp add: sc sp del: skip_space.simps)
  also have "\<dots> = (if c = CHR ''}'' then Some ([(?q, x)], t)
      else map_option (\<lambda>(ms, w). ((?q, x) # ms, w)) (parse_members k d t))"
    unfolding s using assms(3) by auto
  finally show ?thesis .
qed

end
