(* ===== verification/GoTime.thy ===== *)
theory GoTime
  imports Prelude
begin

text \<open>
  What the program uses of the calendar in \<open>time\<close>: the civil date of an instant (proleptic
  Gregorian calendar, counted from 1 January of year 1, Go's zero time) and the layout
  RFC3339Nano. Instants are read in UTC.
\<close>

definition day_number :: "instant \<Rightarrow> int" where
  "day_number t = t div (86400 * Second)"

text \<open>The year and the day in the year (from 0) of a day, over cycles of 400, 100, 4 and 1 years.\<close>

definition year_yday :: "int \<Rightarrow> int \<times> int" where
  "year_yday d =
     (let n400 = d div 146097; r0 = d mod 146097;
          n100 = min 3 (r0 div 36524); r1 = r0 - 36524 * n100;
          n4 = r1 div 1461; r2 = r1 mod 1461;
          n1 = min 3 (r2 div 365)
      in (400 * n400 + 100 * n100 + 4 * n4 + n1 + 1, r2 - 365 * n1))"

definition is_leap :: "int \<Rightarrow> bool" where
  "is_leap y \<longleftrightarrow> y mod 4 = 0 \<and> (y mod 100 \<noteq> 0 \<or> y mod 400 = 0)"

definition month_lengths :: "int \<Rightarrow> int list" where
  "month_lengths y = [31, if is_leap y then 29 else 28, 31, 30, 31, 30, 31, 31, 30, 31, 30, 31]"

fun find_month :: "int list \<Rightarrow> int \<Rightarrow> int \<Rightarrow> int \<times> int" where
  "find_month [] m d = (m, d)"
| "find_month (l # ls) m d = (if d < l then (m, d) else find_month ls (m + 1) (d - l))"

definition time_Date :: "instant \<Rightarrow> int \<times> int \<times> int" where
  "time_Date t =
     (let (y, yday) = year_yday (day_number t); (m, d) = find_month (month_lengths y) 1 yday
      in (y, m, d + 1))"

definition time_Year :: "instant \<Rightarrow> int" where
  "time_Year t = fst (year_yday (day_number t))"

text \<open>The number of days before the first day of a year.\<close>

definition year_start :: "int \<Rightarrow> int" where
  "year_start y = 365 * (y - 1) + (y - 1) div 4 - (y - 1) div 100 + (y - 1) div 400"

text \<open>Decimal digits padded with zeros on the left, and without trailing zeros on the right.\<close>

fun fixed_digits :: "nat \<Rightarrow> int \<Rightarrow> string" where
  "fixed_digits 0 i = []"
| "fixed_digits (Suc w) i = fixed_digits w (i div 10) @ [char_of (48 + nat (i mod 10))]"

definition pad0 :: "nat \<Rightarrow> int \<Rightarrow> string" where
  "pad0 w i =
     (if i < 0 then ''-'' @ (if - i < 10 ^ w then fixed_digits w (- i) else FormatInt (- i))
      else if i < 10 ^ w then fixed_digits w i else FormatInt i)"

definition strip_zeros :: "string \<Rightarrow> string" where
  "strip_zeros s = rev (dropWhile (\<lambda>c. c = CHR ''0'') (rev s))"

definition format_RFC3339Nano :: "instant \<Rightarrow> string" where
  "format_RFC3339Nano t =
     (let (y, m, d) = time_Date t;
          s = t div Second mod 86400; ns = t mod Second;
          frac = (if ns = 0 then [] else ''.'' @ strip_zeros (pad0 9 ns))
      in pad0 4 y @ ''-'' @ pad0 2 m @ ''-'' @ pad0 2 d @ ''T'' @ pad0 2 (s div 3600) @ '':''
         @ pad0 2 (s div 60 mod 60) @ '':'' @ pad0 2 (s mod 60) @ frac @ ''Z'')"

text \<open>\<open>Time.MarshalJSON\<close> refuses years of more than four digits.\<close>

definition time_encodable :: "instant \<Rightarrow> bool" where
  "time_encodable t \<longleftrightarrow> 0 \<le> time_Year t \<and> time_Year t \<le> 9999"

lemma div_decomp: "0 \<le> r \<Longrightarrow> r < k \<Longrightarrow> (k * q + r) div k = (q :: int)"
  by simp

lemma div_bounds: "0 < k \<Longrightarrow> k * (r div k) \<le> r \<and> r < k * (r div k) + (k :: int)"
proof -
  assume k: "0 < k"
  have "r = k * (r div k) + r mod k" by simp
  moreover have "0 \<le> r mod k" "r mod k < k" using k by simp_all
  ultimately show ?thesis by linarith
qed

text \<open>The parts of a day number in the cycles are in range.\<close>

lemma capped_div:
  assumes "0 \<le> r" "r \<le> 4 * k" "0 < k" "b = min 3 (r div k)"
  shows "0 \<le> b" "b \<le> 3" "0 \<le> r - k * b" "r - k * b \<le> (k :: int)"
proof -
  note bounds = div_bounds [OF assms(3), of r]
  have "0 \<le> r div k" using assms(1,3) by (simp add: pos_imp_zdiv_nonneg_iff)
  then show "0 \<le> b" "b \<le> 3" using assms(4) by simp_all
  show "0 \<le> r - k * b" "r - k * b \<le> k"
  proof -
    show "0 \<le> r - k * b"
    proof -
      have "k * b \<le> k * (r div k)" using assms(3,4) by (intro mult_left_mono) simp_all
      with bounds show ?thesis by linarith
    qed
    show "r - k * b \<le> k"
    proof (cases "r div k \<le> 3")
      case True
      with bounds assms(4) show ?thesis by simp
    next
      case False
      with assms(2,4) show ?thesis by simp
    qed
  qed
qed

lemma year_split:
  assumes "y - 1 = 400 * a + 100 * b + 4 * c + (n :: int)"
    and "0 \<le> b" "b \<le> 3" "0 \<le> c" "c \<le> 24" "0 \<le> n" "n \<le> 3"
  shows "year_start y = 146097 * a + 36524 * b + 1461 * c + 365 * n"
proof -
  have s: "y - 1 = 4 * (100 * a + 25 * b + c) + n" "y - 1 = 100 * (4 * a + b) + (4 * c + n)"
      "y - 1 = 400 * a + (100 * b + 4 * c + n)" unfolding assms(1) by simp_all
  have "(y - 1) div 4 = 100 * a + 25 * b + c"
    unfolding s(1) using assms by (intro div_decomp) linarith+
  moreover have "(y - 1) div 100 = 4 * a + b"
    unfolding s(2) using assms by (intro div_decomp) linarith+
  moreover have "(y - 1) div 400 = a"
    unfolding s(3) using assms by (intro div_decomp) linarith+
  moreover have "z = 400 * a + 100 * b + 4 * c + n \<Longrightarrow> p = 100 * a + 25 * b + c \<Longrightarrow> q = 4 * a + b
      \<Longrightarrow> r = a \<Longrightarrow> 365 * z + p - q + r = 146097 * a + 36524 * b + 1461 * c + 365 * n" for z p q r
    by simp
  ultimately show ?thesis using assms(1) unfolding year_start_def by blast
qed

lemma year_yday_correct:
  assumes "year_yday d = (y, k)"
  shows "year_start y + k = d"
proof -
  define a where "a = d div 146097"
  define r0 where "r0 = d mod 146097"
  define b where "b = min 3 (r0 div 36524)"
  define r1 where "r1 = r0 - 36524 * b"
  define c where "c = r1 div 1461"
  define r2 where "r2 = r1 mod 1461"
  define n where "n = min 3 (r2 div 365)"
  have "(400 * a + 100 * b + 4 * c + n + 1, r2 - 365 * n) = (y, k)"
    unfolding assms [symmetric] year_yday_def Let_def a_def n_def r2_def c_def r1_def b_def r0_def ..
  then have y: "y - 1 = 400 * a + 100 * b + 4 * c + n" and k: "k = r2 - 365 * n" by auto
  have d: "d = 146097 * a + r0" "0 \<le> r0" "r0 \<le> 4 * 36524" by (simp_all add: a_def r0_def)
  note b = capped_div [OF d(2,3) _ b_def]
  have r1: "r1 = 1461 * c + r2" "0 \<le> r2" "r2 < 1461" by (simp_all add: c_def r2_def)
  have c: "0 \<le> c" "c \<le> 24" using b(3,4) r1 unfolding r1_def [symmetric] by linarith+
  have r2: "r2 \<le> 4 * 365 " using r1(3) by simp
  note n = capped_div [OF r1(2) r2 _ n_def]
  from year_split [OF y _ _ c] b(1,2) n(1,2) have "year_start y = 146097 * a + 36524 * b + 1461 * c + 365 * n"
    by simp
  then show ?thesis using k d(1) r1(1) r1_def by linarith
qed

lemma find_month_range:
  assumes "0 \<le> d" "d < sum_list ls" "find_month ls m d = (m', d')"
  shows "m \<le> m' \<and> m' < m + int (length ls) \<and> 0 \<le> d' \<and> d' < ls ! nat (m' - m)"
  using assms
proof (induction ls arbitrary: m d)
  case Nil
  then show ?case by simp
next
  case (Cons l ls)
  show ?case
  proof (cases "d < l")
    case True
    with Cons.prems show ?thesis by auto
  next
    case False
    with Cons.prems Cons.IH [of "d - l" "m + 1"]
    have "m + 1 \<le> m' \<and> m' < m + 1 + int (length ls) \<and> 0 \<le> d' \<and> d' < ls ! nat (m' - (m + 1))" by auto
    moreover from this have "nat (m' - m) = Suc (nat (m' - (m + 1)))" by linarith
    ultimately show ?thesis by simp
  qed
qed

lemma format_epoch: "format_RFC3339Nano unix_epoch = ''1970-01-01T00:00:00Z''"
  by code_simp

lemma format_leap_day:
  "format_RFC3339Nano (time_ofUnixMilli 1709210096120) = ''2024-02-29T12:34:56.12Z''"
  by code_simp

end
