(* ===== verification/GoDoc.thy ===== *)
theory GoDoc
  imports Venue GoJson GoTime
begin

text \<open>
  JSON documents as \<open>encoding/json\<close> builds them from Go values: a tree whose leaves keep the Go
  value (a string, a time, a decimal, a float). HTTP bodies and bus messages are such documents;
  the bytes matter to the program only where it hashes an audit event. Members of a struct come
  in the order of its fields, those of a map sorted by key. A nil slice is an empty array.
\<close>

datatype 'd jdoc =
    DNull
  | DStr string
  | DTime instant
  | DDec 'd
  | DFloat float64
  | DArr "'d jdoc list"
  | DObj "(string \<times> 'd jdoc) list"

text \<open>\<open>Marshal\<close> fails for a time whose year has more than four digits and for a float that is not finite.\<close>

fun encodable :: "'d jdoc \<Rightarrow> bool" where
  "encodable (DTime t) = time_encodable t"
| "encodable (DFloat f) = (case f of F64 _ \<Rightarrow> True | _ \<Rightarrow> False)"
| "encodable (DArr ds) = list_all encodable ds"
| "encodable (DObj ms) = list_all (\<lambda>(_, d). encodable d) ms"
| "encodable _ = True"

definition json_Marshal :: "'d jdoc \<Rightarrow> 'd jdoc option" where
  "json_Marshal d = (if encodable d then Some d else None)"

text \<open>The bytes of a document without floats.\<close>

fun jdoc_text :: "'d decimal_ops \<Rightarrow> 'd jdoc \<Rightarrow> string" where
  "jdoc_text D DNull = ''null''"
| "jdoc_text D (DStr s) = json_quote s"
| "jdoc_text D (DTime t) = [CHR 0x22] @ format_RFC3339Nano t @ [CHR 0x22]"
| "jdoc_text D (DDec x) = d_MarshalJSON D x"
| "jdoc_text D (DFloat f) = []"
| "jdoc_text D (DArr ds) = ''['' @ Join (map (jdoc_text D) ds) '','' @ '']''"
| "jdoc_text D (DObj ms) = json_object (map (\<lambda>(k, d). (k, jdoc_text D d)) ms)"

text \<open>The documents of the venue types: structs without tags, so the fields' own names.\<close>

definition doc_Fill :: "'d Fill \<Rightarrow> 'd jdoc" where
  "doc_Fill f = DObj
     [(''VenueOrderID'', DStr (fl_VenueOrderID f)), (''TradeID'', DStr (fl_TradeID f)),
      (''Price'', DDec (fl_Price f)), (''Quantity'', DDec (fl_Quantity f)), (''Fee'', DDec (fl_Fee f)),
      (''FeeAsset'', DStr (fl_FeeAsset f)), (''Timestamp'', DTime (fl_Timestamp f))]"

definition doc_Fills :: "'d Fill list \<Rightarrow> 'd jdoc" where
  "doc_Fills fs = DArr (map doc_Fill fs)"

definition doc_OrderResponse :: "'d OrderResponse \<Rightarrow> 'd jdoc" where
  "doc_OrderResponse r = DObj
     [(''VenueOrderID'', DStr (os_VenueOrderID r)), (''ClientOrderID'', DStr (os_ClientOrderID r)),
      (''Status'', DStr (os_Status r)), (''FilledQty'', DDec (os_FilledQty r)),
      (''AvgPrice'', DDec (os_AvgPrice r)), (''Fills'', doc_Fills (os_Fills r))]"

definition doc_Balance :: "'d Balance \<Rightarrow> 'd jdoc" where
  "doc_Balance b = DObj
     [(''Asset'', DStr (bal_Asset b)), (''Free'', DDec (bal_Free b)), (''Locked'', DDec (bal_Locked b))]"

definition doc_Balances :: "'d Balances \<Rightarrow> 'd jdoc" where
  "doc_Balances bs =
     DObj [(''Assets'', DObj (map (\<lambda>(k, b). (k, doc_Balance b)) (sort_key fst bs)))]"

end
