(* ===== verification/Events.thy ===== *)
theory Events
  imports GoDoc
begin

text \<open>
  The event bus of \<open>internal/events/events.go\<close>. The Kafka client is not part of the program: a
  broker answers the n-th message with success or an error, arbitrarily, and remembers the
  messages it was given. \<open>Bus\<close> works with any publisher and any dead-letter handler. What the
  \<open>select\<close> after a failed attempt sees of the context is the argument \<open>ctx\<close>: \<open>ctx n\<close> is the
  context's error when it is done at the \<open>select\<close> of attempt n, \<open>None\<close> when the timer fires.
\<close>

record 'd FillEvent =
  fe_VenueOrderID :: string
  fe_InternalID :: string
  fe_Venue :: string
  fe_Pair :: string
  fe_Price :: 'd
  fe_Size :: 'd
  fe_Fee :: 'd
  fe_FeeAsset :: string
  fe_TradeID :: string
  fe_Timestamp :: instant
  fe_EmittedAt :: instant

record 'd BalanceEvent =
  be_Venue :: string
  be_Asset :: string
  be_Free :: 'd
  be_Locked :: 'd
  be_Timestamp :: instant
  be_EmittedAt :: instant

definition doc_FillEvent :: "'d FillEvent \<Rightarrow> 'd jdoc" where
  "doc_FillEvent ev = DObj
     [(''venue_order_id'', DStr (fe_VenueOrderID ev)), (''internal_order_id'', DStr (fe_InternalID ev)),
      (''venue'', DStr (fe_Venue ev)), (''pair'', DStr (fe_Pair ev)), (''price'', DDec (fe_Price ev)),
      (''size'', DDec (fe_Size ev)), (''fee'', DDec (fe_Fee ev)), (''fee_asset'', DStr (fe_FeeAsset ev)),
      (''trade_id'', DStr (fe_TradeID ev)), (''timestamp'', DTime (fe_Timestamp ev)),
      (''emitted_at'', DTime (fe_EmittedAt ev))]"

definition doc_BalanceEvent :: "'d BalanceEvent \<Rightarrow> 'd jdoc" where
  "doc_BalanceEvent ev = DObj
     [(''venue'', DStr (be_Venue ev)), (''asset'', DStr (be_Asset ev)), (''free'', DDec (be_Free ev)),
      (''locked'', DDec (be_Locked ev)), (''timestamp'', DTime (be_Timestamp ev)),
      (''emitted_at'', DTime (be_EmittedAt ev))]"

section \<open>The Kafka publisher\<close>

record 'd kafka_message =
  km_topic :: string
  km_key :: string
  km_value :: "'d jdoc"

record 'd broker =
  bk_answer :: "nat \<Rightarrow> string option"
  bk_log :: "'d kafka_message list"

definition kafka_WriteMessages :: "'d kafka_message \<Rightarrow> 'd broker \<Rightarrow> string option \<times> 'd broker" where
  "kafka_WriteMessages m bk =
     (bk_answer bk (length (bk_log bk)), bk\<lparr>bk_log := bk_log bk @ [m]\<rparr>)"

record KafkaPublisher =
  kp_brokers :: "string list"
  kp_topic :: string

definition NewKafkaPublisher :: "string list \<Rightarrow> string \<Rightarrow> string + KafkaPublisher" where
  "NewKafkaPublisher brokers topic =
     (if brokers = [] then Inl ''events: no kafka brokers provided''
      else Inr \<lparr>kp_brokers = brokers, kp_topic = (if topic = [] then ''recon'' else topic)\<rparr>)"

text \<open>The last \<open>topic=\<close> parameter of a query string.\<close>

fun topic_param :: "string list \<Rightarrow> string \<Rightarrow> string" where
  "topic_param [] topic = topic"
| "topic_param (kv # kvs) topic =
     topic_param kvs (if HasPrefix kv ''topic='' then TrimPrefix kv ''topic='' else topic)"

text \<open>\<open>strings.TrimSpace\<close> on ASCII text.\<close>

definition ascii_space :: "char \<Rightarrow> bool" where
  "ascii_space c \<longleftrightarrow> c = CHR '' '' \<or> 9 \<le> byte c \<and> byte c \<le> 13"

definition TrimSpace :: "string \<Rightarrow> string" where
  "TrimSpace s = rev (dropWhile ascii_space (rev (dropWhile ascii_space s)))"

fun clean_brokers :: "string list \<Rightarrow> string list" where
  "clean_brokers [] = []"
| "clean_brokers (b # bs) =
     (let b' = TrimSpace b in if b' \<noteq> [] then b' # clean_brokers bs else clean_brokers bs)"

definition NewKafkaPublisherFromURL :: "string \<Rightarrow> string + KafkaPublisher" where
  "NewKafkaPublisherFromURL url =
     (if \<not> HasPrefix url ''kafka://'' then
        Inl (''events: url must start with kafka://, got '' @ strconv_Quote url)
      else
        (case SplitN2 (CHR ''?'') (TrimPrefix url ''kafka://'') of
           (rest, None) \<Rightarrow> NewKafkaPublisher (clean_brokers (Split (CHR '','') rest)) []
         | (rest, Some q) \<Rightarrow>
             NewKafkaPublisher (clean_brokers (Split (CHR '','') rest))
               (topic_param (Split (CHR ''&'') q) [])))"

text \<open>\<open>None\<close> is a nil publisher; a constructed one has its writer. The subject is not used.\<close>

definition KafkaPublisher_Publish ::
    "KafkaPublisher option \<Rightarrow> string \<Rightarrow> 'd jdoc \<Rightarrow> 'd broker \<Rightarrow> string option \<times> 'd broker" where
  "KafkaPublisher_Publish p subject data bk =
     (case p of
        None \<Rightarrow> (Some ''events: kafka not connected'', bk)
      | Some k \<Rightarrow> kafka_WriteMessages \<lparr>km_topic = kp_topic k, km_key = [], km_value = data\<rparr> bk)"

section \<open>The bus\<close>

record ('p, 'h, 'd) Bus =
  bus_Publish :: "string \<Rightarrow> 'd jdoc \<Rightarrow> 'p \<Rightarrow> string option \<times> 'p"
  bus_subject :: string
  bus_maxRetries :: int
  bus_deadLetter :: "'d FillEvent \<Rightarrow> string \<Rightarrow> 'h \<Rightarrow> 'h"

definition NewBus :: "(string \<Rightarrow> 'd jdoc \<Rightarrow> 'p \<Rightarrow> string option \<times> 'p) \<Rightarrow> string \<Rightarrow> ('p, 'h, 'd) Bus" where
  "NewBus publisher subject =
     \<lparr>bus_Publish = publisher, bus_subject = subject, bus_maxRetries = 3,
      bus_deadLetter = (\<lambda>_ _ h. h)\<rparr>"

definition SetDeadLetterHandler ::
    "('d FillEvent \<Rightarrow> string \<Rightarrow> 'h \<Rightarrow> 'h) \<Rightarrow> ('p, 'h, 'd) Bus \<Rightarrow> ('p, 'h, 'd) Bus" where
  "SetDeadLetterHandler h b = b\<lparr>bus_deadLetter := h\<rparr>"

text \<open>How the loop of attempts ends.\<close>

datatype publish_outcome = Published | Cancelled string | Exhausted string

text \<open>The attempts from number \<open>attempt\<close> on; a wait of (attempt + 1) * 100 ms follows a failure.\<close>

function publish_attempts ::
    "('p \<Rightarrow> string option \<times> 'p) \<Rightarrow> (nat \<Rightarrow> string option) \<Rightarrow> int \<Rightarrow> nat \<Rightarrow> string
      \<Rightarrow> 'p \<times> env \<Rightarrow> publish_outcome \<times> 'p \<times> env" where
  "publish_attempts publish ctx maxRetries attempt lastErr (p, e) =
     (if int attempt \<le> maxRetries then
        (case publish p of
           (None, p') \<Rightarrow> (Published, p', e)
         | (Some err, p') \<Rightarrow>
             (case ctx attempt of
                Some c \<Rightarrow> (Cancelled c, p', e)
              | None \<Rightarrow> publish_attempts publish ctx maxRetries (Suc attempt) err
                         (p', time_Sleep ((int attempt + 1) * (100 * Millisecond)) e)))
      else (Exhausted lastErr, p, e))"
  by pat_completeness auto
termination
  by (relation "measure (\<lambda>(_, _, m, a, _). nat (m + 1 - int a))") auto

declare publish_attempts.simps [simp del]

text \<open>The error of \<open>json.Marshal\<close>: the only values it refuses in an event are times.\<close>

abbreviation marshal_time_error :: string where
  "marshal_time_error \<equiv>
     ''json: error calling MarshalJSON for type time.Time: Time.MarshalJSON: year outside of range [0,9999]''"

text \<open>The latency observed on success is cut at zero.\<close>

definition nonneg_seconds :: "duration \<Rightarrow> float64" where
  "nonneg_seconds d =
     (let l = duration_Seconds d in if f64_less l (F64 0) then F64 0 else l)"

text \<open>The defaults \<open>PublishFill\<close> fills in before it encodes the event.\<close>

definition stamp_fill :: "'d FillEvent \<Rightarrow> env \<Rightarrow> 'd FillEvent \<times> env" where
  "stamp_fill ev0 e0 =
     (let ev1 = (if fe_InternalID ev0 = [] then ev0\<lparr>fe_InternalID := fe_VenueOrderID ev0\<rparr> else ev0)
      in if time_IsZero (fe_EmittedAt ev1)
         then (let (now, e') = time_Now e0 in (ev1\<lparr>fe_EmittedAt := now\<rparr>, e'))
         else (ev1, e0))"

text \<open>What follows the attempts: the metrics, and the dead letter when all of them failed.\<close>

fun settle_fill ::
    "('p, 'h, 'd) Bus \<Rightarrow> 'd FillEvent \<Rightarrow> 'h \<Rightarrow> publish_outcome \<times> 'p \<times> env \<Rightarrow> string option \<times> 'p \<times> 'h \<times> env" where
  "settle_fill b ev h (Published, p, e2) =
     (let (now, e3) = time_Now (update_metrics [Inc EventsPublishedTotal [fe_Venue ev, ''fill'', ''ok'']] e2);
          latency = nonneg_seconds (time_Sub now (fe_Timestamp ev))
      in (None, p, h, update_metrics [Observe FillLatencySeconds [fe_Venue ev] latency] e3))"
| "settle_fill b ev h (Cancelled c, p, e2) = (Some c, p, h, e2)"
| "settle_fill b ev h (Exhausted err, p, e2) =
     (Some err, p, bus_deadLetter b ev err h,
      update_metrics [Inc EventsPublishedTotal [fe_Venue ev, ''fill'', ''failed'']] e2)"

definition PublishFill ::
    "('p, 'h, 'd) Bus \<Rightarrow> (nat \<Rightarrow> string option) \<Rightarrow> 'd FillEvent \<Rightarrow> 'p \<times> 'h \<times> env
      \<Rightarrow> string option \<times> 'p \<times> 'h \<times> env" where
  "PublishFill b ctx ev0 = (\<lambda>(p, h, e0).
     (if fe_VenueOrderID ev0 = [] then (Some ''events: venue_order_id required'', p, h, e0)
      else
        (let (ev, e1) = stamp_fill ev0 e0
         in case json_Marshal (doc_FillEvent ev) of
              None \<Rightarrow> (Some marshal_time_error, p, h, e1)
            | Some data \<Rightarrow>
                settle_fill b ev h
                  (publish_attempts (bus_Publish b (bus_subject b @ ''.fills'') data) ctx
                     (bus_maxRetries b) 0 [] (p, e1)))))"

fun settle_balance ::
    "'d BalanceEvent \<Rightarrow> 'h \<Rightarrow> publish_outcome \<times> 'p \<times> env \<Rightarrow> string option \<times> 'p \<times> 'h \<times> env" where
  "settle_balance ev h (Published, p, e2) =
     (let (now, e3) = time_Now (update_metrics [Inc EventsPublishedTotal [be_Venue ev, ''balance'', ''ok'']] e2);
          lag = nonneg_seconds (time_Sub now (be_Timestamp ev))
      in (None, p, h, update_metrics [Observe BalanceSyncLagSeconds [be_Venue ev] lag] e3))"
| "settle_balance ev h (Cancelled c, p, e2) = (Some c, p, h, e2)"
| "settle_balance ev h (Exhausted err, p, e2) =
     (Some err, p, h, update_metrics [Inc EventsPublishedTotal [be_Venue ev, ''balance'', ''failed'']] e2)"

definition PublishBalance ::
    "('p, 'h, 'd) Bus \<Rightarrow> (nat \<Rightarrow> string option) \<Rightarrow> 'd BalanceEvent \<Rightarrow> 'p \<times> 'h \<times> env
      \<Rightarrow> string option \<times> 'p \<times> 'h \<times> env" where
  "PublishBalance b ctx ev0 = (\<lambda>(p, h, e0).
     (if be_Venue ev0 = [] \<or> be_Asset ev0 = [] then (Some ''events: venue and asset required'', p, h, e0)
      else
        (let (ev, e1) = (if time_IsZero (be_EmittedAt ev0)
                         then (let (now, e') = time_Now e0 in (ev0\<lparr>be_EmittedAt := now\<rparr>, e'))
                         else (ev0, e0))
         in case json_Marshal (doc_BalanceEvent ev) of
              None \<Rightarrow> (Some marshal_time_error, p, h, e1)
            | Some data \<Rightarrow>
                settle_balance ev h
                  (publish_attempts (bus_Publish b (bus_subject b @ ''.balances'') data) ctx
                     (bus_maxRetries b) 0 [] (p, e1)))))"

definition FillFromVenue :: "string \<Rightarrow> string \<Rightarrow> string \<Rightarrow> 'd Fill \<Rightarrow> 'd FillEvent" where
  "FillFromVenue venueName internalID pair f =
     \<lparr>fe_VenueOrderID = fl_VenueOrderID f, fe_InternalID = internalID, fe_Venue = venueName,
      fe_Pair = pair, fe_Price = fl_Price f, fe_Size = fl_Quantity f, fe_Fee = fl_Fee f,
      fe_FeeAsset = fl_FeeAsset f, fe_TradeID = fl_TradeID f, fe_Timestamp = fl_Timestamp f,
      fe_EmittedAt = 0\<rparr>"

definition BalanceFromVenue :: "string \<Rightarrow> 'd Balance \<Rightarrow> env \<Rightarrow> 'd BalanceEvent \<times> env" where
  "BalanceFromVenue venueName b e0 =
     (let (now, e1) = time_Now e0
      in (\<lparr>be_Venue = venueName, be_Asset = bal_Asset b, be_Free = bal_Free b, be_Locked = bal_Locked b,
           be_Timestamp = now, be_EmittedAt = 0\<rparr>, e1))"

section \<open>The loop of attempts\<close>

text \<open>
  The attempt with which the loop ends, of \<open>n\<close> attempts from \<open>a\<close> on: the first that succeeds or
  after which the context is done.
\<close>

definition last_attempt :: "(nat \<Rightarrow> string option) \<Rightarrow> (nat \<Rightarrow> string option) \<Rightarrow> nat \<Rightarrow> nat \<Rightarrow> nat option" where
  "last_attempt ans ctx a n = find (\<lambda>i. ans i = None \<or> ctx i \<noteq> None) [a..<n]"

lemma last_attempt_done: "n \<le> a \<Longrightarrow> last_attempt ans ctx a n = None"
  by (simp add: last_attempt_def)

lemma last_attempt_rec:
  "a < n \<Longrightarrow> last_attempt ans ctx a n =
     (if ans a = None \<or> ctx a \<noteq> None then Some a else last_attempt ans ctx (Suc a) n)"
  by (simp add: last_attempt_def upt_conv_Cons)

lemma last_attempt_range: "last_attempt ans ctx a n = Some i \<Longrightarrow> a \<le> i \<and> i < n"
  by (auto simp: last_attempt_def find_Some_iff)

text \<open>The waits between the attempts \<open>a\<close> to \<open>i\<close>.\<close>

definition retry_waits :: "nat \<Rightarrow> nat \<Rightarrow> duration list" where
  "retry_waits a i = map (\<lambda>k. (int k + 1) * (100 * Millisecond)) [a..<i]"

lemma retry_waits_rec: "a < i \<Longrightarrow> retry_waits a i = (int a + 1) * (100 * Millisecond) # retry_waits (Suc a) i"
  by (simp add: retry_waits_def upt_conv_Cons)

lemma retry_waits_refl [simp]: "retry_waits a a = []"
  by (simp add: retry_waits_def)

lemma publish_attempts_spec:
  fixes bk :: "'d broker"
  assumes "length (bk_log bk) = L + a" "a \<le> n" "m + 1 = int n"
    and "publish_attempts (kafka_WriteMessages msg) ctx m a lastErr (bk, e) = (r, bk', e')"
  shows "case last_attempt (\<lambda>i. bk_answer bk (L + i)) ctx a n of
      None \<Rightarrow> r = Exhausted (if a < n then the (bk_answer bk (L + (n - 1))) else lastErr)
        \<and> bk' = bk\<lparr>bk_log := bk_log bk @ replicate (n - a) msg\<rparr>
        \<and> e' = e\<lparr>env_slept := env_slept e @ retry_waits a n\<rparr>
    | Some i \<Rightarrow> r = (case bk_answer bk (L + i) of None \<Rightarrow> Published | Some _ \<Rightarrow> Cancelled (the (ctx i)))
        \<and> bk' = bk\<lparr>bk_log := bk_log bk @ replicate (Suc i - a) msg\<rparr>
        \<and> e' = e\<lparr>env_slept := env_slept e @ retry_waits a i\<rparr>"
  using assms
proof (induction "n - a" arbitrary: a bk e lastErr)
  case 0
  then have "a = n" by simp
  with 0(2-) show ?case by (simp add: last_attempt_done publish_attempts.simps)
next
  case (Suc k)
  then have a: "a < n" by simp
  have le: "int a \<le> m" using a Suc.prems(3) by simp
  let ?bk1 = "bk\<lparr>bk_log := bk_log bk @ [msg]\<rparr>"
  have w: "kafka_WriteMessages msg bk = (bk_answer bk (L + a), ?bk1)"
    using Suc.prems(1) by (simp add: kafka_WriteMessages_def)
  show ?case
  proof (cases "bk_answer bk (L + a) = None \<or> ctx a \<noteq> None")
    case True
    with Suc.prems(4) le show ?thesis
      by (auto simp: w publish_attempts.simps last_attempt_rec [OF a] Suc_diff_le split: option.splits)
  next
    case False
    then obtain err where err: "bk_answer bk (L + a) = Some err" "ctx a = None" by auto
    let ?e1 = "time_Sleep ((int a + 1) * (100 * Millisecond)) e"
    have run: "publish_attempts (kafka_WriteMessages msg) ctx m (Suc a) err (?bk1, ?e1) = (r, bk', e')"
      using Suc.prems(4) le by (simp add: w err publish_attempts.simps [of _ _ _ a])
    have IH: "case last_attempt (\<lambda>i. bk_answer ?bk1 (L + i)) ctx (Suc a) n of
        None \<Rightarrow> r = Exhausted (if Suc a < n then the (bk_answer ?bk1 (L + (n - 1))) else err)
          \<and> bk' = ?bk1\<lparr>bk_log := bk_log ?bk1 @ replicate (n - Suc a) msg\<rparr>
          \<and> e' = ?e1\<lparr>env_slept := env_slept ?e1 @ retry_waits (Suc a) n\<rparr>
      | Some i \<Rightarrow> r = (case bk_answer ?bk1 (L + i) of None \<Rightarrow> Published | Some _ \<Rightarrow> Cancelled (the (ctx i)))
          \<and> bk' = ?bk1\<lparr>bk_log := bk_log ?bk1 @ replicate (Suc i - Suc a) msg\<rparr>
          \<and> e' = ?e1\<lparr>env_slept := env_slept ?e1 @ retry_waits (Suc a) i\<rparr>"
      by (rule Suc.hyps(1)) (use Suc.hyps(2) Suc.prems(1,3) a run in auto)
    have last: "bk_answer bk (L + n - Suc 0) = Some err" if "\<not> Suc a < n"
    proof -
      have "L + n - Suc 0 = L + a" using that a by simp
      with err(1) show ?thesis by simp
    qed
    show ?thesis
    proof (cases "last_attempt (\<lambda>i. bk_answer bk (L + i)) ctx (Suc a) n")
      case None
      have "replicate (n - a) msg = msg # replicate (n - Suc a) msg"
        using a by (metis Suc_diff_Suc replicate_Suc)
      with IH None err a last show ?thesis
        by (auto simp: last_attempt_rec [OF a] retry_waits_rec time_Sleep_def)
    next
      case (Some i)
      then have i: "Suc a \<le> i" using last_attempt_range by blast
      then have "replicate (Suc i - a) msg = msg # replicate (Suc i - Suc a) msg"
        by (metis Suc_diff_le Suc_leD diff_Suc_Suc replicate_Suc)
      with IH Some err i show ?thesis
        by (auto simp: last_attempt_rec [OF a] retry_waits_rec time_Sleep_def)
    qed
  qed
qed

text \<open>The event as it is sent: an empty internal id is the venue's, an unset emission time is now.\<close>

definition completed :: "instant \<Rightarrow> 'd FillEvent \<Rightarrow> 'd FillEvent" where
  "completed now ev = ev\<lparr>fe_InternalID := (if fe_InternalID ev = [] then fe_VenueOrderID ev else fe_InternalID ev),
     fe_EmittedAt := (if fe_EmittedAt ev = 0 then now else fe_EmittedAt ev)\<rparr>"

lemma encodable_FillEvent:
  "encodable (doc_FillEvent ev) \<longleftrightarrow> time_encodable (fe_Timestamp ev) \<and> time_encodable (fe_EmittedAt ev)"
  by (simp add: doc_FillEvent_def)

lemma encodable_BalanceEvent:
  "encodable (doc_BalanceEvent ev) \<longleftrightarrow> time_encodable (be_Timestamp ev) \<and> time_encodable (be_EmittedAt ev)"
  by (simp add: doc_BalanceEvent_def)

lemma stamp_fill_completed:
  "stamp_fill ev e = (completed (env_clock e (env_ticks e)) ev,
     if fe_EmittedAt ev = 0 then snd (time_Now e) else e)"
  by (auto simp: stamp_fill_def completed_def time_IsZero_def time_Now_def)

lemma TrimSpace_id: "list_all (\<lambda>c. \<not> ascii_space c) s \<Longrightarrow> TrimSpace s = s"
proof -
  assume a: "list_all (\<lambda>c. \<not> ascii_space c) s"
  then have "dropWhile ascii_space s = s" by (cases s) auto
  moreover have "dropWhile ascii_space (rev s) = rev s"
    using a by (cases "rev s") (auto simp: list_all_iff dest: arg_cong [of _ _ set])
  ultimately show ?thesis by (simp add: TrimSpace_def)
qed

lemma clean_brokers_id:
  "list_all (\<lambda>h. h \<noteq> [] \<and> list_all (\<lambda>c. \<not> ascii_space c) h) hs \<Longrightarrow> clean_brokers hs = hs"
  by (induction hs) (simp_all add: TrimSpace_id)

section \<open>Properties\<close>

text \<open>
  C9. What \<open>PublishFill\<close> of a new bus does with an event that has an order id and encodable
  times, whatever the broker answers and whenever the context is cancelled. It makes at most
  four attempts, all with the same message; it stops at the first one that succeeds (the result
  is nil, the event is counted as ok) or after which the context is done (the result is the
  context's error); when all four fail it returns the last error, counts one failure and hands
  the event to the dead-letter handler, once, and never otherwise. Between attempts it waits
  100, 200, 300 (and, before giving up, 400) ms.
\<close>

theorem PublishFill_delivery:
  fixes bk :: "'d broker" and dl :: "'d FillEvent \<Rightarrow> string \<Rightarrow> 'h \<Rightarrow> 'h" and k :: KafkaPublisher
    and subject :: string
  defines "b \<equiv> SetDeadLetterHandler dl (NewBus (KafkaPublisher_Publish (Some k)) subject)"
    and "ans \<equiv> (\<lambda>i. bk_answer bk (length (bk_log bk) + i))"
  assumes "fe_VenueOrderID ev \<noteq> []"
    and "time_encodable (fe_Timestamp ev)" "time_encodable (fe_EmittedAt ev)"
    and "time_encodable (env_clock e (env_ticks e))"
  shows "\<exists>r bk' h' e'. PublishFill b ctx ev (bk, h, e) = (r, bk', h', e')
    \<and> (let ev' = completed (env_clock e (env_ticks e)) ev;
           msg = \<lparr>km_topic = kp_topic k, km_key = [], km_value = doc_FillEvent ev'\<rparr>;
           counted = (\<lambda>status. incs EventsPublishedTotal [fe_Venue ev, ''fill'', status] (env_metrics e')
                              = incs EventsPublishedTotal [fe_Venue ev, ''fill'', status] (env_metrics e) + 1)
       in case last_attempt ans ctx 0 4 of
            None \<Rightarrow> r = ans 3 \<and> bk_log bk' = bk_log bk @ replicate 4 msg \<and> h' = dl ev' (the (ans 3)) h
              \<and> counted ''failed'' \<and> env_slept e' = env_slept e @ retry_waits 0 4
          | Some i \<Rightarrow> i < 4 \<and> r = (if ans i = None then None else ctx i)
              \<and> bk_log bk' = bk_log bk @ replicate (Suc i) msg \<and> h' = h
              \<and> (ans i = None \<longrightarrow> counted ''ok'') \<and> env_slept e' = env_slept e @ retry_waits 0 i)"
proof -
  let ?ev = "completed (env_clock e (env_ticks e)) ev"
  let ?msg = "\<lparr>km_topic = kp_topic k, km_key = [], km_value = doc_FillEvent ?ev\<rparr>"
  have enc: "json_Marshal (doc_FillEvent ?ev) = Some (doc_FillEvent ?ev)"
    using assms(4-6) by (simp add: json_Marshal_def encodable_FillEvent completed_def)
  have pub: "bus_Publish b s data = kafka_WriteMessages \<lparr>km_topic = kp_topic k, km_key = [], km_value = data\<rparr>"
      for s data by (rule ext) (simp add: b_def SetDeadLetterHandler_def NewBus_def KafkaPublisher_Publish_def)
  have bus: "bus_maxRetries b = 3" "bus_deadLetter b = dl"
    by (simp_all add: b_def SetDeadLetterHandler_def NewBus_def)
  define e1 where "e1 = (if fe_EmittedAt ev = 0 then snd (time_Now e) else e)"
  have e1: "env_metrics e1 = env_metrics e" "env_slept e1 = env_slept e" by (simp_all add: e1_def)
  have v: "fe_Venue ?ev = fe_Venue ev" by (simp add: completed_def)
  have pf: "PublishFill b ctx ev (bk, h, e) =
      settle_fill b ?ev h (publish_attempts (kafka_WriteMessages ?msg) ctx 3 0 [] (bk, e1))"
    using assms(3) by (simp add: PublishFill_def stamp_fill_completed enc pub bus e1_def)
  obtain o' bk' e2 where run: "publish_attempts (kafka_WriteMessages ?msg) ctx 3 0 [] (bk, e1) = (o', bk', e2)"
    by (metis surj_pair)
  note spec = publish_attempts_spec [OF _ _ _ run, of "length (bk_log bk)" 4, folded ans_def]
  show ?thesis
  proof (cases "last_attempt ans ctx 0 4")
    case None
    then have "ans 3 \<noteq> None" by (auto simp: last_attempt_def find_None_iff)
    then obtain err where err: "ans 3 = Some err" by auto
    from spec None err show ?thesis
      by (auto simp: pf run e1 ans_def bus v)
  next
    case (Some i)
    then have i: "i < 4" "ans i = None \<or> ctx i \<noteq> None"
      using last_attempt_range [OF Some] by (auto simp: last_attempt_def find_Some_iff)
    show ?thesis
    proof (cases "ans i")
      case None
      with spec Some i show ?thesis by (auto simp: pf run e1 ans_def time_Now_def Let_def update_metrics_def v)
    next
      case (Some err)
      with i obtain c where "ctx i = Some c" by auto
      with spec Some \<open>last_attempt ans ctx 0 4 = Some i\<close> i show ?thesis by (auto simp: pf run e1 ans_def bus v)
    qed
  qed
qed

theorem PublishFill_delivery_witness:
  defines "ev \<equiv> FillFromVenue ''binance'' ''7'' ''BTCUSDT''
      \<lparr>fl_VenueOrderID = ''7'', fl_TradeID = ''t'', fl_Price = (1 :: rat), fl_Quantity = 2, fl_Fee = 0,
       fl_FeeAsset = ''USDT'', fl_Timestamp = 5\<rparr>"
    and "bk \<equiv> \<lparr>bk_answer = (\<lambda>n. if n = 2 then None else Some ''down''), bk_log = []\<rparr>"
    and "b \<equiv> SetDeadLetterHandler (\<lambda>ev err h. h @ [(ev, err)])
       (NewBus (KafkaPublisher_Publish (Some \<lparr>kp_brokers = [''h:9092''], kp_topic = ''recon''\<rparr>)) ''recon'')"
  shows "\<exists>bk' e'. PublishFill b (\<lambda>_. None) ev (bk, [], fixed_env) = (None, bk', [], e') \<and> length (bk_log bk') = 3"
proof -
  have enc: "fe_VenueOrderID ev \<noteq> []" "time_encodable (fe_Timestamp ev)" "time_encodable (fe_EmittedAt ev)"
      "time_encodable (env_clock fixed_env (env_ticks fixed_env))"
    by (simp_all add: ev_def FillFromVenue_def fixed_env_def time_encodable_def time_Year_def day_number_def
        year_yday_def Let_def)
  have la: "last_attempt (\<lambda>i. bk_answer bk (length (bk_log bk) + i)) (\<lambda>_. None) 0 4 = Some 2"
    by (simp add: last_attempt_def bk_def upt_conv_Cons)
  show ?thesis
    using PublishFill_delivery [OF enc, of "\<lambda>ev err h. h @ [(ev, err)]"
        "\<lparr>kp_brokers = [''h:9092''], kp_topic = ''recon''\<rparr>" "''recon''" "\<lambda>_. None" bk "[]", folded b_def]
    by (auto simp: la Let_def) (auto simp: bk_def)
qed

text \<open>
  The URL of the event bus is read back as written: for host names and a topic without the
  separators, \<open>kafka://h1,...,hn?topic=t\<close> gives a publisher with exactly these brokers and this
  topic, and without the query the topic is \<open>recon\<close>.
\<close>

theorem NewKafkaPublisherFromURL_roundtrip:
  assumes "hosts \<noteq> []" "topic \<noteq> []" "CHR ''&'' \<notin> set topic"
    and "list_all (\<lambda>h. h \<noteq> [] \<and> list_all (\<lambda>c. \<not> ascii_space c \<and> c \<noteq> CHR '','' \<and> c \<noteq> CHR ''?'') h) hosts"
  shows "NewKafkaPublisherFromURL (''kafka://'' @ Join hosts '','' @ ''?topic='' @ topic)
           = Inr \<lparr>kp_brokers = hosts, kp_topic = topic\<rparr>
       \<and> NewKafkaPublisherFromURL (''kafka://'' @ Join hosts '','')
           = Inr \<lparr>kp_brokers = hosts, kp_topic = ''recon''\<rparr>"
proof -
  have split: "Split (CHR '','') (Join hosts '','') = hosts"
    using assms(1,4) by (intro Split_Join) (auto simp: list_all_iff)
  have clean: "clean_brokers hosts = hosts"
    by (rule clean_brokers_id) (use assms(4) in \<open>auto simp: list_all_iff\<close>)
  have "CHR ''?'' \<notin> set (Join hosts '','')"
    by (rule notin_Join) (use assms(4) in \<open>auto simp: list_all_iff\<close>)
  note q = SplitN2_sep [OF this, of "''topic='' @ topic"] SplitN2_no_sep [OF this]
  have p: "HasPrefix (''kafka://'' @ s) ''kafka://''" "TrimPrefix (''kafka://'' @ s) ''kafka://'' = s" for s
    by (simp_all add: TrimPrefix_def)
  have tp: "topic_param [''topic='' @ topic] [] = topic" by (simp add: TrimPrefix_def)
  have "NewKafkaPublisherFromURL (''kafka://'' @ Join hosts '','' @ CHR ''?'' # ''topic='' @ topic)
           = Inr \<lparr>kp_brokers = hosts, kp_topic = topic\<rparr>"
    unfolding NewKafkaPublisherFromURL_def p q(1)
    using assms(1,2) tp by (simp add: split clean NewKafkaPublisher_def Split_no_sep [OF assms(3)])
  moreover have "NewKafkaPublisherFromURL (''kafka://'' @ Join hosts '','')
           = Inr \<lparr>kp_brokers = hosts, kp_topic = ''recon''\<rparr>"
    unfolding NewKafkaPublisherFromURL_def p q(2)
    using assms(1) by (simp add: split clean NewKafkaPublisher_def)
  ultimately show ?thesis by simp
qed

end
