(* ===== verification/GoCrypto.thy ===== *)
theory GoCrypto
  imports GoJson "HOL-Library.Word"
begin

text \<open>
  What the program uses of \<open>crypto/sha256\<close>, \<open>crypto/sha512\<close>, \<open>crypto/hmac\<close>, \<open>encoding/hex\<close> and
  \<open>encoding/base64\<close>, on byte strings: the two hash functions of FIPS 180-4 on machine words, the
  HMAC of RFC 2104, and the encodings of RFC 4648. The definitions evaluate to the published test
  vectors; base64 decoding is proved to invert encoding.
\<close>

unbundle bit_operations_syntax

section \<open>Words and bytes\<close>

definition rotr :: "nat \<Rightarrow> 'a::len word \<Rightarrow> 'a word" where
  "rotr n x = drop_bit n x OR push_bit (LENGTH('a) - n) x"

definition shr :: "nat \<Rightarrow> 'a::len word \<Rightarrow> 'a word" where
  "shr n x = drop_bit n x"

fun bytes_int :: "string \<Rightarrow> int \<Rightarrow> int" where
  "bytes_int [] acc = acc"
| "bytes_int (c # s) acc = bytes_int s (256 * acc + of_char c)"

text \<open>The \<open>n\<close> low bytes of a number, the most significant first.\<close>

fun int_bytes :: "nat \<Rightarrow> int \<Rightarrow> string" where
  "int_bytes 0 i = []"
| "int_bytes (Suc n) i = int_bytes n (i div 256) @ [char_of (i mod 256)]"

fun chunks :: "nat \<Rightarrow> nat \<Rightarrow> 'a list \<Rightarrow> 'a list list" where
  "chunks 0 n xs = []"
| "chunks (Suc k) n xs = (if xs = [] then [] else take n xs # chunks k n (drop n xs))"

definition words_of :: "nat \<Rightarrow> string \<Rightarrow> 'a::len word list" where
  "words_of n s = map (\<lambda>c. word_of_int (bytes_int c 0)) (chunks (length s) n s)"

text \<open>The message with a bit 1, zeros up to a whole block, and its length in bits.\<close>

definition pad_message :: "nat \<Rightarrow> nat \<Rightarrow> string \<Rightarrow> string" where
  "pad_message block lenbytes s =
     s @ [char_of (128 :: nat)]
       @ replicate ((2 * block - 1 - lenbytes - length s mod block) mod block) (char_of (0 :: nat))
       @ int_bytes lenbytes (8 * int (length s))"

definition Ch :: "'a::len word \<Rightarrow> 'a word \<Rightarrow> 'a word \<Rightarrow> 'a word" where
  "Ch x y z = (x AND y) XOR (NOT x AND z)"

definition Maj :: "'a::len word \<Rightarrow> 'a word \<Rightarrow> 'a word \<Rightarrow> 'a word" where
  "Maj x y z = (x AND y) XOR (x AND z) XOR (y AND z)"

text \<open>The message schedule, latest word first; a round; a block. The functions are parameters.\<close>

fun extend_schedule ::
    "('a::len word \<Rightarrow> 'a word) \<Rightarrow> ('a word \<Rightarrow> 'a word) \<Rightarrow> nat \<Rightarrow> 'a word list \<Rightarrow> 'a word list" where
  "extend_schedule s0 s1 0 ws = ws"
| "extend_schedule s0 s1 (Suc k) ws =
     extend_schedule s0 s1 k ((s1 (ws ! 1) + ws ! 6 + s0 (ws ! 14) + ws ! 15) # ws)"

type_synonym 'a hash_state = "'a word \<times> 'a word \<times> 'a word \<times> 'a word \<times> 'a word \<times> 'a word \<times> 'a word \<times> 'a word"

fun hash_round ::
    "('a::len word \<Rightarrow> 'a word) \<Rightarrow> ('a word \<Rightarrow> 'a word) \<Rightarrow> 'a word \<times> 'a word \<Rightarrow> 'a hash_state \<Rightarrow> 'a hash_state" where
  "hash_round S0 S1 (k, w) (a, b, c, d, e, f, g, h) =
     (let t1 = h + S1 e + Ch e f g + k + w;
          t2 = S0 a + Maj a b c
      in (t1 + t2, a, b, c, d + t1, e, f, g))"

fun add_state :: "'a::len hash_state \<Rightarrow> 'a hash_state \<Rightarrow> 'a hash_state" where
  "add_state (a, b, c, d, e, f, g, h) (a', b', c', d', e', f', g', h') =
     (a + a', b + b', c + c', d + d', e + e', f + f', g + g', h + h')"

fun state_words :: "'a::len hash_state \<Rightarrow> 'a word list" where
  "state_words (a, b, c, d, e, f, g, h) = [a, b, c, d, e, f, g, h]"

section \<open>SHA-256\<close>

definition sha256_K :: "32 word list" where
  "sha256_K =
     [0x428a2f98, 0x71374491, 0xb5c0fbcf, 0xe9b5dba5, 0x3956c25b, 0x59f111f1, 0x923f82a4, 0xab1c5ed5,
      0xd807aa98, 0x12835b01, 0x243185be, 0x550c7dc3, 0x72be5d74, 0x80deb1fe, 0x9bdc06a7, 0xc19bf174,
      0xe49b69c1, 0xefbe4786, 0x0fc19dc6, 0x240ca1cc, 0x2de92c6f, 0x4a7484aa, 0x5cb0a9dc, 0x76f988da,
      0x983e5152, 0xa831c66d, 0xb00327c8, 0xbf597fc7, 0xc6e00bf3, 0xd5a79147, 0x06ca6351, 0x14292967,
      0x27b70a85, 0x2e1b2138, 0x4d2c6dfc, 0x53380d13, 0x650a7354, 0x766a0abb, 0x81c2c92e, 0x92722c85,
      0xa2bfe8a1, 0xa81a664b, 0xc24b8b70, 0xc76c51a3, 0xd192e819, 0xd6990624, 0xf40e3585, 0x106aa070,
      0x19a4c116, 0x1e376c08, 0x2748774c, 0x34b0bcb5, 0x391c0cb3, 0x4ed8aa4a, 0x5b9cca4f, 0x682e6ff3,
      0x748f82ee, 0x78a5636f, 0x84c87814, 0x8cc70208, 0x90befffa, 0xa4506ceb, 0xbef9a3f7, 0xc67178f2]"

definition sha256_init :: "32 hash_state" where
  "sha256_init =
     (0x6a09e667, 0xbb67ae85, 0x3c6ef372, 0xa54ff53a,
      0x510e527f, 0x9b05688c, 0x1f83d9ab, 0x5be0cd19)"

definition sha256_S0 :: "32 word \<Rightarrow> 32 word" where
  "sha256_S0 x = rotr 2 x XOR rotr 13 x XOR rotr 22 x"

definition sha256_S1 :: "32 word \<Rightarrow> 32 word" where
  "sha256_S1 x = rotr 6 x XOR rotr 11 x XOR rotr 25 x"

definition sha256_s0 :: "32 word \<Rightarrow> 32 word" where
  "sha256_s0 x = rotr 7 x XOR rotr 18 x XOR shr 3 x"

definition sha256_s1 :: "32 word \<Rightarrow> 32 word" where
  "sha256_s1 x = rotr 17 x XOR rotr 19 x XOR shr 10 x"

definition sha256_block :: "string \<Rightarrow> 32 hash_state \<Rightarrow> 32 hash_state" where
  "sha256_block s st =
     add_state st (fold (hash_round sha256_S0 sha256_S1)
       (zip sha256_K (rev (extend_schedule sha256_s0 sha256_s1 48 (rev (words_of 4 s))))) st)"

definition Sum256 :: "string \<Rightarrow> string" where
  "Sum256 s =
     (let p = pad_message 64 8 s
      in concat (map (\<lambda>w. int_bytes 4 (uint w))
           (state_words (fold sha256_block (chunks (length p) 64 p) sha256_init))))"

section \<open>SHA-512\<close>

definition sha512_K :: "64 word list" where
  "sha512_K =
     [0x428a2f98d728ae22, 0x7137449123ef65cd, 0xb5c0fbcfec4d3b2f, 0xe9b5dba58189dbbc,
      0x3956c25bf348b538, 0x59f111f1b605d019, 0x923f82a4af194f9b, 0xab1c5ed5da6d8118,
      0xd807aa98a3030242, 0x12835b0145706fbe, 0x243185be4ee4b28c, 0x550c7dc3d5ffb4e2,
      0x72be5d74f27b896f, 0x80deb1fe3b1696b1, 0x9bdc06a725c71235, 0xc19bf174cf692694,
      0xe49b69c19ef14ad2, 0xefbe4786384f25e3, 0x0fc19dc68b8cd5b5, 0x240ca1cc77ac9c65,
      0x2de92c6f592b0275, 0x4a7484aa6ea6e483, 0x5cb0a9dcbd41fbd4, 0x76f988da831153b5,
      0x983e5152ee66dfab, 0xa831c66d2db43210, 0xb00327c898fb213f, 0xbf597fc7beef0ee4,
      0xc6e00bf33da88fc2, 0xd5a79147930aa725, 0x06ca6351e003826f, 0x142929670a0e6e70,
      0x27b70a8546d22ffc, 0x2e1b21385c26c926, 0x4d2c6dfc5ac42aed, 0x53380d139d95b3df,
      0x650a73548baf63de, 0x766a0abb3c77b2a8, 0x81c2c92e47edaee6, 0x92722c851482353b,
      0xa2bfe8a14cf10364, 0xa81a664bbc423001, 0xc24b8b70d0f89791, 0xc76c51a30654be30,
      0xd192e819d6ef5218, 0xd69906245565a910, 0xf40e35855771202a, 0x106aa07032bbd1b8,
      0x19a4c116b8d2d0c8, 0x1e376c085141ab53, 0x2748774cdf8eeb99, 0x34b0bcb5e19b48a8,
      0x391c0cb3c5c95a63, 0x4ed8aa4ae3418acb, 0x5b9cca4f7763e373, 0x682e6ff3d6b2b8a3,
      0x748f82ee5defb2fc, 0x78a5636f43172f60, 0x84c87814a1f0ab72, 0x8cc702081a6439ec,
      0x90befffa23631e28, 0xa4506cebde82bde9, 0xbef9a3f7b2c67915, 0xc67178f2e372532b,
      0xca273eceea26619c, 0xd186b8c721c0c207, 0xeada7dd6cde0eb1e, 0xf57d4f7fee6ed178,
      0x06f067aa72176fba, 0x0a637dc5a2c898a6, 0x113f9804bef90dae, 0x1b710b35131c471b,
      0x28db77f523047d84, 0x32caab7b40c72493, 0x3c9ebe0a15c9bebc, 0x431d67c49c100d4c,
      0x4cc5d4becb3e42b6, 0x597f299cfc657e2a, 0x5fcb6fab3ad6faec, 0x6c44198c4a475817]"

definition sha512_init :: "64 hash_state" where
  "sha512_init =
     (0x6a09e667f3bcc908, 0xbb67ae8584caa73b, 0x3c6ef372fe94f82b, 0xa54ff53a5f1d36f1,
      0x510e527fade682d1, 0x9b05688c2b3e6c1f, 0x1f83d9abfb41bd6b, 0x5be0cd19137e2179)"

definition sha512_S0 :: "64 word \<Rightarrow> 64 word" where
  "sha512_S0 x = rotr 28 x XOR rotr 34 x XOR rotr 39 x"

definition sha512_S1 :: "64 word \<Rightarrow> 64 word" where
  "sha512_S1 x = rotr 14 x XOR rotr 18 x XOR rotr 41 x"

definition sha512_s0 :: "64 word \<Rightarrow> 64 word" where
  "sha512_s0 x = rotr 1 x XOR rotr 8 x XOR shr 7 x"

definition sha512_s1 :: "64 word \<Rightarrow> 64 word" where
  "sha512_s1 x = rotr 19 x XOR rotr 61 x XOR shr 6 x"

definition sha512_block :: "string \<Rightarrow> 64 hash_state \<Rightarrow> 64 hash_state" where
  "sha512_block s st =
     add_state st (fold (hash_round sha512_S0 sha512_S1)
       (zip sha512_K (rev (extend_schedule sha512_s0 sha512_s1 64 (rev (words_of 8 s))))) st)"

definition Sum512 :: "string \<Rightarrow> string" where
  "Sum512 s =
     (let p = pad_message 128 16 s
      in concat (map (\<lambda>w. int_bytes 8 (uint w))
           (state_words (fold sha512_block (chunks (length p) 128 p) sha512_init))))"

section \<open>HMAC\<close>

definition xor_byte :: "nat \<Rightarrow> char \<Rightarrow> char" where
  "xor_byte n c = char_of (n XOR of_char c)"

definition hmac :: "(string \<Rightarrow> string) \<Rightarrow> nat \<Rightarrow> string \<Rightarrow> string \<Rightarrow> string" where
  "hmac H block key msg =
     (let k0 = (if length key > block then H key else key);
          k = k0 @ replicate (block - length k0) (char_of (0 :: nat))
      in H (map (xor_byte 92) k @ H (map (xor_byte 54) k @ msg)))"

definition hmac_sha256 :: "string \<Rightarrow> string \<Rightarrow> string" where
  "hmac_sha256 key msg = hmac Sum256 64 key msg"

definition hmac_sha512 :: "string \<Rightarrow> string \<Rightarrow> string" where
  "hmac_sha512 key msg = hmac Sum512 128 key msg"

section \<open>Hexadecimal\<close>

definition hex_EncodeToString :: "string \<Rightarrow> string" where
  "hex_EncodeToString s = concat (map (\<lambda>c. [hex_char (byte c div 16), hex_char (byte c mod 16)]) s)"

section \<open>Base64\<close>

fun b64_digits :: "nat list \<Rightarrow> nat list" where
  "b64_digits (a # b # c # bs) =
     [a div 4, a mod 4 * 16 + b div 16, b mod 16 * 4 + c div 64, c mod 64] @ b64_digits bs"
| "b64_digits [a, b] = [a div 4, a mod 4 * 16 + b div 16, b mod 16 * 4]"
| "b64_digits [a] = [a div 4, a mod 4 * 16]"
| "b64_digits [] = []"

text \<open>Spare low bits of the last digit are ignored, one digit alone is an error.\<close>

fun b64_undigits :: "nat list \<Rightarrow> nat list option" where
  "b64_undigits (p # q # r # s # ds) =
     map_option (\<lambda>bs. [p * 4 + q div 16, q mod 16 * 16 + r div 4, r mod 4 * 64 + s] @ bs) (b64_undigits ds)"
| "b64_undigits [p, q, r] = Some [p * 4 + q div 16, q mod 16 * 16 + r div 4]"
| "b64_undigits [p, q] = Some [p * 4 + q div 16]"
| "b64_undigits [p] = None"
| "b64_undigits [] = Some []"

text \<open>The alphabets: URL-safe with \<open>-\<close> and \<open>_\<close>, standard with \<open>+\<close> and \<open>/\<close>.\<close>

definition b64_char :: "bool \<Rightarrow> nat \<Rightarrow> char" where
  "b64_char url n =
     (if n < 26 then char_of (65 + n) else if n < 52 then char_of (71 + n)
      else if n < 62 then char_of (n - 4)
      else if n = 62 then (if url then CHR ''-'' else CHR ''+'')
      else (if url then CHR ''_'' else CHR ''/''))"

definition b64_value :: "bool \<Rightarrow> char \<Rightarrow> nat option" where
  "b64_value url c =
     (let n = byte c in
      if 65 \<le> n \<and> n \<le> 90 then Some (n - 65)
      else if 97 \<le> n \<and> n \<le> 122 then Some (n - 71)
      else if 48 \<le> n \<and> n \<le> 57 then Some (n + 4)
      else if c = (if url then CHR ''-'' else CHR ''+'') then Some 62
      else if c = (if url then CHR ''_'' else CHR ''/'') then Some 63
      else None)"

definition b64_encode :: "bool \<Rightarrow> string \<Rightarrow> string" where
  "b64_encode url s = map (b64_char url) (b64_digits (map byte s))"

fun b64_values :: "bool \<Rightarrow> string \<Rightarrow> nat list option" where
  "b64_values url [] = Some []"
| "b64_values url (c # s) =
     (case b64_value url c of None \<Rightarrow> None | Some v \<Rightarrow> map_option ((#) v) (b64_values url s))"

definition b64_decode :: "bool \<Rightarrow> string \<Rightarrow> string option" where
  "b64_decode url s =
     (case b64_values url s of None \<Rightarrow> None
      | Some ds \<Rightarrow> map_option (map char_of) (b64_undigits ds))"

text \<open>Decoding skips carriage returns and newlines.\<close>

definition drop_newlines :: "string \<Rightarrow> string" where
  "drop_newlines s = filter (\<lambda>c. byte c \<noteq> 10 \<and> byte c \<noteq> 13) s"

definition RawURLEncoding_EncodeToString :: "string \<Rightarrow> string" where
  "RawURLEncoding_EncodeToString s = b64_encode True s"

definition RawURLEncoding_DecodeString :: "string \<Rightarrow> string option" where
  "RawURLEncoding_DecodeString s = b64_decode True (drop_newlines s)"

text \<open>The standard encoding pads to a multiple of four and wants the padding.\<close>

definition StdEncoding_EncodeToString :: "string \<Rightarrow> string" where
  "StdEncoding_EncodeToString s =
     (let r = b64_encode False s in r @ replicate ((4 - length r mod 4) mod 4) (CHR ''=''))"

text \<open>
  The bytes that \<open>DecodeString\<close> returns, also beside an error: decoding goes on in groups of four
  until a group is incomplete or wrong.
\<close>

fun std_groups :: "string \<Rightarrow> string" where
  "std_groups (p # q # r # s # t) =
     (case (b64_value False p, b64_value False q) of
        (Some a, Some b) \<Rightarrow>
          (case b64_value False r of
             None \<Rightarrow> if r = CHR ''='' \<and> s = CHR ''='' then [char_of (a * 4 + b div 16)] else []
           | Some c \<Rightarrow>
               (case b64_value False s of
                  None \<Rightarrow> if s = CHR ''='' then [char_of (a * 4 + b div 16), char_of (b mod 16 * 16 + c div 4)] else []
                | Some d \<Rightarrow> [char_of (a * 4 + b div 16), char_of (b mod 16 * 16 + c div 4), char_of (c mod 4 * 64 + d)]
                            @ std_groups t))
      | _ \<Rightarrow> [])"
| "std_groups _ = []"

definition StdEncoding_bytes :: "string \<Rightarrow> string" where
  "StdEncoding_bytes s = std_groups (drop_newlines s)"

lemma b64_value_char [simp]: "n < 64 \<Longrightarrow> b64_value url (b64_char url n) = Some n"
  by (cases url) (auto simp: b64_value_def b64_char_def Let_def of_char_of)

lemma b64_values_chars: "list_all (\<lambda>n. n < 64) ds \<Longrightarrow> b64_values url (map (b64_char url) ds) = Some ds"
  by (induction ds) auto

lemma regroup:
  fixes a b c :: nat
  shows "b < 256 \<Longrightarrow> a div 4 * 4 + (a mod 4 * 16 + b div 16) div 16 = a"
    and "b < 256 \<Longrightarrow> c < 256 \<Longrightarrow> (a mod 4 * 16 + b div 16) mod 16 * 16 + (b mod 16 * 4 + c div 64) div 4 = b"
    and "c < 256 \<Longrightarrow> (b mod 16 * 4 + c div 64) mod 4 * 64 + c mod 64 = c"
    and "a < 256 \<Longrightarrow> a div 4 < 64" "b < 256 \<Longrightarrow> a mod 4 * 16 + b div 16 < 64"
    and "c < 256 \<Longrightarrow> b mod 16 * 4 + c div 64 < 64"
proof -
  have small: "x < 256 \<Longrightarrow> x div 16 < 16" "x < 256 \<Longrightarrow> x div 64 < 4" "x < 256 \<Longrightarrow> x div 4 < 64" for x :: nat
    by (simp_all add: less_mult_imp_div_less)
  have high: "x < 16 \<Longrightarrow> (p * 16 + x) div 16 = p" "x < 16 \<Longrightarrow> (p * 16 + x) mod 16 = x"
      "x < 4 \<Longrightarrow> (p * 4 + x) div 4 = p" "x < 4 \<Longrightarrow> (p * 4 + x) mod 4 = x" for p x :: nat
    by simp_all
  show "b < 256 \<Longrightarrow> a div 4 * 4 + (a mod 4 * 16 + b div 16) div 16 = a"
    by (simp only: high small div_mult_mod_eq)
  show "b < 256 \<Longrightarrow> c < 256 \<Longrightarrow> (a mod 4 * 16 + b div 16) mod 16 * 16 + (b mod 16 * 4 + c div 64) div 4 = b"
    by (simp only: high small div_mult_mod_eq)
  show "c < 256 \<Longrightarrow> (b mod 16 * 4 + c div 64) mod 4 * 64 + c mod 64 = c"
    by (simp only: high small div_mult_mod_eq)
  have m: "a mod 4 < 4" "b mod 16 < 16" by simp_all
  show "a < 256 \<Longrightarrow> a div 4 < 64" by (rule small)
  show "b < 256 \<Longrightarrow> a mod 4 * 16 + b div 16 < 64" using small(1) [of b] m(1) by linarith
  show "c < 256 \<Longrightarrow> b mod 16 * 4 + c div 64 < 64" using small(2) [of c] m(2) by linarith
qed

lemma b64_undigits_digits: "list_all (\<lambda>n. n < 256) bs \<Longrightarrow> b64_undigits (b64_digits bs) = Some bs"
proof (induction bs rule: b64_digits.induct)
  case (1 a b c bs)
  then show ?case using regroup(1) [of b a] regroup(2) [of b c a] regroup(3) [of c b] by simp
next
  case (2 a b)
  then show ?case using regroup(1) [of b a] regroup(2) [of b 0 a] by simp
next
  case (3 a)
  then show ?case using regroup(1) [of 0 a] by simp
qed simp

lemma b64_digits_range: "list_all (\<lambda>n. n < 256) bs \<Longrightarrow> list_all (\<lambda>n. n < 64) (b64_digits bs)"
proof (induction bs rule: b64_digits.induct)
  case (1 a b c bs)
  then show ?case using regroup(4) [of a] regroup(5) [of b a] regroup(6) [of c b] by simp
next
  case (2 a b)
  then show ?case using regroup(4) [of a] regroup(5) [of b a] regroup(6) [of 0 b] by simp
next
  case (3 a)
  then show ?case using regroup(4) [of a] regroup(5) [of 0 a] by simp
qed simp

lemma bytes_range: "list_all (\<lambda>n. n < 256) (map byte s)"
  by (induction s) auto

theorem b64_decode_encode: "b64_decode url (b64_encode url s) = Some s"
  using b64_undigits_digits [OF bytes_range] b64_values_chars [OF b64_digits_range [OF bytes_range]]
  by (simp add: b64_decode_def b64_encode_def comp_def)

lemma b64_char_alphabet:
  assumes "n < 64" "b64_value url c = None"
  shows "b64_char url n \<noteq> c"
  using assms b64_value_char [of n url] by auto

lemma b64_encode_alphabet: "b64_value url c = None \<Longrightarrow> c \<notin> set (b64_encode url s)"
  using b64_digits_range [OF bytes_range, of s] b64_char_alphabet [of _ url c]
  by (auto simp: b64_encode_def list_all_iff)

lemma newline_no_value: "byte c = 10 \<or> byte c = 13 \<Longrightarrow> b64_value url c = None"
  by (auto simp: b64_value_def Let_def)

lemma drop_newlines_encode [simp]: "drop_newlines (b64_encode url s) = b64_encode url s"
proof -
  have "byte c \<noteq> 10 \<and> byte c \<noteq> 13" if "c \<in> set (b64_encode url s)" for c
    using that b64_encode_alphabet [OF newline_no_value [of c url], of s] by auto
  then show ?thesis by (auto simp: drop_newlines_def intro: filter_True)
qed

theorem RawURLEncoding_roundtrip:
  "RawURLEncoding_DecodeString (RawURLEncoding_EncodeToString s) = Some s"
  by (simp add: RawURLEncoding_DecodeString_def RawURLEncoding_EncodeToString_def b64_decode_encode)

lemma dot_not_encoded: "CHR ''.'' \<notin> set (RawURLEncoding_EncodeToString s)"
  unfolding RawURLEncoding_EncodeToString_def
  by (rule b64_encode_alphabet) (simp add: b64_value_def)

lemma equals_no_value: "b64_value url (CHR ''='') = None"
  by (cases url) (simp_all add: b64_value_def Let_def)

lemma std_groups_digits:
  "list_all (\<lambda>n. n < 256) bs \<Longrightarrow> std_groups (map (b64_char False) (b64_digits bs)
      @ replicate ((4 - length (b64_digits bs) mod 4) mod 4) (CHR ''='')) = map char_of bs"
proof (induction bs rule: b64_digits.induct)
  case (1 a b c bs)
  define p q r s where d: "p = a div 4" "q = a mod 4 * 16 + b div 16" "r = b mod 16 * 4 + c div 64" "s = c mod 64"
  have "p * 4 + q div 16 = a" "q mod 16 * 16 + r div 4 = b" "r mod 4 * 64 + s = c" "p < 64" "q < 64" "r < 64" "s < 64"
    unfolding d by (rule regroup; use 1(2) in simp)+ simp
  moreover have "b64_digits (a # b # c # bs) = [p, q, r, s] @ b64_digits bs" by (simp add: d)
  ultimately show ?case using 1 by (simp del: b64_digits.simps)
next
  case (2 a b)
  define p q r where d: "p = a div 4" "q = a mod 4 * 16 + b div 16" "r = b mod 16 * 4 + 0 div 64"
  have "p * 4 + q div 16 = a" "q mod 16 * 16 + r div 4 = b" "p < 64" "q < 64" "r < 64"
    unfolding d by (rule regroup; use 2 in simp)+
  moreover have "b64_digits [a, b] = [p, q, r]" by (simp add: d)
  ultimately show ?case by (simp add: equals_no_value del: b64_digits.simps)
next
  case (3 a)
  define p q where d: "p = a div 4" "q = a mod 4 * 16 + 0 div 16"
  have "p * 4 + q div 16 = a" "p < 64" "q < 64"
    unfolding d by (rule regroup; use 3 in simp)+
  moreover have "b64_digits [a] = [p, q]" by (simp add: d)
  moreover have "replicate 2 (CHR ''='') = ''==''" by (simp add: eval_nat_numeral)
  ultimately show ?case by (simp add: equals_no_value del: b64_digits.simps)
qed simp

lemma StdEncoding_bytes_encode: "StdEncoding_bytes (StdEncoding_EncodeToString s) = s"
proof -
  have "drop_newlines (StdEncoding_EncodeToString s) = StdEncoding_EncodeToString s"
    using drop_newlines_encode [of False s] by (simp add: StdEncoding_EncodeToString_def drop_newlines_def Let_def)
  then show ?thesis
    using std_groups_digits [OF bytes_range, of s]
    by (simp add: StdEncoding_bytes_def StdEncoding_EncodeToString_def b64_encode_def Let_def comp_def)
qed

end
