(* ===== verification/AuditTrail.thy ===== *)
theory AuditTrail
  imports Events GoCrypto "HOL-Library.Sublist"
begin

text \<open>
  The audit trail of \<open>internal/audit\<close>: events, the sinks that take them (in memory, log, Kafka,
  the counting stand-in for gRPC) and the asynchronous sink with its bounded queue. A sink is
  the effect of its \<open>Emit\<close> on its own state and the environment. The asynchronous sink is a
  state machine: callers offer events, one goroutine takes them, \<open>Close\<close> closes the channel.
\<close>

section \<open>Events\<close>

abbreviation EventOrderPlaced :: string where "EventOrderPlaced \<equiv> ''order_placed''"
abbreviation EventOrderCanceled :: string where "EventOrderCanceled \<equiv> ''order_canceled''"
abbreviation EventOrderUpdated :: string where "EventOrderUpdated \<equiv> ''order_updated''"
abbreviation EventFill :: string where "EventFill \<equiv> ''fill''"
abbreviation EventBalanceSnapshot :: string where "EventBalanceSnapshot \<equiv> ''balance_snapshot''"
abbreviation EventCredRotation :: string where "EventCredRotation \<equiv> ''credential_rotation''"

record 'd FillDetail =
  fd_TradeID :: string
  fd_Price :: 'd
  fd_Quantity :: 'd
  fd_Fee :: 'd
  fd_FeeAsset :: string
  fd_TS :: instant

record 'd BalanceDetail =
  bd_Asset :: string
  bd_Free :: 'd
  bd_Locked :: 'd

record 'd audit_Event =
  ae_Type :: string
  ae_Venue :: string
  ae_Timestamp :: instant
  ae_OrderID :: string
  ae_ClientID :: string
  ae_Pair :: string
  ae_Side :: string
  ae_OrderType :: string
  ae_Quantity :: 'd
  ae_Price :: 'd
  ae_Fill :: "'d FillDetail option"
  ae_Balance :: "'d BalanceDetail option"
  ae_TraceID :: string

text \<open>An event with only its type and venue set, the other fields being Go's zero values.\<close>

definition new_Event :: "'d decimal_ops \<Rightarrow> string \<Rightarrow> string \<Rightarrow> 'd audit_Event" where
  "new_Event D type venue =
     \<lparr>ae_Type = type, ae_Venue = venue, ae_Timestamp = 0, ae_OrderID = [], ae_ClientID = [],
      ae_Pair = [], ae_Side = [], ae_OrderType = [], ae_Quantity = d_Zero D, ae_Price = d_Zero D,
      ae_Fill = None, ae_Balance = None, ae_TraceID = []\<rparr>"

text \<open>Members tagged \<open>omitempty\<close>: an empty string and a nil pointer are left out, a decimal never is.\<close>

definition omit_empty :: "string \<Rightarrow> string \<Rightarrow> (string \<times> 'd jdoc) list" where
  "omit_empty k s = (if s = [] then [] else [(k, DStr s)])"

definition doc_FillDetail :: "'d FillDetail \<Rightarrow> 'd jdoc" where
  "doc_FillDetail f = DObj
     [(''trade_id'', DStr (fd_TradeID f)), (''price'', DDec (fd_Price f)), (''quantity'', DDec (fd_Quantity f)),
      (''fee'', DDec (fd_Fee f)), (''fee_asset'', DStr (fd_FeeAsset f)), (''ts'', DTime (fd_TS f))]"

definition doc_BalanceDetail :: "'d BalanceDetail \<Rightarrow> 'd jdoc" where
  "doc_BalanceDetail b = DObj
     [(''asset'', DStr (bd_Asset b)), (''free'', DDec (bd_Free b)), (''locked'', DDec (bd_Locked b))]"

definition doc_Event :: "'d audit_Event \<Rightarrow> 'd jdoc" where
  "doc_Event ev = DObj
     ([(''type'', DStr (ae_Type ev)), (''venue'', DStr (ae_Venue ev)), (''timestamp'', DTime (ae_Timestamp ev))]
      @ omit_empty ''order_id'' (ae_OrderID ev) @ omit_empty ''client_id'' (ae_ClientID ev)
      @ omit_empty ''pair'' (ae_Pair ev) @ omit_empty ''side'' (ae_Side ev)
      @ omit_empty ''order_type'' (ae_OrderType ev)
      @ [(''quantity'', DDec (ae_Quantity ev)), (''price'', DDec (ae_Price ev))]
      @ (case ae_Fill ev of None \<Rightarrow> [] | Some f \<Rightarrow> [(''fill'', doc_FillDetail f)])
      @ (case ae_Balance ev of None \<Rightarrow> [] | Some b \<Rightarrow> [(''balance'', doc_BalanceDetail b)])
      @ omit_empty ''trace_id'' (ae_TraceID ev))"

type_synonym ('k, 'd) Sink = "'d audit_Event \<Rightarrow> 'k \<times> env \<Rightarrow> 'k \<times> env"

text \<open>The time stamp every buffering sink puts on an event that has none.\<close>

definition stamp_event :: "'d audit_Event \<Rightarrow> env \<Rightarrow> 'd audit_Event \<times> env" where
  "stamp_event ev e =
     (if time_IsZero (ae_Timestamp ev)
      then (let (now, e') = time_Now e in (ev\<lparr>ae_Timestamp := now\<rparr>, e'))
      else (ev, e))"

section \<open>Simple sinks\<close>

type_synonym 'd InMemorySink = "'d audit_Event list"

definition NewInMemorySink :: "'d InMemorySink" where
  "NewInMemorySink = []"

definition InMemorySink_Emit :: "('d InMemorySink, 'd) Sink" where
  "InMemorySink_Emit ev = (\<lambda>(s, e0). let (ev', e1) = stamp_event ev e0 in (s @ [ev'], e1))"

definition InMemorySink_Events :: "'d InMemorySink \<Rightarrow> 'd audit_Event list" where
  "InMemorySink_Events s = s"

definition InMemorySink_Count :: "'d InMemorySink \<Rightarrow> nat" where
  "InMemorySink_Count s = length s"

record gRPCClient =
  gc_url :: string
  gc_venue :: string

definition gRPCClient_Emit :: "(gRPCClient, 'd) Sink" where
  "gRPCClient_Emit ev = (\<lambda>(g, e). (g, update_metrics [Inc AuditEventsEmittedTotal [gc_venue g, ae_Type ev]] e))"

text \<open>The state of the log sink is the lines its logger printed.\<close>

definition logSink_Emit :: "(string list, 'd) Sink" where
  "logSink_Emit ev = (\<lambda>(ls, e).
     (ls @ [''audit: type='' @ ae_Type ev @ '' venue='' @ ae_Venue ev @ '' order='' @ ae_OrderID ev], e))"

text \<open>\<open>tp\<close> is the trace propagator's answer for the context, \<open>None\<close> when there is no propagator.\<close>

definition EmitWithTrace ::
    "('k, 'd) Sink option \<Rightarrow> 'd audit_Event \<Rightarrow> string option \<Rightarrow> 'k \<times> env \<Rightarrow> 'k \<times> env" where
  "EmitWithTrace sink ev tp ke =
     (let ev' = (case tp of None \<Rightarrow> ev | Some t \<Rightarrow> ev\<lparr>ae_TraceID := t\<rparr>)
      in case sink of None \<Rightarrow> ke | Some emit \<Rightarrow> emit ev' ke)"

section \<open>The Kafka sink\<close>

abbreviation AuditTopic :: string where "AuditTopic \<equiv> ''audit.v1''"

record KafkaSink =
  ks_brokers :: "string list"
  ks_venue :: string
  ks_dropped :: int

definition NewKafkaSink :: "string list \<Rightarrow> string \<Rightarrow> string + KafkaSink" where
  "NewKafkaSink brokers venue =
     (if brokers = [] then Inl ''audit kafka: no brokers provided''
      else Inr \<lparr>ks_brokers = brokers, ks_venue = venue, ks_dropped = 0\<rparr>)"

definition event_id :: "'d audit_Event \<Rightarrow> string" where
  "event_id ev =
     (if ae_OrderID ev = [] then ae_Venue ev @ ''-'' @ format_RFC3339Nano (ae_Timestamp ev) else ae_OrderID ev)"

text \<open>The envelope is a map, so its members are sorted by key; the hash is over the payload's bytes.\<close>

definition envelope :: "'d decimal_ops \<Rightarrow> 'd audit_Event \<Rightarrow> 'd jdoc \<Rightarrow> 'd jdoc" where
  "envelope D ev payload = DObj
     [(''action'', DStr (ae_Type ev)), (''actor_id'', DStr ''exchange-connectors''), (''id'', DStr (event_id ev)),
      (''payload'', payload),
      (''payload_hash'', DStr (''sha256:'' @ hex_EncodeToString (Sum256 (jdoc_text D payload)))),
      (''schema_version'', DStr ''1''), (''source_service'', DStr ''exchange-connectors''),
      (''target_id'', DStr (ae_OrderID ev)), (''target_type'', DStr ''order''),
      (''ts'', DStr (format_RFC3339Nano (ae_Timestamp ev)))]"

definition KafkaSink_Emit :: "'d decimal_ops \<Rightarrow> ('d broker \<times> KafkaSink, 'd) Sink" where
  "KafkaSink_Emit D ev0 = (\<lambda>((bk, s), e0).
     (let (ev, e1) = stamp_event ev0 e0 in
      case json_Marshal (doc_Event ev) of
        None \<Rightarrow> ((bk, s), e1)
      | Some payload \<Rightarrow>
          (case json_Marshal (envelope D ev payload) of
             None \<Rightarrow> ((bk, s), e1)
           | Some body \<Rightarrow>
               (case kafka_WriteMessages \<lparr>km_topic = AuditTopic, km_key = event_id ev, km_value = body\<rparr> bk of
                  (Some err, bk') \<Rightarrow>
                    ((bk', s\<lparr>ks_dropped := wrap64 (ks_dropped s + 1)\<rparr>),
                     update_metrics [Inc AuditDroppedTotal [ks_venue s, ae_Type ev]] e1)
                | (None, bk') \<Rightarrow>
                    ((bk', s), update_metrics [Inc AuditEventsEmittedTotal [ks_venue s, ae_Type ev]] e1)))))"

definition KafkaSink_Dropped :: "KafkaSink \<Rightarrow> int" where
  "KafkaSink_Dropped s = ks_dropped s"

section \<open>The asynchronous sink\<close>

text \<open>Where the goroutine of \<open>loop\<close> is: about to receive, blocked in the receive, handling an event, gone.\<close>

datatype 'd loop_pc = LoopRange | LoopWaiting | LoopHandling "'d audit_Event" | LoopExit

record 'd AsyncSink =
  as_queue :: "'d audit_Event list"
  as_size :: nat
  as_closed :: bool
  as_venue :: string
  as_dropped :: int
  as_loop :: "'d loop_pc"

text \<open>\<open>make(chan Event, queueSize)\<close> panics (\<open>None\<close>) on a negative size.\<close>

definition NewAsyncSink :: "int \<Rightarrow> string \<Rightarrow> 'd AsyncSink option" where
  "NewAsyncSink queueSize venue =
     (if queueSize < 0 then None
      else Some \<lparr>as_queue = [], as_size = nat queueSize, as_closed = False, as_venue = venue,
                 as_dropped = 0, as_loop = LoopRange\<rparr>)"

text \<open>
  The non-blocking send: it panics on a closed channel (\<open>None\<close>), hands the event to a blocked
  receiver, else stores it when there is room; the flag says whether the send happened.
\<close>

definition chan_send :: "'d audit_Event \<Rightarrow> 'd AsyncSink \<Rightarrow> ('d AsyncSink \<times> bool) option" where
  "chan_send ev s =
     (if as_closed s then None
      else if as_loop s = LoopWaiting then Some (s\<lparr>as_loop := LoopHandling ev\<rparr>, True)
      else if length (as_queue s) < as_size s then Some (s\<lparr>as_queue := as_queue s @ [ev]\<rparr>, True)
      else Some (s, False))"

definition AsyncSink_Emit :: "'d audit_Event \<Rightarrow> 'd AsyncSink \<times> env \<Rightarrow> ('d AsyncSink \<times> env) option" where
  "AsyncSink_Emit ev0 = (\<lambda>(s, e0).
     (let (ev, e1) = stamp_event ev0 e0 in
      case chan_send ev s of
        None \<Rightarrow> None
      | Some (s', True) \<Rightarrow> Some (s', e1)
      | Some (s', False) \<Rightarrow>
          Some (s'\<lparr>as_dropped := wrap64 (as_dropped s' + 1)\<rparr>,
                update_metrics [Inc AuditDroppedTotal [as_venue s', ae_Type ev]] e1)))"

definition AsyncSink_Close :: "'d AsyncSink \<Rightarrow> 'd AsyncSink" where
  "AsyncSink_Close s = (if as_closed s then s else s\<lparr>as_closed := True\<rparr>)"

definition AsyncSink_Dropped :: "'d AsyncSink \<Rightarrow> int" where
  "AsyncSink_Dropped s = as_dropped s"

text \<open>
  A step of the goroutine. Handling an event passes it to the delegate, if there is one, and
  counts it; the third component is what was handled.
\<close>

definition AsyncSink_loop ::
    "('k, 'd) Sink option \<Rightarrow> 'd AsyncSink \<times> 'k \<times> env \<Rightarrow> ('d AsyncSink \<times> 'k \<times> env) \<times> 'd audit_Event list" where
  "AsyncSink_loop delegate = (\<lambda>(s, k, e).
     (case as_loop s of
        LoopHandling ev \<Rightarrow>
          (let (k', e') = (case delegate of None \<Rightarrow> (k, e) | Some emit \<Rightarrow> emit ev (k, e))
           in ((s\<lparr>as_loop := LoopRange\<rparr>, k',
                update_metrics [Inc AuditEventsEmittedTotal [as_venue s, ae_Type ev]] e'), [ev]))
      | LoopExit \<Rightarrow> ((s, k, e), [])
      | _ \<Rightarrow>
          (case as_queue s of
             ev # q \<Rightarrow> ((s\<lparr>as_queue := q, as_loop := LoopHandling ev\<rparr>, k, e), [])
           | [] \<Rightarrow> ((s\<lparr>as_loop := (if as_closed s then LoopExit else LoopWaiting)\<rparr>, k, e), []))))"

text \<open>
  The system of callers, \<open>Close\<close> and the goroutine, with the history of the events that were
  offered (as stamped), accepted into the channel, and handled.
\<close>

record ('k, 'd) Async_system =
  ar_sink :: "'d AsyncSink"
  ar_delegate :: 'k
  ar_env :: env
  ar_offered :: "'d audit_Event list"
  ar_accepted :: "'d audit_Event list"
  ar_handled :: "'d audit_Event list"

inductive async_step :: "('k, 'd) Sink option \<Rightarrow> ('k, 'd) Async_system \<Rightarrow> ('k, 'd) Async_system \<Rightarrow> bool"
  for delegate where
  emit: "AsyncSink_Emit ev (ar_sink y, e) = Some (s', e') \<Longrightarrow>
     async_step delegate y (y\<lparr>ar_sink := s', ar_env := e',
       ar_offered := ar_offered y @ [fst (stamp_event ev e)],
       ar_accepted := ar_accepted y @
         (if as_dropped s' = as_dropped (ar_sink y) then [fst (stamp_event ev e)] else [])\<rparr>)"
| close: "async_step delegate y (y\<lparr>ar_sink := AsyncSink_Close (ar_sink y)\<rparr>)"
| loop: "AsyncSink_loop delegate (ar_sink y, ar_delegate y, e) = ((s', k', e'), evs) \<Longrightarrow>
     async_step delegate y (y\<lparr>ar_sink := s', ar_delegate := k', ar_env := e',
       ar_handled := ar_handled y @ evs\<rparr>)"

inductive async_reach :: "('k, 'd) Sink option \<Rightarrow> ('k, 'd) Async_system \<Rightarrow> ('k, 'd) Async_system \<Rightarrow> bool"
  for delegate y0 where
  reach_init: "async_reach delegate y0 y0"
| reach_next: "async_reach delegate y0 y \<Longrightarrow> async_step delegate y z \<Longrightarrow> async_reach delegate y0 z"

definition Async_start :: "'d AsyncSink \<Rightarrow> 'k \<Rightarrow> env \<Rightarrow> ('k, 'd) Async_system" where
  "Async_start s k e =
     \<lparr>ar_sink = s, ar_delegate = k, ar_env = e, ar_offered = [], ar_accepted = [], ar_handled = []\<rparr>"

section \<open>Conservation of audit events\<close>

fun in_flight :: "'d loop_pc \<Rightarrow> 'd audit_Event list" where
  "in_flight (LoopHandling ev) = [ev]"
| "in_flight _ = []"

definition async_inv :: "('k, 'd) Async_system \<Rightarrow> bool" where
  "async_inv y \<longleftrightarrow>
     (let s = ar_sink y in
      ar_accepted y = ar_handled y @ in_flight (as_loop s) @ as_queue s
      \<and> subseq (ar_accepted y) (ar_offered y)
      \<and> as_dropped s = wrap64 (int (length (ar_offered y)) - int (length (ar_accepted y)))
      \<and> length (as_queue s) \<le> as_size s
      \<and> (as_loop s = LoopWaiting \<longrightarrow> as_queue s = [])
      \<and> (as_loop s = LoopExit \<longrightarrow> as_closed s \<and> as_queue s = []))"

lemma wrap64_Suc_neq: "wrap64 (d + 1) \<noteq> d"
proof
  assume "wrap64 (d + 1) = d"
  then have "(d + 1 + 2 ^ 63) mod 2 ^ 64 = (d + 2 ^ 63 :: int)" by (simp add: wrap64_def)
  then have "(d + 1 + 2 ^ 63) mod 2 ^ 64 = (d + 2 ^ 63) mod (2 ^ 64 :: int)" by (metis mod_mod_trivial)
  then have "(2 ^ 64 :: int) dvd (d + 1 + 2 ^ 63) - (d + 2 ^ 63)" by (simp only: mod_eq_dvd_iff)
  then show False by simp
qed

lemma AsyncSink_Emit_cases:
  assumes "AsyncSink_Emit ev (s, e) = Some (s', e')"
  obtains (handed) "as_loop s = LoopWaiting" "\<not> as_closed s" "s' = s\<lparr>as_loop := LoopHandling (fst (stamp_event ev e))\<rparr>"
  | (queued) "as_loop s \<noteq> LoopWaiting" "\<not> as_closed s" "length (as_queue s) < as_size s"
      "s' = s\<lparr>as_queue := as_queue s @ [fst (stamp_event ev e)]\<rparr>"
  | (dropped) "as_loop s \<noteq> LoopWaiting" "\<not> as_closed s" "as_size s \<le> length (as_queue s)"
      "s' = s\<lparr>as_dropped := wrap64 (as_dropped s + 1)\<rparr>"
  using assms
  by (auto simp: AsyncSink_Emit_def chan_send_def Let_def split: prod.splits if_splits option.splits)

lemma async_step_inv:
  assumes "async_step delegate y z" "async_inv y"
  shows "async_inv z"
  using assms
proof (induction rule: async_step.induct)
  case (emit ev y e s' e')
  note inv = emit(2) [unfolded async_inv_def Let_def]
  from emit(1) show ?case
  proof (cases rule: AsyncSink_Emit_cases)
    case dropped
    have "wrap64 (wrap64 (int (length (ar_offered y)) - int (length (ar_accepted y))) + 1)
        = wrap64 (1 + int (length (ar_offered y)) - int (length (ar_accepted y)))"
      by (simp add: wrap64_def mod_simps algebra_simps)
    with dropped inv show ?thesis
      by (auto simp: async_inv_def Let_def wrap64_Suc_neq intro: list_emb_append2)
  next
    case queued
    have "subseq (ar_accepted y @ [x]) (ar_offered y @ [x])" for x
      unfolding subseq_append using inv by blast
    with queued inv show ?thesis by (auto simp: async_inv_def Let_def)
  qed (use inv in \<open>auto simp: async_inv_def Let_def\<close>)
next
  case (close y)
  then show ?case by (auto simp: async_inv_def AsyncSink_Close_def Let_def)
next
  case (loop y e s' k' e' evs)
  then show ?case
    by (auto simp: async_inv_def AsyncSink_loop_def Let_def add.left_commute [of 1]
        split: loop_pc.splits list.splits prod.splits if_splits)
qed

lemma async_reach_inv:
  "async_reach delegate (Async_start s k e) y \<Longrightarrow> NewAsyncSink n v = Some s \<Longrightarrow> async_inv y"
proof (induction rule: async_reach.induct)
  case reach_init
  then show ?case
    by (auto simp: async_inv_def Async_start_def NewAsyncSink_def wrap64_def split: if_splits)
next
  case (reach_next y z)
  then show ?case using async_step_inv by blast
qed

text \<open>The goroutine alone, for some number of steps; after \<open>Close\<close> it empties the queue and ends.\<close>

fun loop_run ::
    "('k, 'd) Sink option \<Rightarrow> nat \<Rightarrow> 'd AsyncSink \<times> 'k \<times> env \<Rightarrow> ('d AsyncSink \<times> 'k \<times> env) \<times> 'd audit_Event list" where
  "loop_run delegate 0 y = (y, [])"
| "loop_run delegate (Suc n) y =
     (let (y1, evs) = AsyncSink_loop delegate y; (y2, evs') = loop_run delegate n y1 in (y2, evs @ evs'))"

lemma loop_run_step:
  "AsyncSink_loop delegate y = (y1, evs) \<Longrightarrow> loop_run delegate n y1 = (y2, evs')
    \<Longrightarrow> loop_run delegate (Suc n) y = (y2, evs @ evs')"
  by simp

declare loop_run.simps(2) [simp del]

lemma loop_handling:
  assumes "as_loop s = LoopHandling ev"
  obtains k' e' where "AsyncSink_loop delegate (s, k, e) = ((s\<lparr>as_loop := LoopRange\<rparr>, k', e'), [ev])"
proof -
  obtain k' e' where h: "(case delegate of None \<Rightarrow> (k, e) | Some emit \<Rightarrow> emit ev (k, e)) = (k', e')"
    by force
  show thesis using that assms by (simp add: AsyncSink_loop_def h)
qed

lemma loop_drains_range:
  assumes "as_loop s = LoopRange" "as_closed s"
  shows "\<exists>s' k' e'. loop_run delegate (2 * length (as_queue s) + 1) (s, k, e) = ((s', k', e'), as_queue s)
    \<and> as_loop s' = LoopExit \<and> as_dropped s' = as_dropped s"
  using assms
proof (induction "as_queue s" arbitrary: s k e)
  case Nil
  then have "AsyncSink_loop delegate (s, k, e) = ((s\<lparr>as_loop := LoopExit\<rparr>, k, e), [])"
    by (simp add: AsyncSink_loop_def Nil(1) [symmetric])
  from loop_run_step [OF this, of 0] show ?case by (simp add: Nil(1) [symmetric])
next
  case (Cons ev q)
  let ?s1 = "s\<lparr>as_queue := q, as_loop := LoopHandling ev\<rparr>" and ?s2 = "s\<lparr>as_queue := q, as_loop := LoopRange\<rparr>"
  have take: "AsyncSink_loop delegate (s, k, e) = ((?s1, k, e), [])"
    using Cons.prems(1) by (simp add: AsyncSink_loop_def Cons.hyps(2) [symmetric])
  obtain k1 e1 where handle: "AsyncSink_loop delegate (?s1, k, e) = ((?s2, k1, e1), [ev])"
    by (rule loop_handling [of ?s1 ev delegate k e]) auto
  obtain s' k' e' where run: "loop_run delegate (2 * length q + 1) (?s2, k1, e1) = ((s', k', e'), q)"
      and exit: "as_loop s' = LoopExit" "as_dropped s' = as_dropped s"
    using Cons.hyps(1) [of ?s2 k1 e1] Cons.prems by auto
  have n: "2 * length (as_queue s) + 1 = Suc (Suc (2 * length q + 1))"
    by (simp add: Cons.hyps(2) [symmetric])
  have "loop_run delegate (2 * length (as_queue s) + 1) (s, k, e) = ((s', k', e'), ev # q)"
    unfolding n using loop_run_step [OF take loop_run_step [OF handle run]] by simp
  with exit show ?case by (simp add: Cons.hyps(2) [symmetric])
qed

lemma loop_drains:
  assumes "as_closed s" "as_loop s = LoopWaiting \<Longrightarrow> as_queue s = []" "as_loop s = LoopExit \<Longrightarrow> as_queue s = []"
  shows "\<exists>n s' k' e'. loop_run delegate n (s, k, e) = ((s', k', e'), in_flight (as_loop s) @ as_queue s)
    \<and> as_loop s' = LoopExit \<and> as_dropped s' = as_dropped s"
proof (cases "as_loop s")
  case LoopRange
  then show ?thesis using loop_drains_range [OF LoopRange assms(1), of delegate k e] by (simp, blast)
next
  case LoopWaiting
  with assms have "AsyncSink_loop delegate (s, k, e) = ((s\<lparr>as_loop := LoopExit\<rparr>, k, e), [])"
    by (simp add: AsyncSink_loop_def)
  from loop_run_step [OF this, of 0] LoopWaiting assms show ?thesis by (intro exI [of _ "Suc 0"]) simp
next
  case LoopExit
  with assms show ?thesis by (intro exI [of _ 0]) simp
next
  case (LoopHandling ev)
  let ?s1 = "s\<lparr>as_loop := LoopRange\<rparr>"
  obtain k1 e1 where handle: "AsyncSink_loop delegate (s, k, e) = ((?s1, k1, e1), [ev])"
    by (rule loop_handling [OF LoopHandling, of delegate k e])
  obtain s' k' e' where run: "loop_run delegate (2 * length (as_queue s) + 1) (?s1, k1, e1)
          = ((s', k', e'), as_queue s)" "as_loop s' = LoopExit" "as_dropped s' = as_dropped s"
    using loop_drains_range [of ?s1 delegate k1 e1] assms(1) by auto
  from loop_run_step [OF handle run(1)] run(2,3) show ?thesis
    unfolding LoopHandling by (intro exI [of _ "Suc (2 * length (as_queue s) + 1)"]) auto
qed

section \<open>Properties\<close>

text \<open>
  C10. No audit event is lost without being counted, and none is reordered or duplicated. In
  every state that callers, \<open>Close\<close> and the goroutine reach in any interleaving, the accepted
  events are a subsequence of the offered ones in their order, they are exactly those already
  handled followed by the one in hand and those in the queue, the dropped counter is the number
  of the others (at its 64-bit width), and the queue never exceeds its size.
\<close>

theorem AsyncSink_conservation:
  assumes "NewAsyncSink n v = Some s" "async_reach delegate (Async_start s k e) y"
  shows "ar_accepted y = ar_handled y @ in_flight (as_loop (ar_sink y)) @ as_queue (ar_sink y)
    \<and> subseq (ar_accepted y) (ar_offered y)
    \<and> AsyncSink_Dropped (ar_sink y) = wrap64 (int (length (ar_offered y)) - int (length (ar_accepted y)))
    \<and> length (as_queue (ar_sink y)) \<le> as_size (ar_sink y)"
  using async_reach_inv [OF assms(2,1)] unfolding async_inv_def Let_def AsyncSink_Dropped_def by blast

theorem AsyncSink_conservation_witness:
  defines "s \<equiv> the (NewAsyncSink 1 ''dummy'' :: rat AsyncSink option)" and "ev \<equiv> new_Event rat_decimal EventFill ''dummy''"
  shows "\<exists>y. async_reach (Some InMemorySink_Emit) (Async_start s [] fixed_env) y \<and> length (ar_offered y) = 2
    \<and> AsyncSink_Dropped (ar_sink y) = wrap64 (int (length (ar_offered y)) - int (length (ar_accepted y)))
    \<and> ar_accepted y = ar_handled y @ in_flight (as_loop (ar_sink y)) @ as_queue (ar_sink y)"
proof -
  have n: "NewAsyncSink 1 ''dummy'' = Some s" by (simp add: s_def NewAsyncSink_def)
  let ?y0 = "Async_start s ([] :: rat InMemorySink) fixed_env"
  have ok: "\<exists>s' e'. AsyncSink_Emit ev (s, e) = Some (s', e')" if "\<not> as_closed s" for s e
    using that by (auto simp: AsyncSink_Emit_def chan_send_def split: prod.splits)
  have "\<not> as_closed s" by (simp add: s_def NewAsyncSink_def)
  then obtain s1 e1 where e1: "AsyncSink_Emit ev (s, fixed_env) = Some (s1, e1)" using ok by blast
  have "\<not> as_closed s1" by (rule AsyncSink_Emit_cases [OF e1]) auto
  then obtain s2 e2 where e2: "AsyncSink_Emit ev (s1, e1) = Some (s2, e2)" using ok by blast
  have y0: "ar_sink ?y0 = s" by (simp add: Async_start_def)
  from async_step.emit [of ev ?y0 fixed_env s1 e1 "Some InMemorySink_Emit"] e1
  obtain y1 where y1: "async_step (Some InMemorySink_Emit) ?y0 y1" "ar_sink y1 = s1" "length (ar_offered y1) = 1"
    by (auto simp: Async_start_def)
  from async_step.emit [of ev y1 e1 s2 e2 "Some InMemorySink_Emit"] e2 y1(2,3)
  obtain y2 where y2: "async_step (Some InMemorySink_Emit) y1 y2" "length (ar_offered y2) = 2" by auto
  have r: "async_reach (Some InMemorySink_Emit) ?y0 y2"
    by (rule async_reach.reach_next [OF async_reach.reach_next [OF async_reach.reach_init y1(1)] y2(1)])
  from AsyncSink_conservation [OF n r] r y2(2) show ?thesis by blast
qed

text \<open>
  C34. Shutting down loses nothing that was accepted: from every reachable state in which the
  channel is closed, the goroutine ends after finitely many steps and has then handled every
  accepted event, in order.
\<close>

theorem AsyncSink_drains:
  assumes "NewAsyncSink n v = Some s" "async_reach delegate (Async_start s k e) y"
    and "as_closed (ar_sink y)"
  shows "\<exists>n s' k' e' evs. loop_run delegate n (ar_sink y, ar_delegate y, ar_env y) = ((s', k', e'), evs)
    \<and> as_loop s' = LoopExit \<and> ar_handled y @ evs = ar_accepted y"
proof -
  have inv: "async_inv y" by (rule async_reach_inv [OF assms(2,1)])
  have "\<exists>n s' k' e'. loop_run delegate n (ar_sink y, ar_delegate y, ar_env y)
        = ((s', k', e'), in_flight (as_loop (ar_sink y)) @ as_queue (ar_sink y))
      \<and> as_loop s' = LoopExit \<and> as_dropped s' = as_dropped (ar_sink y)"
    by (rule loop_drains) (use inv assms(3) in \<open>auto simp: async_inv_def Let_def\<close>)
  with inv show ?thesis unfolding async_inv_def Let_def by metis
qed

theorem AsyncSink_drains_witness:
  defines "s \<equiv> the (NewAsyncSink 4 ''dummy'' :: rat AsyncSink option)"
  shows "\<exists>y n s' k' e' evs. async_reach (Some InMemorySink_Emit) (Async_start s [] fixed_env) y
    \<and> loop_run (Some InMemorySink_Emit) n (ar_sink y, ar_delegate y, ar_env y) = ((s', k', e'), evs)
    \<and> as_loop s' = LoopExit \<and> ar_handled y @ evs = ar_accepted y"
proof -
  have n: "NewAsyncSink 4 ''dummy'' = Some s" by (simp add: s_def NewAsyncSink_def)
  let ?y0 = "Async_start s ([] :: rat InMemorySink) fixed_env"
  have r: "async_reach (Some InMemorySink_Emit) ?y0 (?y0\<lparr>ar_sink := AsyncSink_Close (ar_sink ?y0)\<rparr>)"
    by (rule async_reach.reach_next [OF async_reach.reach_init async_step.close])
  have c: "as_closed (ar_sink (?y0\<lparr>ar_sink := AsyncSink_Close (ar_sink ?y0)\<rparr>))"
    by (simp add: AsyncSink_Close_def)
  from AsyncSink_drains [OF n r c] r show ?thesis by blast
qed

text \<open>
  After \<open>Close\<close> every \<open>Emit\<close> panics: the send on the closed channel is tried without looking
  at the flag, whatever room the queue has. (A second \<open>Close\<close> is harmless.)
\<close>

theorem AsyncSink_Emit_after_Close_panics:
  "AsyncSink_Emit ev (AsyncSink_Close s, e) = None \<and> AsyncSink_Close (AsyncSink_Close s) = AsyncSink_Close s"
  by (simp add: AsyncSink_Emit_def AsyncSink_Close_def chan_send_def Let_def split: prod.splits)

text \<open>
  C35. The accounting of the Kafka sink. An event that can be encoded is written as exactly one
  message of the topic audit.v1 under the event's id, with the event itself as the payload, and
  exactly one of the two counters moves, as the broker answered. An event that can not be
  encoded (a time stamp beyond the year 9999) is lost without a trace in either counter.
\<close>

theorem KafkaSink_accounting:
  defines "ev' ev e \<equiv> fst (stamp_event ev e)"
  shows "\<exists>bk' s' e'. KafkaSink_Emit D ev ((bk, s), e) = ((bk', s'), e')
    \<and> (if encodable (doc_Event (ev' ev e)) then
         bk_log bk' = bk_log bk @ [\<lparr>km_topic = AuditTopic, km_key = event_id (ev' ev e),
            km_value = envelope D (ev' ev e) (doc_Event (ev' ev e))\<rparr>]
         \<and> (case bk_answer bk (length (bk_log bk)) of
              None \<Rightarrow> s' = s \<and> env_metrics e' = env_metrics e @ [Inc AuditEventsEmittedTotal [ks_venue s, ae_Type ev]]
            | Some _ \<Rightarrow> KafkaSink_Dropped s' = wrap64 (KafkaSink_Dropped s + 1)
                \<and> env_metrics e' = env_metrics e @ [Inc AuditDroppedTotal [ks_venue s, ae_Type ev]])
       else bk' = bk \<and> s' = s \<and> env_metrics e' = env_metrics e)"
proof -
  obtain ev1 e1 where st: "stamp_event ev e = (ev1, e1)" by force
  have ev1: "ae_Type ev1 = ae_Type ev" "env_metrics e1 = env_metrics e"
    using st by (auto simp: stamp_event_def time_Now_def split: if_splits)
  have env: "encodable (envelope D ev1 p) = encodable p" for p by (simp add: envelope_def)
  show ?thesis
    by (simp add: ev'_def st KafkaSink_Emit_def json_Marshal_def env kafka_WriteMessages_def
        KafkaSink_Dropped_def ev1 split: option.split)
qed

end
