(* ===== verification/GoHttp.thy ===== *)
theory GoHttp
  imports GoDoc
begin

text \<open>
  What the program uses of the server side of \<open>net/http\<close>: requests, responses and the routing
  of \<open>ServeMux\<close>. The body of a response is a JSON document or a plain text.
\<close>

record server_request =
  sr_Method :: string
  sr_Path :: string
  sr_RawQuery :: string
  sr_Headers :: "(string \<times> string) list"
  sr_Body :: string

datatype 'd http_body = NoBody | Json "'d jdoc" | Plain string

record 'd server_response =
  sp_status :: int
  sp_body :: "'d http_body"

text \<open>\<open>json.NewEncoder(w).Encode(v)\<close>: nothing is written when the value can not be encoded.\<close>

definition encode_body :: "'d jdoc \<Rightarrow> 'd http_body" where
  "encode_body v = (case json_Marshal v of Some d \<Rightarrow> Json d | None \<Rightarrow> NoBody)"

text \<open>A handler works on a state of the program and on the environment.\<close>

type_synonym ('w, 'd) handler = "server_request \<Rightarrow> 'w \<times> env \<Rightarrow> 'd server_response \<times> 'w \<times> env"

section \<open>Paths\<close>

fun clean_segments :: "string list \<Rightarrow> string list \<Rightarrow> string list" where
  "clean_segments [] acc = rev acc"
| "clean_segments (s # ss) acc =
     (if s = [] \<or> s = ''.'' then clean_segments ss acc
      else if s = ''..'' then clean_segments ss (tl acc)
      else clean_segments ss (s # acc))"

text \<open>\<open>cleanPath\<close> of \<open>net/http\<close>: the canonical path, with the trailing slash kept.\<close>

definition cleanPath :: "string \<Rightarrow> string" where
  "cleanPath p =
     (if p = [] then ''/''
      else let np = ''/'' @ Join (clean_segments (Split (CHR ''/'') p) []) ''/''
           in if HasSuffix p ''/'' \<and> np \<noteq> ''/'' then np @ ''/'' else np)"

text \<open>
  The choice of \<open>ServeMux\<close> for a path: an exact pattern, else the longest pattern ending in a
  slash that is a prefix, else none. A path that is not clean, or that only lacks the final
  slash of a pattern, is redirected.
\<close>

datatype 'h mux_choice = Serve 'h | Redirect string | NotFound

definition mux_lookup :: "(string \<times> 'h) list \<Rightarrow> string \<Rightarrow> 'h option" where
  "mux_lookup routes p =
     (case map_of routes p of
        Some h \<Rightarrow> Some h
      | None \<Rightarrow>
          (case rev (sort_key (\<lambda>(q, _). length q) (filter (\<lambda>(q, _). HasSuffix q ''/'' \<and> HasPrefix p q) routes)) of
             [] \<Rightarrow> None
           | (_, h) # _ \<Rightarrow> Some h))"

definition mux_choose :: "(string \<times> 'h) list \<Rightarrow> server_request \<Rightarrow> 'h mux_choice" where
  "mux_choose routes r =
     (let path = (if sr_Method r = ''CONNECT'' then sr_Path r else cleanPath (sr_Path r)) in
      case mux_lookup routes path of
        None \<Rightarrow>
          (if map_of routes (path @ ''/'') \<noteq> None then Redirect (path @ ''/'')
           else if path \<noteq> sr_Path r then Redirect path else NotFound)
      | Some h \<Rightarrow> if path \<noteq> sr_Path r then Redirect path else Serve h)"

end
