(* ===== verification/AuthToken.thy ===== *)
theory AuthToken
  imports GoHttp GoCrypto
begin

text \<open>
  The service-token authentication of \<open>internal/authtoken/middleware.go\<close>: HS256 tokens, made and
  checked with the hash functions of \<open>GoCrypto\<close> and the JSON of \<open>GoJson\<close>. The wording of the
  standard library's decoding errors is not modelled: it is the parameter \<open>err_texts\<close>.
\<close>

definition skipPaths :: "string \<Rightarrow> bool" where
  "skipPaths p \<longleftrightarrow> p \<in> set [''/healthz'', ''/readyz'', ''/metrics'']"

record Claims =
  ct_Sub :: string
  ct_Iat :: int
  ct_Exp :: int

text \<open>
  \<open>getenv\<close> is the process environment, \<open>testing\<close> the value of \<open>testing.Testing()\<close>; \<open>None\<close> is the
  exit by \<open>log.Fatal\<close>.
\<close>

definition SecretFromEnv :: "(string \<Rightarrow> string) \<Rightarrow> bool \<Rightarrow> (string \<times> bool) option" where
  "SecretFromEnv getenv testing =
     (let s = getenv ''SERVICE_TOKEN_SECRET'' in
      if s \<noteq> [] then Some (s, False)
      else if getenv ''DEV_MODE'' = ''1'' \<or> testing then Some ([], True)
      else None)"

definition claims_text :: "Claims \<Rightarrow> string" where
  "claims_text c = json_object
     [(''sub'', json_quote (ct_Sub c)), (''iat'', FormatInt (ct_Iat c)), (''exp'', FormatInt (ct_Exp c))]"

definition header_text :: string where
  "header_text = json_object [(''alg'', json_quote ''HS256''), (''typ'', json_quote ''JWT'')]"

definition signature :: "string \<Rightarrow> string \<Rightarrow> string" where
  "signature secret content = RawURLEncoding_EncodeToString (hmac_sha256 secret content)"

definition sign :: "string \<Rightarrow> Claims \<Rightarrow> string \<Rightarrow> string" where
  "sign header claims secret =
     (let head = RawURLEncoding_EncodeToString header;
          body = RawURLEncoding_EncodeToString (claims_text claims)
      in head @ ''.'' @ body @ ''.'' @ signature secret (head @ ''.'' @ body))"

definition Issue :: "string \<Rightarrow> string \<Rightarrow> env \<Rightarrow> (string + string) \<times> env" where
  "Issue serviceName secret e0 =
     (if secret = [] then (Inl ''authtoken: secret is required to issue a token'', e0)
      else let (now, e1) = time_Now e0;
               claims = \<lparr>ct_Sub = serviceName, ct_Iat = time_Unix now,
                         ct_Exp = time_Unix (time_Add now (24 * 3600 * Second))\<rparr>
           in (Inr (sign header_text claims secret), e1))"

definition dec_Claims :: "Claims decoder" where
  "dec_Claims = dec_struct (\<lambda>k v s.
     if field_matches ''sub'' k then into_field dec_string ct_Sub ct_Sub_update v s
     else if field_matches ''iat'' k then into_field dec_int64 ct_Iat ct_Iat_update v s
     else if field_matches ''exp'' k then into_field dec_int64 ct_Exp ct_Exp_update v s
     else (s, False))"

definition zero_Claims :: Claims where
  "zero_Claims = \<lparr>ct_Sub = [], ct_Iat = 0, ct_Exp = 0\<rparr>"

definition verify :: "err_texts \<Rightarrow> string \<Rightarrow> string \<Rightarrow> string + Claims" where
  "verify T token secret =
     (case Split (CHR ''.'') token of
        [p0, p1, p2] \<Rightarrow>
          (if signature secret (p0 @ ''.'' @ p1) \<noteq> p2 then Inl ''invalid signature''
           else (case RawURLEncoding_DecodeString p1 of
                   None \<Rightarrow> Inl (''decode payload: '' @ et_base64 T p1)
                 | Some body \<Rightarrow>
                     (case json_Unmarshal dec_Claims body zero_Claims of
                        (c, err) \<Rightarrow> if err then Inl (''parse payload: '' @ et_json T body) else Inr c)))
      | _ \<Rightarrow> Inl ''malformed token'')"

definition writeUnauthorized :: "string \<Rightarrow> 'd server_response" where
  "writeUnauthorized msg =
     \<lparr>sp_status = 401,
      sp_body = encode_body (DObj [(''error'', DObj [(''code'', DStr ''unauthorized''), (''message'', DStr msg)])])\<rparr>"

definition Middleware ::
    "err_texts \<Rightarrow> string \<Rightarrow> bool \<Rightarrow> ('w, 'd) handler \<Rightarrow> ('w, 'd) handler" where
  "Middleware T secret bypass h r = (\<lambda>(w, e0).
     (if bypass \<or> skipPaths (sr_Path r) then h r (w, e0)
      else let auth = Header_Get (sr_Headers r) ''Authorization'' in
        if \<not> HasPrefix auth ''Bearer '' then
          (writeUnauthorized ''missing or malformed Authorization header'', w, e0)
        else
          (case verify T (TrimPrefix auth ''Bearer '') secret of
             Inl err \<Rightarrow> (writeUnauthorized err, w, e0)
           | Inr claims \<Rightarrow>
               (let (now, e1) = time_Now e0 in
                if time_Unix now > ct_Exp claims then (writeUnauthorized ''token expired'', w, e1)
                else h r (w, e1)))))"

section \<open>Tokens read back\<close>

lemma names: "fold_name ''sub'' = ''SUB''" "fold_name ''iat'' = ''IAT''" "fold_name ''exp'' = ''EXP''"
  by code_simp+

lemma Claims_roundtrip:
  assumes "ascii (ct_Sub c)" "in64 (ct_Iat c)" "in64 (ct_Exp c)"
  shows "json_Unmarshal dec_Claims (claims_text c) zero_Claims = (c, False)"
proof -
  let ?q = "\<lambda>s. concat (map quote_char s)"
  let ?m3 = "json_quote ''exp'' @ '':'' @ FormatInt (ct_Exp c) @ CHR ''}'' # []"
  let ?m2 = "json_quote ''iat'' @ '':'' @ FormatInt (ct_Iat c) @ CHR '','' # ?m3"
  let ?m1 = "json_quote ''sub'' @ '':'' @ json_quote (ct_Sub c) @ CHR '','' # ?m2"
  have ct: "claims_text c = CHR ''{'' # ?m1" by (simp add: claims_text_def json_object_def)
  have e: "ends_number (CHR '','')" "ends_number (CHR ''}'')" by (simp_all add: ends_number_def is_digit_def)
  have m3: "parse_members (Suc (Suc k)) d ?m3 = Some ([(?q ''exp'', JNum (FormatInt (ct_Exp c)))], [])" for k d
    using parse_member [of "''exp''" "Suc k" d _ "CHR ''}''" "[]", OF _ parse_FormatInt [OF e(2)]] by simp
  have m2: "parse_members (Suc (Suc (Suc k))) d ?m2 =
      Some ([(?q ''iat'', JNum (FormatInt (ct_Iat c))), (?q ''exp'', JNum (FormatInt (ct_Exp c)))], [])" for k d
    using parse_member [of "''iat''" "Suc (Suc k)" d _ "CHR '',''" ?m3, OF _ parse_FormatInt [OF e(1)]] m3
    by simp
  let ?ms = "[(?q ''sub'', JStr (?q (ct_Sub c))), (?q ''iat'', JNum (FormatInt (ct_Iat c))),
      (?q ''exp'', JNum (FormatInt (ct_Exp c)))]"
  have m1: "parse_members (Suc (Suc (Suc (Suc k)))) d ?m1 = Some (?ms, [])" for k d
    using parse_member [of "''sub''" "Suc (Suc (Suc k))" d _ "CHR '',''" ?m2, OF _ parse_quoted [OF assms(1)]] m2
    by simp
  have head: "skip_space ?m1 = CHR 0x22 # tl ?m1" by (simp add: json_quote_def is_space_def)
  have "\<exists>k. 2 * length (claims_text c) + 1 = Suc (Suc (Suc (Suc (Suc k))))"
    by (rule exI [of _ "2 * length ?m1 - 2"]) (simp add: ct json_quote_def)
  then obtain k where k: "2 * length (claims_text c) + 1 = Suc (Suc (Suc (Suc (Suc k))))" ..
  have "parse_value (Suc (Suc (Suc (Suc (Suc k))))) 0 (CHR ''{'' # ?m1) = Some (JObj ?ms, [])"
    using m1 [of k "Suc 0"] head by (simp add: is_space_def del: parse_members.simps)
  then have pv: "parse_value (2 * length (claims_text c) + 1) 0 (claims_text c) = Some (JObj ?ms, [])"
    by (simp only: k) (simp only: ct)
  have parse: "json_parse (claims_text c) = Some (JObj ?ms)"
    unfolding json_parse_def pv by simp
  define ks ki ke where k_defs: "ks = ?q ''sub''" "ki = ?q ''iat''" "ke = ?q ''exp''"
  have "json_unquote ks = ''sub''" "json_unquote ki = ''iat''" "json_unquote ke = ''exp''"
    unfolding k_defs by (rule json_unquote_quoted, simp)+
  then have keys: "field_matches ''sub'' ks" "\<not> field_matches ''sub'' ki" "field_matches ''iat'' ki"
      "\<not> field_matches ''sub'' ke" "\<not> field_matches ''iat'' ke" "field_matches ''exp'' ke"
    by (simp_all add: field_matches_def names del: fold_name.simps)
  show ?thesis
    unfolding json_Unmarshal_def parse k_defs [symmetric]
    using assms by (simp add: dec_Claims_def keys into_field_def json_unquote_quoted
        ParseInt_FormatInt zero_Claims_def)
qed

lemma verify_sign:
  assumes "ascii (ct_Sub c)" "in64 (ct_Iat c)" "in64 (ct_Exp c)"
  shows "verify T (sign header c secret) secret = Inr c"
proof -
  let ?h = "RawURLEncoding_EncodeToString header" and ?b = "RawURLEncoding_EncodeToString (claims_text c)"
  let ?s = "signature secret (?h @ ''.'' @ ?b)"
  have s: "CHR ''.'' \<notin> set ?s" by (simp add: signature_def dot_not_encoded)
  have "Split (CHR ''.'') (?h @ CHR ''.'' # ?b @ CHR ''.'' # ?s) = [?h, ?b, ?s]"
    by (simp only: Split_sep [OF dot_not_encoded] Split_no_sep [OF s])
  then show ?thesis
    using Claims_roundtrip [OF assms]
    by (simp add: verify_def sign_def Let_def RawURLEncoding_roundtrip)
qed

lemma time_Unix_add: "time_Unix (time_Add now 86400000000000) = time_Unix now + 86400"
proof -
  have "now + 86400000000000 - unix_epoch = (now - unix_epoch) + 86400 * 10 ^ 9" by simp
  then show ?thesis
    unfolding time_Unix_def time_Add_def by (simp only:) (subst div_mult_self1, simp_all)
qed

text \<open>What makes a request authentic at an instant, stated on its header alone.\<close>

definition authentic :: "err_texts \<Rightarrow> string \<Rightarrow> instant \<Rightarrow> server_request \<Rightarrow> bool" where
  "authentic T secret now r \<longleftrightarrow>
     (\<exists>head body claims. Header_Get (sr_Headers r) ''Authorization''
          = ''Bearer '' @ head @ ''.'' @ body @ ''.'' @ signature secret (head @ ''.'' @ body)
        \<and> verify T (head @ ''.'' @ body @ ''.'' @ signature secret (head @ ''.'' @ body)) secret = Inr claims
        \<and> time_Unix now \<le> ct_Exp claims)"

lemma Split_parts: "Split c s = ws \<Longrightarrow> s = Join ws [c]"
proof (induction s arbitrary: ws)
  case Nil
  then show ?case by auto
next
  case (Cons d s)
  obtain w ws' where s: "Split c s = w # ws'" by (cases "Split c s") auto
  from Cons.IH [OF s] Cons.prems s show ?case
    by (cases ws') (auto split: if_splits)
qed

lemma verify_signed:
  assumes "verify T token secret = Inr claims"
  obtains head body where "token = head @ ''.'' @ body @ ''.'' @ signature secret (head @ ''.'' @ body)"
proof -
  from assms obtain p0 p1 p2 where s: "Split (CHR ''.'') token = [p0, p1, p2]"
      and sig: "signature secret (p0 @ ''.'' @ p1) = p2"
    by (auto simp: verify_def split: list.splits if_splits)
  from Split_parts [OF s] sig show ?thesis by (intro that [of p0 p1]) simp
qed

section \<open>Properties\<close>

text \<open>
  C14. Tokens that \<open>Issue\<close> mints are accepted: for a service name in ASCII, \<open>verify\<close> with the
  same secret returns the claims with the issue time and an expiry exactly 24 hours later. This
  goes through the JSON text, its base64 encoding, the signature, and all of them back.
\<close>

theorem Issue_verify_roundtrip:
  assumes "secret \<noteq> []" "ascii service"
    and "in64 (time_Unix (env_clock e (env_ticks e)))" "in64 (time_Unix (env_clock e (env_ticks e)) + 86400)"
  shows "\<exists>token e'. Issue service secret e = (Inr token, e')
    \<and> verify T token secret = Inr \<lparr>ct_Sub = service, ct_Iat = time_Unix (env_clock e (env_ticks e)),
        ct_Exp = time_Unix (env_clock e (env_ticks e)) + 86400\<rparr>"
  using assms by (simp add: Issue_def time_Now_def time_Unix_add verify_sign)

theorem Issue_verify_roundtrip_witness:
  "\<exists>token e'. Issue ''pricing'' ''s3cret'' fixed_env = (Inr token, e')
    \<and> verify \<lparr>et_base64 = (\<lambda>_. []), et_json = (\<lambda>_. [])\<rparr> token ''s3cret''
      = Inr \<lparr>ct_Sub = ''pricing'', ct_Iat = time_Unix (env_clock fixed_env (env_ticks fixed_env)),
             ct_Exp = time_Unix (env_clock fixed_env (env_ticks fixed_env)) + 86400\<rparr>"
  by (rule Issue_verify_roundtrip) (simp_all add: fixed_env_def in64_def time_Unix_def unix_epoch_def)

text \<open>
  C4. The guard of every route. Without the bypass, a request to a path that is not exempt runs
  the handler exactly when it is authentic: its header is a bearer token whose third part is the
  HMAC of the first two under the secret and whose claims parse and have not expired. Any other
  request is answered 401 and leaves the program's state as it was.
\<close>

theorem Middleware_guard:
  assumes "\<not> skipPaths (sr_Path r)"
  shows "(authentic T secret (env_clock e (env_ticks e)) r \<longrightarrow>
            Middleware T secret False h r (w, e) = h r (w, snd (time_Now e)))
    \<and> (\<not> authentic T secret (env_clock e (env_ticks e)) r \<longrightarrow>
            (\<exists>resp e'. Middleware T secret False h r (w, e) = (resp, w, e') \<and> sp_status resp = 401))"
proof (intro conjI impI)
  let ?auth = "Header_Get (sr_Headers r) ''Authorization''" and ?now = "env_clock e (env_ticks e)"
  assume "authentic T secret ?now r"
  then obtain token claims where t: "?auth = ''Bearer '' @ token" "verify T token secret = Inr claims"
      "time_Unix ?now \<le> ct_Exp claims"
    by (auto simp: authentic_def)
  have "HasPrefix (''Bearer '' @ token) ''Bearer ''" "TrimPrefix (''Bearer '' @ token) ''Bearer '' = token"
    by (simp_all add: TrimPrefix_def)
  with t assms show "Middleware T secret False h r (w, e) = h r (w, snd (time_Now e))"
    unfolding Middleware_def t(1) by (simp add: time_Now_def Let_def)
next
  let ?auth = "Header_Get (sr_Headers r) ''Authorization''" and ?now = "env_clock e (env_ticks e)"
  assume no: "\<not> authentic T secret ?now r"
  have expired: "ct_Exp claims < time_Unix ?now"
    if "HasPrefix ?auth ''Bearer ''" "verify T (TrimPrefix ?auth ''Bearer '') secret = Inr claims" for claims
  proof -
    from that(1) obtain token where a: "?auth = ''Bearer '' @ token" by (auto simp: HasPrefix_iff)
    then have v: "verify T token secret = Inr claims" using that(2) by (simp add: TrimPrefix_def)
    obtain head body where "token = head @ ''.'' @ body @ ''.'' @ signature secret (head @ ''.'' @ body)"
      by (rule verify_signed [OF v])
    with no a v show ?thesis unfolding authentic_def not_less [symmetric] by blast
  qed
  show "\<exists>resp e'. Middleware T secret False h r (w, e) = (resp, w, e') \<and> sp_status resp = 401"
    using assms expired
    by (auto simp: Middleware_def Let_def writeUnauthorized_def time_Now_def split: sum.splits)
qed

theorem Middleware_guard_witness:
  defines "r \<equiv> \<lparr>sr_Method = ''POST'', sr_Path = ''/v1/orders'', sr_RawQuery = [],
      sr_Headers = [(''Authorization'', ''Basic abc'')], sr_Body = []\<rparr>"
  shows "\<exists>resp e'. Middleware \<lparr>et_base64 = (\<lambda>_. []), et_json = (\<lambda>_. [])\<rparr> ''s3cret'' False
      (\<lambda>r (w, e). (\<lparr>sp_status = 200, sp_body = NoBody :: rat http_body\<rparr>, w + 1, e)) r (0 :: nat, fixed_env)
        = (resp, 0, e') \<and> sp_status resp = 401"
proof -
  have s: "\<not> skipPaths (sr_Path r)" by (simp add: r_def skipPaths_def)
  have "\<not> authentic \<lparr>et_base64 = (\<lambda>_. []), et_json = (\<lambda>_. [])\<rparr> ''s3cret''
      (env_clock fixed_env (env_ticks fixed_env)) r"
    by (simp add: authentic_def r_def ToLower_def char_lower_def)
  then show ?thesis by (rule Middleware_guard [OF s, THEN conjunct2, rule_format])
qed

end
