(* ===== verification/BookAgg.thy ===== *)
theory BookAgg
  imports Venue
begin

text \<open>
  The top-of-book aggregator of \<open>internal/book/book.go\<close>: it subscribes once and keeps, for every
  pair, the best bid and ask of the last update.
\<close>

record TopOfBook =
  tb_Pair :: string
  tb_Bid :: float64
  tb_Ask :: float64
  tb_TS :: instant

text \<open>\<open>ba_cancelled\<close> is the state of the derived context; the subscription does not use it.\<close>

record BookAggregator =
  ba_latest :: "string \<rightharpoonup> TopOfBook"
  ba_cancelled :: bool

definition NewBookAggregator ::
    "('c, 'd) VenueConnector \<Rightarrow> string list \<Rightarrow> 'c \<times> env \<Rightarrow> (string + BookAggregator) \<times> 'c \<times> env" where
  "NewBookAggregator conn pairs ce =
     (case SubscribeBook conn pairs ce of
        (Some err, ce') \<Rightarrow> (Inl err, ce')
      | (None, ce') \<Rightarrow> (Inr \<lparr>ba_latest = Map.empty, ba_cancelled = False\<rparr>, ce'))"

definition top_of :: "'d decimal_ops \<Rightarrow> 'd BookUpdate \<Rightarrow> TopOfBook" where
  "top_of D upd =
     \<lparr>tb_Pair = bu_Pair upd,
      tb_Bid = (case bu_Bids upd of [] \<Rightarrow> F64 0 | l # _ \<Rightarrow> d_Float64 D (bl_Price l)),
      tb_Ask = (case bu_Asks upd of [] \<Rightarrow> F64 0 | l # _ \<Rightarrow> d_Float64 D (bl_Price l)),
      tb_TS = bu_TS upd\<rparr>"

fun consume :: "'d decimal_ops \<Rightarrow> 'd BookUpdate list \<Rightarrow> BookAggregator \<Rightarrow> BookAggregator" where
  "consume D [] a = a"
| "consume D (upd # ch) a =
     consume D ch (a\<lparr>ba_latest := (ba_latest a)(bu_Pair upd \<mapsto> top_of D upd)\<rparr>)"

definition BookAggregator_Get :: "string \<Rightarrow> BookAggregator \<Rightarrow> TopOfBook option" where
  "BookAggregator_Get pair a = ba_latest a pair"

definition BookAggregator_Close :: "BookAggregator \<Rightarrow> BookAggregator" where
  "BookAggregator_Close a = a\<lparr>ba_cancelled := True\<rparr>"

lemma consume_latest:
  "ba_latest (consume D ch a) pair =
     (case find (\<lambda>u. bu_Pair u = pair) (rev ch) of Some u \<Rightarrow> Some (top_of D u) | None \<Rightarrow> ba_latest a pair)"
proof (induction ch arbitrary: a)
  case Nil
  then show ?case by simp
next
  case (Cons u ch)
  have "find P (xs @ [x]) = (case find P xs of Some y \<Rightarrow> Some y | None \<Rightarrow> if P x then Some x else None)"
    for P and xs :: "'a BookUpdate list" and x by (induction xs) auto
  with Cons show ?case by (auto split: option.splits)
qed

text \<open>A new aggregator knows nothing; afterwards \<open>Get\<close> answers from the last update of the pair.\<close>

lemma Get_consume:
  assumes "NewBookAggregator conn pairs ce = (Inr a, ce')"
  shows "BookAggregator_Get pair (consume D ch a) = map_option (top_of D) (find (\<lambda>u. bu_Pair u = pair) (rev ch))"
  using assms by (auto simp: NewBookAggregator_def BookAggregator_Get_def consume_latest split: option.splits prod.splits)

end
