(* ===== verification/GoUrl.thy ===== *)
theory GoUrl
  imports GoJson "HOL-Library.AList"
begin

text \<open>
  What the program uses of \<open>net/url\<close> and \<open>path/filepath\<close>: the encoding and decoding of query
  strings, and the joining of paths.
\<close>

section \<open>Decoding a query\<close>

text \<open>\<open>url.QueryUnescape\<close>, and the first value of a key in a query string.\<close>

fun QueryUnescape :: "string \<Rightarrow> string option" where
  "QueryUnescape [] = Some []"
| "QueryUnescape (c # s) =
     (if c = CHR ''%'' then
        (case s of
           a # b # t \<Rightarrow>
             (case (hex_digit a, hex_digit b) of
                (Some x, Some y) \<Rightarrow> map_option ((#) (char_of (16 * x + y))) (QueryUnescape t)
              | _ \<Rightarrow> None)
         | _ \<Rightarrow> None)
      else map_option ((#) (if c = CHR ''+'' then CHR '' '' else c)) (QueryUnescape s))"

fun query_first :: "string \<Rightarrow> string list \<Rightarrow> string" where
  "query_first key [] = []"
| "query_first key (kv # kvs) =
     (if kv = [] \<or> CHR '';'' \<in> set kv then query_first key kvs
      else case SplitN2 (CHR ''='') kv of
        (k, v) \<Rightarrow>
          (case (QueryUnescape k, QueryUnescape (case v of None \<Rightarrow> [] | Some v' \<Rightarrow> v')) of
             (Some k', Some v') \<Rightarrow> if k' = key then v' else query_first key kvs
           | _ \<Rightarrow> query_first key kvs))"

definition Query_Get :: "string \<Rightarrow> string \<Rightarrow> string" where
  "Query_Get raw key = query_first key (Split (CHR ''&'') raw)"

section \<open>Encoding a query\<close>

definition url_unreserved :: "char \<Rightarrow> bool" where
  "url_unreserved c \<longleftrightarrow>
     (let n = byte c in 65 \<le> n \<and> n \<le> 90 \<or> 97 \<le> n \<and> n \<le> 122 \<or> 48 \<le> n \<and> n \<le> 57
        \<or> c \<in> set [CHR ''-'', CHR ''_'', CHR ''.'', CHR ''~''])"

definition upper_hex :: "nat \<Rightarrow> char" where
  "upper_hex n = (if n < 10 then char_of (48 + n) else char_of (55 + n))"

definition escape_char :: "char \<Rightarrow> string" where
  "escape_char c =
     (if c = CHR '' '' then ''+'' else if url_unreserved c then [c]
      else [CHR ''%'', upper_hex (byte c div 16), upper_hex (byte c mod 16)])"

definition QueryEscape :: "string \<Rightarrow> string" where
  "QueryEscape s = concat (map escape_char s)"

text \<open>\<open>url.Values\<close> with one value per key: the code only uses \<open>Set\<close>. \<open>Encode\<close> sorts by key.\<close>

type_synonym url_Values = "(string \<times> string) list"

definition values_Set :: "string \<Rightarrow> string \<Rightarrow> url_Values \<Rightarrow> url_Values" where
  "values_Set k v vs = AList.update k v vs"

definition values_Encode :: "url_Values \<Rightarrow> string" where
  "values_Encode vs = Join (map (\<lambda>(k, v). QueryEscape k @ ''='' @ QueryEscape v) (sort_key fst vs)) ''&''"

section \<open>Encoding and decoding agree\<close>

lemma upper_hex_digit: "n < 16 \<Longrightarrow> hex_digit (upper_hex n) = Some n"
  by (auto simp: hex_digit_def upper_hex_def Let_def)

lemma unescape_char: "QueryUnescape (escape_char c @ s) = map_option ((#) c) (QueryUnescape s)"
proof (cases "c = CHR '' '' \<or> url_unreserved c")
  case True
  then show ?thesis by (auto simp: escape_char_def url_unreserved_def Let_def)
next
  case False
  have "16 * (byte c div 16) + byte c mod 16 = byte c" by simp
  moreover have "byte c div 16 < 16" by (simp add: less_mult_imp_div_less)
  ultimately show ?thesis using False by (simp add: escape_char_def upper_hex_digit)
qed

lemma QueryUnescape_Escape: "QueryUnescape (QueryEscape s) = Some s"
  by (induction s) (simp_all add: QueryEscape_def unescape_char)

lemma escape_safe: "d \<in> set (escape_char c) \<Longrightarrow> d \<notin> {CHR ''&'', CHR ''='', CHR '';''}"
proof -
  have h: "n < 16 \<Longrightarrow> upper_hex n \<notin> {CHR ''&'', CHR ''='', CHR '';''}" for n
  proof
    assume n: "n < 16" and m: "upper_hex n \<in> {CHR ''&'', CHR ''='', CHR '';''}"
    have "hex_digit (CHR ''&'') = None" "hex_digit (CHR ''='') = None" "hex_digit (CHR '';'') = None"
      by (simp_all add: hex_digit_def)
    with m upper_hex_digit [OF n] show False by auto
  qed
  assume "d \<in> set (escape_char c)"
  then show ?thesis
    using h [of "byte c div 16"] h [of "byte c mod 16"]
    by (auto simp: escape_char_def url_unreserved_def less_mult_imp_div_less split: if_splits)
qed

lemma QueryEscape_safe: "d \<in> set (QueryEscape s) \<Longrightarrow> d \<notin> {CHR ''&'', CHR ''='', CHR '';''}"
  using escape_safe by (fastforce simp: QueryEscape_def)

lemma query_first_encoded:
  "query_first key (map (\<lambda>(k, v). QueryEscape k @ ''='' @ QueryEscape v) vs)
     = (case map_of vs key of Some v \<Rightarrow> v | None \<Rightarrow> [])"
proof (induction vs)
  case Nil
  then show ?case by simp
next
  case (Cons kv vs)
  obtain k v where kv: "kv = (k, v)" by force
  have "CHR ''='' \<notin> set (QueryEscape k)" using QueryEscape_safe by blast
  note split = SplitN2_sep [OF this, of "QueryEscape v"]
  have "CHR '';'' \<notin> set (QueryEscape k @ CHR ''='' # QueryEscape v)" using QueryEscape_safe by auto
  with Cons split show ?case by (simp add: kv QueryUnescape_Escape)
qed

text \<open>A server that reads a key of an encoded query gets the value that was set.\<close>

lemma Query_Get_Encode:
  assumes "vs \<noteq> []" "distinct (map fst vs)"
  shows "Query_Get (values_Encode vs) key = (case map_of vs key of Some v \<Rightarrow> v | None \<Rightarrow> [])"
proof -
  let ?f = "\<lambda>(k, v). QueryEscape k @ ''='' @ QueryEscape v"
  have "list_all (\<lambda>w. CHR ''&'' \<notin> set w) (map ?f (sort_key fst vs))"
    using QueryEscape_safe by (auto simp: list_all_iff)
  moreover have "map ?f (sort_key fst vs) \<noteq> []" using assms(1) by (metis map_is_Nil_conv length_0_conv length_sort)
  ultimately have "Split (CHR ''&'') (values_Encode vs) = map ?f (sort_key fst vs)"
    unfolding values_Encode_def by (intro Split_Join) auto
  moreover have "map_of (sort_key fst vs) = map_of vs"
    using assms(2) by (subst map_of_inject_set) (auto simp: distinct_map)
  ultimately show ?thesis by (simp only: Query_Get_def query_first_encoded)
qed

section \<open>Joining paths\<close>

text \<open>\<open>filepath.Clean\<close> on Unix: a relative path may climb, a rooted one may not.\<close>

fun clean_parts :: "bool \<Rightarrow> string list \<Rightarrow> string list \<Rightarrow> string list" where
  "clean_parts rooted [] acc = rev acc"
| "clean_parts rooted (s # ss) acc =
     (if s = [] \<or> s = ''.'' then clean_parts rooted ss acc
      else if s = ''..'' then
        (if acc \<noteq> [] \<and> hd acc \<noteq> ''..'' then clean_parts rooted ss (tl acc)
         else if rooted then clean_parts rooted ss acc
         else clean_parts rooted ss (s # acc))
      else clean_parts rooted ss (s # acc))"

definition filepath_Clean :: "string \<Rightarrow> string" where
  "filepath_Clean p =
     (let rooted = HasPrefix p ''/''; out = Join (clean_parts rooted (Split (CHR ''/'') p) []) ''/''
      in if rooted then ''/'' @ out else if out = [] then ''.'' else out)"

definition filepath_Join :: "string \<Rightarrow> string \<Rightarrow> string" where
  "filepath_Join a b =
     (if a \<noteq> [] then filepath_Clean (a @ ''/'' @ b) else if b \<noteq> [] then filepath_Clean b else [])"

end
