(* ===== verification/Server.thy ===== *)
theory Server
  imports AuthToken AuditTrail BookAgg Store Dummy GoUrl
begin

text \<open>
  The HTTP service of \<open>internal/server/server.go\<close>: its handlers, the routes and the
  authentication around them. A handler works on the world (the states of the connector, the
  store, the audit sink, the event publisher, the dead-letter handler and the order books) and
  the environment. \<open>ctx k n\<close> is what the n-th attempt of the k-th publication of a request sees
  of the request's context. The order in which Go ranges over the map of balances is \<open>ord\<close>.
\<close>

record ('c, 's, 'k, 'p, 'h) world =
  w_conn :: 'c
  w_store :: 's
  w_sink :: 'k
  w_pub :: 'p
  w_dead :: 'h
  w_book :: BookAggregator

record ('c, 's, 'k, 'p, 'h, 'd) Service =
  sv_connector :: "('c, 'd) VenueConnector"
  sv_audit :: "('k, 'd) Sink option"
  sv_events :: "('p, 'h, 'd) Bus option"
  sv_venueName :: string
  sv_ready :: bool
  sv_store :: "('s, 'd) Store_ops"

record ('s, 'd) Config =
  cf_VenueName :: string
  cf_Pairs :: "string list"
  cf_Store :: "(('s, 'd) Store_ops \<times> 's) option"

text \<open>\<open>fallback\<close> is the store that \<open>store.New()\<close> returns, used when the configuration has none.\<close>

definition NewService ::
    "('s, 'd) Store_ops \<times> 's \<Rightarrow> ('c, 'd) VenueConnector \<Rightarrow> ('k, 'd) Sink option \<Rightarrow> ('s, 'd) Config
      \<Rightarrow> ('p, 'h, 'd) Bus option \<Rightarrow> 'k \<Rightarrow> 'p \<Rightarrow> 'h \<Rightarrow> 'c \<times> env
      \<Rightarrow> (string + ('c, 's, 'k, 'p, 'h, 'd) Service \<times> ('c, 's, 'k, 'p, 'h) world) \<times> 'c \<times> env" where
  "NewService fallback conn sink cfg bus k p h ce =
     (case NewBookAggregator conn (cf_Pairs cfg) ce of
        (Inl err, ce') \<Rightarrow> (Inl err, ce')
      | (Inr agg, (c, e)) \<Rightarrow>
          (let (ops, s) = (case cf_Store cfg of None \<Rightarrow> fallback | Some st \<Rightarrow> st)
           in (Inr (\<lparr>sv_connector = conn, sv_audit = sink, sv_events = bus, sv_venueName = cf_VenueName cfg,
                     sv_ready = True, sv_store = ops\<rparr>,
                    \<lparr>w_conn = c, w_store = s, w_sink = k, w_pub = p, w_dead = h, w_book = agg\<rparr>), (c, e))))"

section \<open>Responses\<close>

definition writeJSON :: "int \<Rightarrow> 'd jdoc \<Rightarrow> 'd server_response" where
  "writeJSON status v = \<lparr>sp_status = status, sp_body = encode_body v\<rparr>"

definition writeError :: "int \<Rightarrow> string \<Rightarrow> 'd server_response" where
  "writeError status msg = writeJSON status (DObj [(''error'', DStr msg)])"

section \<open>Calls of the other components\<close>

definition call_conn ::
    "('c \<times> env \<Rightarrow> 'r \<times> 'c \<times> env) \<Rightarrow> ('c, 's, 'k, 'p, 'h) world \<times> env \<Rightarrow> 'r \<times> ('c, 's, 'k, 'p, 'h) world \<times> env" where
  "call_conn f = (\<lambda>(w, e). let (r, c, e') = f (w_conn w, e) in (r, w\<lparr>w_conn := c\<rparr>, e'))"

definition call_store ::
    "('s \<times> env \<Rightarrow> 'r \<times> 's \<times> env) \<Rightarrow> ('c, 's, 'k, 'p, 'h) world \<times> env \<Rightarrow> ('c, 's, 'k, 'p, 'h) world \<times> env" where
  "call_store f = (\<lambda>(w, e). let (r, s, e') = f (w_store w, e) in (w\<lparr>w_store := s\<rparr>, e'))"

definition call_sink ::
    "('k, 'd) Sink \<Rightarrow> 'd audit_Event \<Rightarrow> ('c, 's, 'k, 'p, 'h) world \<times> env \<Rightarrow> ('c, 's, 'k, 'p, 'h) world \<times> env" where
  "call_sink emit ev = (\<lambda>(w, e). let (k, e') = emit ev (w_sink w, e) in (w\<lparr>w_sink := k\<rparr>, e'))"

definition call_bus ::
    "('p \<times> 'h \<times> env \<Rightarrow> string option \<times> 'p \<times> 'h \<times> env) \<Rightarrow> ('c, 's, 'k, 'p, 'h) world \<times> env
      \<Rightarrow> ('c, 's, 'k, 'p, 'h) world \<times> env" where
  "call_bus f = (\<lambda>(w, e). let (r, p, h, e') = f (w_pub w, w_dead w, e) in (w\<lparr>w_pub := p, w_dead := h\<rparr>, e'))"

section \<open>Health and administration\<close>

definition handleHealthz :: "'d server_response" where
  "handleHealthz = writeJSON 200 (DObj [(''status'', DStr ''ok'')])"

definition handleReadyz :: "('c, 's, 'k, 'p, 'h, 'd) Service \<Rightarrow> 'd server_response" where
  "handleReadyz s =
     (if sv_ready s then writeJSON 200 (DObj [(''status'', DStr ''ready'')])
      else writeError 503 ''not ready'')"

definition handleAdminStatus ::
    "('c, 's, 'k, 'p, 'h, 'd) Service \<Rightarrow> ('c, 's, 'k, 'p, 'h) world \<Rightarrow> 'd server_response" where
  "handleAdminStatus s w =
     (let lastFill = (case LastFill (sv_connector s) (w_conn w) of Some (Some f) \<Rightarrow> doc_Fill f | _ \<Rightarrow> DNull)
      in writeJSON 200 (DObj
           [(''venue'', DStr (sv_venueName s)), (''circuit_breaker'', DStr ''closed''),
            (''rate_limit_headroom'', DStr ''unlimited''), (''last_fill'', lastFill)]))"

definition handleRotateCreds ::
    "'d decimal_ops \<Rightarrow> ('c, 's, 'k, 'p, 'h, 'd) Service \<Rightarrow> ('c, 's, 'k, 'p, 'h) world \<times> env
      \<Rightarrow> 'd server_response \<times> ('c, 's, 'k, 'p, 'h) world \<times> env" where
  "handleRotateCreds D s we =
     (let we' = (case sv_audit s of None \<Rightarrow> we
                 | Some emit \<Rightarrow> call_sink emit (new_Event D EventCredRotation (sv_venueName s)) we)
      in (writeJSON 200 (DObj [(''status'', DStr ''rotated'')]), we'))"

section \<open>Placing an order\<close>

record orderRequest =
  oq_Venue :: string
  oq_Pair :: string
  oq_Side :: string
  oq_Type :: string
  oq_Amount :: string
  oq_Price :: string

definition dec_orderRequest :: "orderRequest decoder" where
  "dec_orderRequest = dec_struct (\<lambda>k v s.
     if field_matches ''venue'' k then into_field dec_string oq_Venue oq_Venue_update v s
     else if field_matches ''pair'' k then into_field dec_string oq_Pair oq_Pair_update v s
     else if field_matches ''side'' k then into_field dec_string oq_Side oq_Side_update v s
     else if field_matches ''type'' k then into_field dec_string oq_Type oq_Type_update v s
     else if field_matches ''amount'' k then into_field dec_string oq_Amount oq_Amount_update v s
     else if field_matches ''price'' k then into_field dec_string oq_Price oq_Price_update v s
     else (s, False))"

definition zero_orderRequest :: orderRequest where
  "zero_orderRequest =
     \<lparr>oq_Venue = [], oq_Pair = [], oq_Side = [], oq_Type = [], oq_Amount = [], oq_Price = []\<rparr>"

text \<open>The checks of the request, up to the order that goes to the venue: an error is a status and a text.\<close>

definition parse_order ::
    "err_texts \<Rightarrow> 'd decimal_ops \<Rightarrow> server_request \<Rightarrow> (int \<times> string) + orderRequest \<times> 'd OrderRequest" where
  "parse_order T D r =
     (if sr_Method r \<noteq> ''POST'' then Inl (405, ''method not allowed'')
      else
        (case json_Decode dec_orderRequest (sr_Body r) zero_orderRequest of
           (req, True) \<Rightarrow> Inl (400, ''invalid json: '' @ et_json T (sr_Body r))
         | (req, False) \<Rightarrow>
             if oq_Venue req = [] \<or> oq_Pair req = [] \<or> oq_Side req = [] \<or> oq_Type req = [] \<or> oq_Amount req = []
             then Inl (400, ''missing or invalid fields'')
             else
               (case d_NewFromString D (oq_Amount req) of
                  (amount, err) \<Rightarrow>
                    if err \<noteq> None \<or> d_LessThanOrEqual D amount (d_Zero D) then Inl (400, ''invalid amount'')
                    else
                      (case (if oq_Price req = [] then (d_Zero D, None) else d_NewFromString D (oq_Price req)) of
                         (price, Some _) \<Rightarrow> Inl (400, ''invalid price'')
                       | (price, None) \<Rightarrow>
                           Inr (req, \<lparr>or_ClientOrderID = [], or_Symbol = oq_Pair req, or_Side = oq_Side req,
                                      or_Type = oq_Type req, or_Quantity = amount, or_Price = price\<rparr>)))))"

definition order_record ::
    "string \<Rightarrow> orderRequest \<Rightarrow> 'd OrderRequest \<Rightarrow> 'd OrderResponse \<Rightarrow> 'd store_Order" where
  "order_record venueName req vReq resp =
     \<lparr>so_VenueOrderID = os_VenueOrderID resp, so_ClientOrderID = os_ClientOrderID resp,
      so_Venue = venueName, so_Pair = oq_Pair req, so_Side = oq_Side req, so_OrderType = oq_Type req,
      so_Status = os_Status resp, so_FilledQty = os_FilledQty resp, so_AvgPrice = os_AvgPrice resp,
      so_Quantity = or_Quantity vReq, so_Price = or_Price vReq, so_CreatedAt = 0, so_UpdatedAt = 0\<rparr>"

definition fill_record :: "string \<Rightarrow> orderRequest \<Rightarrow> 'd OrderResponse \<Rightarrow> 'd Fill \<Rightarrow> 'd store_Fill" where
  "fill_record venueName req resp f =
     \<lparr>sf_VenueOrderID = os_VenueOrderID resp, sf_TradeID = fl_TradeID f, sf_Venue = venueName,
      sf_Pair = oq_Pair req, sf_Price = fl_Price f, sf_Quantity = fl_Quantity f, sf_Fee = fl_Fee f,
      sf_FeeAsset = fl_FeeAsset f, sf_Timestamp = fl_Timestamp f\<rparr>"

fun record_fills ::
    "('c, 's, 'k, 'p, 'h, 'd) Service \<Rightarrow> orderRequest \<Rightarrow> 'd OrderResponse \<Rightarrow> 'd Fill list
      \<Rightarrow> ('c, 's, 'k, 'p, 'h) world \<times> env \<Rightarrow> ('c, 's, 'k, 'p, 'h) world \<times> env" where
  "record_fills s req resp [] we = we"
| "record_fills s req resp (f # fs) we =
     record_fills s req resp fs
       (call_store (RecordFill (sv_store s) (fill_record (sv_venueName s) req resp f)) we)"

definition placed_event ::
    "'d decimal_ops \<Rightarrow> string \<Rightarrow> orderRequest \<Rightarrow> 'd OrderRequest \<Rightarrow> 'd OrderResponse \<Rightarrow> 'd audit_Event" where
  "placed_event D venueName req vReq resp =
     (new_Event D EventOrderPlaced venueName)\<lparr>ae_OrderID := os_VenueOrderID resp,
       ae_ClientID := os_ClientOrderID resp, ae_Pair := oq_Pair req, ae_Side := oq_Side req,
       ae_OrderType := oq_Type req, ae_Quantity := or_Quantity vReq, ae_Price := or_Price vReq\<rparr>"

definition fill_event ::
    "'d decimal_ops \<Rightarrow> string \<Rightarrow> orderRequest \<Rightarrow> 'd OrderResponse \<Rightarrow> 'd Fill \<Rightarrow> 'd audit_Event" where
  "fill_event D venueName req resp f =
     (new_Event D EventFill venueName)\<lparr>ae_OrderID := os_VenueOrderID resp, ae_Pair := oq_Pair req,
       ae_Fill := Some \<lparr>fd_TradeID = fl_TradeID f, fd_Price = fl_Price f, fd_Quantity = fl_Quantity f,
         fd_Fee = fl_Fee f, fd_FeeAsset = fl_FeeAsset f, fd_TS = fl_Timestamp f\<rparr>\<rparr>"

fun report_fills ::
    "'d decimal_ops \<Rightarrow> ('c, 's, 'k, 'p, 'h, 'd) Service \<Rightarrow> (nat \<Rightarrow> nat \<Rightarrow> string option) \<Rightarrow> nat \<Rightarrow> ('k, 'd) Sink
      \<Rightarrow> orderRequest \<Rightarrow> 'd OrderResponse \<Rightarrow> 'd Fill list
      \<Rightarrow> ('c, 's, 'k, 'p, 'h) world \<times> env \<Rightarrow> ('c, 's, 'k, 'p, 'h) world \<times> env" where
  "report_fills D s ctx k emit req resp [] we = we"
| "report_fills D s ctx k emit req resp (f # fs) we =
     (let we1 = call_sink emit (fill_event D (sv_venueName s) req resp f) we;
          we2 = (case sv_events s of None \<Rightarrow> we1
                 | Some b \<Rightarrow> call_bus (PublishFill b (ctx k)
                     (FillFromVenue (sv_venueName s) (os_VenueOrderID resp) (oq_Pair req) f)) we1)
      in report_fills D s ctx (Suc k) emit req resp fs we2)"

definition doc_orderResponse :: "string \<Rightarrow> orderRequest \<Rightarrow> 'd OrderResponse \<Rightarrow> 'd jdoc" where
  "doc_orderResponse venueName req resp = DObj
     [(''venue_order_id'', DStr (os_VenueOrderID resp)), (''client_order_id'', DStr (os_ClientOrderID resp)),
      (''status'', DStr (os_Status resp)), (''filled_qty'', DDec (os_FilledQty resp)),
      (''avg_price'', DDec (os_AvgPrice resp)), (''fills'', doc_Fills (os_Fills resp)),
      (''venue'', DStr venueName), (''pair'', DStr (oq_Pair req))]"

definition handleOrdersRoot ::
    "err_texts \<Rightarrow> 'd decimal_ops \<Rightarrow> ('c, 's, 'k, 'p, 'h, 'd) Service \<Rightarrow> (nat \<Rightarrow> nat \<Rightarrow> string option)
      \<Rightarrow> (('c, 's, 'k, 'p, 'h) world, 'd) handler" where
  "handleOrdersRoot T D s ctx r we0 =
     (case parse_order T D r of
        Inl (status, msg) \<Rightarrow> (writeError status msg, we0)
      | Inr (req, vReq) \<Rightarrow>
          (case call_conn (PlaceOrder (sv_connector s) vReq) we0 of
             (Inl err, we1) \<Rightarrow> (writeError 502 (''place order: '' @ err), we1)
           | (Inr resp, we1) \<Rightarrow>
               (let we2 = call_store (RecordOrder (sv_store s) (order_record (sv_venueName s) req vReq resp)) we1;
                    we3 = record_fills s req resp (os_Fills resp) we2;
                    we4 = (case sv_audit s of None \<Rightarrow> we3
                           | Some emit \<Rightarrow>
                               report_fills D s ctx 0 emit req resp (os_Fills resp)
                                 (call_sink emit (placed_event D (sv_venueName s) req vReq resp) we3))
                in (writeJSON 200 (doc_orderResponse (sv_venueName s) req resp), we4))))"

section \<open>One order\<close>

definition splitOrderPath :: "string \<Rightarrow> string \<times> string" where
  "splitOrderPath p =
     (case SplitN2 (CHR ''/'') (TrimSuffix (TrimPrefix p ''/v1/orders/'') ''/'') of
        (i, None) \<Rightarrow> (i, [])
      | (i, Some sub) \<Rightarrow> (i, sub))"

definition canceled_event :: "'d decimal_ops \<Rightarrow> string \<Rightarrow> string \<Rightarrow> 'd audit_Event" where
  "canceled_event D venueName i = (new_Event D EventOrderCanceled venueName)\<lparr>ae_OrderID := i\<rparr>"

definition handleOrderSub ::
    "'d decimal_ops \<Rightarrow> ('c, 's, 'k, 'p, 'h, 'd) Service \<Rightarrow> (('c, 's, 'k, 'p, 'h) world, 'd) handler" where
  "handleOrderSub D s r we0 =
     (let (i, sub) = splitOrderPath (sr_Path r) in
      if i = [] then (writeError 400 ''missing order id'', we0)
      else if sub = ''cancel'' then
        (if sr_Method r \<noteq> ''POST'' then (writeError 405 ''method not allowed'', we0)
         else
           (case call_conn (CancelOrder (sv_connector s) \<lparr>cr_VenueOrderID = i, cr_ClientOrderID = []\<rparr>) we0 of
              (Some err, we1) \<Rightarrow> (writeError 502 (''cancel: '' @ err), we1)
            | (None, we1) \<Rightarrow>
                (writeJSON 200 (DObj [(''order_id'', DStr i), (''status'', DStr ''canceled'')]),
                 case sv_audit s of None \<Rightarrow> we1
                 | Some emit \<Rightarrow> call_sink emit (canceled_event D (sv_venueName s) i) we1)))
      else if sub = ''fills'' then
        (if sr_Method r \<noteq> ''GET'' then (writeError 405 ''method not allowed'', we0)
         else
           (let q = Query_Get (sr_RawQuery r) ''limit'';
                limit = (if q = [] then 0 else case ParseInt q of Some n \<Rightarrow> n | None \<Rightarrow> 0)
            in case call_conn (GetFills (sv_connector s)
                      \<lparr>fq_VenueOrderID = i, fq_Start = 0, fq_End = 0, fq_Limit = limit\<rparr>) we0 of
                 (Inl err, we1) \<Rightarrow> (writeError 502 (''fills: '' @ err), we1)
               | (Inr fills, we1) \<Rightarrow>
                   (writeJSON 200 (DObj [(''fills'', doc_Fills fills), (''order_id'', DStr i)]), we1)))
      else if sub = ''status'' \<or> sub = [] then
        (if sr_Method r \<noteq> ''GET'' then (writeError 405 ''method not allowed'', we0)
         else
           (case call_conn (GetOrder (sv_connector s) i) we0 of
              (Inl err, we1) \<Rightarrow> (writeError 502 (''get order: '' @ err), we1)
            | (Inr o', we1) \<Rightarrow> (writeJSON 200 (doc_OrderResponse o'), we1)))
      else (writeError 404 ''not found'', we0))"

section \<open>Balances and books\<close>

fun report_balances ::
    "'d decimal_ops \<Rightarrow> ('c, 's, 'k, 'p, 'h, 'd) Service \<Rightarrow> (nat \<Rightarrow> nat \<Rightarrow> string option) \<Rightarrow> nat \<Rightarrow> ('k, 'd) Sink
      \<Rightarrow> 'd Balance list \<Rightarrow> ('c, 's, 'k, 'p, 'h) world \<times> env \<Rightarrow> ('c, 's, 'k, 'p, 'h) world \<times> env" where
  "report_balances D s ctx k emit [] we = we"
| "report_balances D s ctx k emit (b # bs) we =
     (let (w1, e1) = call_sink emit
            ((new_Event D EventBalanceSnapshot (sv_venueName s))\<lparr>ae_Balance :=
               Some \<lparr>bd_Asset = bal_Asset b, bd_Free = bal_Free b, bd_Locked = bal_Locked b\<rparr>\<rparr>) we;
          we2 = (case sv_events s of None \<Rightarrow> (w1, e1)
                 | Some bus \<Rightarrow> (let (ev, e2) = BalanceFromVenue (sv_venueName s) b e1
                              in call_bus (PublishBalance bus (ctx k) ev) (w1, e2)))
      in report_balances D s ctx (Suc k) emit bs we2)"

definition handleBalances ::
    "'d decimal_ops \<Rightarrow> ('c, 's, 'k, 'p, 'h, 'd) Service \<Rightarrow> (nat \<Rightarrow> nat \<Rightarrow> string option)
      \<Rightarrow> ('d Balances \<Rightarrow> 'd Balances) \<Rightarrow> (('c, 's, 'k, 'p, 'h) world, 'd) handler" where
  "handleBalances D s ctx ord r we0 =
     (if sr_Method r \<noteq> ''GET'' then (writeError 405 ''method not allowed'', we0)
      else
        (case call_conn (GetBalances (sv_connector s)) we0 of
           (Inl err, we1) \<Rightarrow> (writeError 502 (''balances: '' @ err), we1)
         | (Inr b, we1) \<Rightarrow>
             (writeJSON 200 (doc_Balances b),
              case sv_audit s of None \<Rightarrow> we1
              | Some emit \<Rightarrow> report_balances D s ctx 0 emit (map snd (ord b)) we1)))"

definition doc_TopOfBook :: "TopOfBook \<Rightarrow> 'd jdoc" where
  "doc_TopOfBook t = DObj
     [(''Pair'', DStr (tb_Pair t)), (''Bid'', DFloat (tb_Bid t)), (''Ask'', DFloat (tb_Ask t)),
      (''TS'', DTime (tb_TS t))]"

definition handleBook :: "server_request \<Rightarrow> ('c, 's, 'k, 'p, 'h) world \<Rightarrow> 'd server_response" where
  "handleBook r w =
     (if sr_Method r \<noteq> ''GET'' then writeError 405 ''method not allowed''
      else let pair = TrimSuffix (TrimPrefix (sr_Path r) ''/v1/book/'') ''/'' in
        if pair = [] then writeError 400 ''missing pair''
        else case BookAggregator_Get pair (w_book w) of
               None \<Rightarrow> writeError 404 ''no book for pair''
             | Some tob \<Rightarrow> writeJSON 200 (doc_TopOfBook tob))"

section \<open>Routes\<close>

datatype route = RHealthz | RReadyz | RAdminStatus | RRotateCreds | ROrdersRoot | ROrderSub | RBalances | RBook

definition mux_routes :: "(string \<times> route) list" where
  "mux_routes =
     [(''/healthz'', RHealthz), (''/readyz'', RReadyz), (''/admin/status'', RAdminStatus),
      (''/admin/rotate-credentials'', RRotateCreds), (''/v1/orders'', ROrdersRoot),
      (''/v1/orders/'', ROrderSub), (''/v1/balances'', RBalances), (''/v1/book/'', RBook)]"

fun serve_route ::
    "err_texts \<Rightarrow> 'd decimal_ops \<Rightarrow> ('c, 's, 'k, 'p, 'h, 'd) Service \<Rightarrow> (nat \<Rightarrow> nat \<Rightarrow> string option)
      \<Rightarrow> ('d Balances \<Rightarrow> 'd Balances) \<Rightarrow> route \<Rightarrow> (('c, 's, 'k, 'p, 'h) world, 'd) handler" where
  "serve_route T D s ctx ord RHealthz r we = (handleHealthz, we)"
| "serve_route T D s ctx ord RReadyz r we = (handleReadyz s, we)"
| "serve_route T D s ctx ord RAdminStatus r we = (handleAdminStatus s (fst we), we)"
| "serve_route T D s ctx ord RRotateCreds r we = handleRotateCreds D s we"
| "serve_route T D s ctx ord ROrdersRoot r we = handleOrdersRoot T D s ctx r we"
| "serve_route T D s ctx ord ROrderSub r we = handleOrderSub D s r we"
| "serve_route T D s ctx ord RBalances r we = handleBalances D s ctx ord r we"
| "serve_route T D s ctx ord RBook r we = (handleBook r (fst we), we)"

text \<open>The body of a redirect stands for its target.\<close>

definition mux_serve ::
    "err_texts \<Rightarrow> 'd decimal_ops \<Rightarrow> ('c, 's, 'k, 'p, 'h, 'd) Service \<Rightarrow> (nat \<Rightarrow> nat \<Rightarrow> string option)
      \<Rightarrow> ('d Balances \<Rightarrow> 'd Balances) \<Rightarrow> (('c, 's, 'k, 'p, 'h) world, 'd) handler" where
  "mux_serve T D s ctx ord r we =
     (case mux_choose mux_routes r of
        Serve h \<Rightarrow> serve_route T D s ctx ord h r we
      | Redirect p \<Rightarrow> (\<lparr>sp_status = 301, sp_body = Plain p\<rparr>, we)
      | NotFound \<Rightarrow> (\<lparr>sp_status = 404, sp_body = Plain (''404 page not found'' @ [CHR 0x0A])\<rparr>, we))"

definition Routes ::
    "err_texts \<Rightarrow> 'd decimal_ops \<Rightarrow> ('c, 's, 'k, 'p, 'h, 'd) Service \<Rightarrow> (nat \<Rightarrow> nat \<Rightarrow> string option)
      \<Rightarrow> ('d Balances \<Rightarrow> 'd Balances) \<Rightarrow> string \<times> bool \<Rightarrow> (('c, 's, 'k, 'p, 'h) world, 'd) handler" where
  "Routes T D s ctx ord = (\<lambda>(secret, bypass). Middleware T secret bypass (mux_serve T D s ctx ord))"

section \<open>What the calls leave alone\<close>

named_theorems world_frame \<open>which part of the world a call changes\<close>

lemma call_store_frame [world_frame]:
  assumes "call_store f (w, e) = (w', e')"
  shows "w_conn w' = w_conn w" "w_sink w' = w_sink w" "w_pub w' = w_pub w" "w_dead w' = w_dead w" "w_book w' = w_book w"
  using assms by (auto simp: call_store_def split: prod.splits)

lemma call_sink_frame [world_frame]:
  assumes "call_sink emit ev (w, e) = (w', e')"
  shows "w_conn w' = w_conn w" "w_store w' = w_store w" "w_pub w' = w_pub w" "w_dead w' = w_dead w" "w_book w' = w_book w"
  using assms by (auto simp: call_sink_def split: prod.splits)

lemma call_bus_frame [world_frame]:
  assumes "call_bus f (w, e) = (w', e')"
  shows "w_conn w' = w_conn w" "w_store w' = w_store w" "w_sink w' = w_sink w" "w_book w' = w_book w"
  using assms by (auto simp: call_bus_def split: prod.splits)

lemma call_conn_eq:
  "call_conn f (w, e) =
     (fst (f (w_conn w, e)), w\<lparr>w_conn := fst (snd (f (w_conn w, e)))\<rparr>, snd (snd (f (w_conn w, e))))"
  by (simp add: call_conn_def split: prod.splits)

lemma handleOrderSub_without_audit:
  assumes "sv_audit s = None"
  shows "w_pub (fst (snd (handleOrderSub D s r (w, e)))) = w_pub w"
    and "w_dead (fst (snd (handleOrderSub D s r (w, e)))) = w_dead w"
proof -
  obtain i sub where p: "splitOrderPath (sr_Path r) = (i, sub)" by force
  consider "i = []" | "i \<noteq> []" "sub = ''cancel''" | "i \<noteq> []" "sub = ''fills''" | "i \<noteq> []" "sub = ''status'' \<or> sub = []"
    | "i \<noteq> []" "sub \<notin> {''cancel'', ''fills'', ''status'', []}" by blast
  then have "w_pub (fst (snd (handleOrderSub D s r (w, e)))) = w_pub w
      \<and> w_dead (fst (snd (handleOrderSub D s r (w, e)))) = w_dead w"
    by cases (use assms in \<open>auto simp: handleOrderSub_def p call_conn_eq Let_def split: option.splits sum.splits\<close>)
  then show "w_pub (fst (snd (handleOrderSub D s r (w, e)))) = w_pub w"
      "w_dead (fst (snd (handleOrderSub D s r (w, e)))) = w_dead w" by simp_all
qed

lemma record_fills_frame:
  "record_fills s req resp fs (w, e) = (w', e') \<Longrightarrow>
     w_conn w' = w_conn w \<and> w_sink w' = w_sink w \<and> w_pub w' = w_pub w \<and> w_dead w' = w_dead w \<and> w_book w' = w_book w"
proof (induction fs arbitrary: w e)
  case (Cons f fs)
  obtain w1 e1 where c: "call_store (RecordFill (sv_store s) (fill_record (sv_venueName s) req resp f)) (w, e) = (w1, e1)"
    by force
  with Cons show ?case using call_store_frame [OF c] by fastforce
qed simp

lemma report_fills_frame:
  "report_fills D s ctx k emit req resp fs (w, e) = (w', e') \<Longrightarrow>
     w_conn w' = w_conn w \<and> w_store w' = w_store w \<and> w_book w' = w_book w"
proof (induction fs arbitrary: w e k)
  case (Cons f fs)
  obtain w1 e1 where c: "call_sink emit (fill_event D (sv_venueName s) req resp f) (w, e) = (w1, e1)" by force
  note f1 = call_sink_frame [OF c]
  show ?case
  proof (cases "sv_events s")
    case None
    with Cons c f1 show ?thesis by fastforce
  next
    case (Some b)
    obtain w2 e2 where c2: "call_bus (PublishFill b (ctx k)
        (FillFromVenue (sv_venueName s) (os_VenueOrderID resp) (oq_Pair req) f)) (w1, e1) = (w2, e2)" by force
    with Cons c f1 Some show ?thesis using call_bus_frame [OF c2] by fastforce
  qed
qed simp

lemma parse_order_no_client_id: "parse_order T D r = Inr (req, vReq) \<Longrightarrow> or_ClientOrderID vReq = []"
  by (auto simp: parse_order_def Let_def split: if_splits prod.splits bool.splits option.splits)

lemma parse_order_status: "parse_order T D r = Inl (status, msg) \<Longrightarrow> status = 400 \<or> status = 405"
  by (auto simp: parse_order_def Let_def split: if_splits prod.splits bool.splits option.splits)

lemma parse_order_positive:
  "parse_order T D r = Inr (req, vReq) \<Longrightarrow> \<not> d_LessThanOrEqual D (or_Quantity vReq) (d_Zero D)
     \<and> or_Symbol vReq = oq_Pair req \<and> oq_Pair req \<noteq> []"
  by (auto simp: parse_order_def Let_def split: if_splits prod.splits bool.splits option.splits)

section \<open>Orders reach the store\<close>

context order_store
begin

lemma record_fills_keys:
  assumes "record_fills s req resp fs (w, e) = (w', e')" "sv_store s = ops"
    and "distinct (map fill_key (fills (w_store w)))"
  shows "distinct (map fill_key (fills (w_store w')))
    \<and> fill_key ` set (fills (w_store w')) =
        fill_key ` set (fills (w_store w)) \<union> (\<lambda>f. (sv_venueName s, fl_TradeID f)) ` set fs
    \<and> orders (w_store w') = orders (w_store w)"
  using assms
proof (induction fs arbitrary: w e)
  case Nil
  then show ?case by simp
next
  case (Cons f fs)
  let ?g = "fill_record (sv_venueName s) req resp f"
  obtain r st e1 where c: "RecordFill ops ?g (w_store w, e) = (r, st, e1)" by (metis surj_pair)
  have run: "record_fills s req resp fs (w\<lparr>w_store := st\<rparr>, e1) = (w', e')"
    using Cons.prems(1,2) by (simp add: call_store_def c)
  have k: "fill_key ?g = (sv_venueName s, fl_TradeID f)" by (simp add: fill_key_def fill_record_def)
  note keys = record_fill_keys [OF c Cons.prems(3), unfolded k]
  have "distinct (map fill_key (fills (w_store (w\<lparr>w_store := st\<rparr>))))" using keys by simp
  from Cons.IH [OF run Cons.prems(2) this] keys show ?case by auto
qed

lemma order_and_fills_recorded:
  assumes "call_store (RecordOrder ops x) (w, e) = (w1, e1)"
    and "record_fills s req resp fs (w1, e1) = (w2, e2)" "sv_store s = ops"
    and "distinct (map fill_key (fills (w_store w)))"
  shows "(\<exists>y. orders (w_store w2) (so_ClientOrderID x) = Some y
           \<and> (orders (w_store w) (so_ClientOrderID x) = None \<longrightarrow> same_order x y))
    \<and> fill_key ` set (fills (w_store w2)) =
        fill_key ` set (fills (w_store w)) \<union> (\<lambda>f. (sv_venueName s, fl_TradeID f)) ` set fs
    \<and> distinct (map fill_key (fills (w_store w2)))"
proof -
  obtain r st e' where c: "RecordOrder ops x (w_store w, e) = (r, st, e')" by (metis surj_pair)
  have w1: "w1 = w\<lparr>w_store := st\<rparr>" using assms(1) by (simp add: call_store_def c)
  have st: "fills st = fills (w_store w)"
    using c record_known [of "w_store w" x e] record_new [of "w_store w" x e]
    by (cases "orders (w_store w) (so_ClientOrderID x) = None") auto
  have "\<exists>y. orders st (so_ClientOrderID x) = Some y \<and> (orders (w_store w) (so_ClientOrderID x) = None \<longrightarrow> same_order x y)"
    using record_order_first_wins [OF c] by (cases "orders (w_store w) (so_ClientOrderID x)") auto
  with record_fills_keys [OF assms(2,3)] assms(4) st w1 show ?thesis by auto
qed

end

section \<open>Orders reach the audit trail\<close>

definition unstamped :: "'d audit_Event \<Rightarrow> 'd audit_Event" where
  "unstamped ev = ev\<lparr>ae_Timestamp := 0\<rparr>"

lemma call_sink_memory:
  assumes "call_sink InMemorySink_Emit ev (w, e) = (w', e')" "ae_Timestamp ev = 0"
  shows "map unstamped (w_sink w') = map unstamped (w_sink w) @ [ev]"
  using assms by (auto simp: call_sink_def InMemorySink_Emit_def stamp_event_def time_IsZero_def unstamped_def
      time_Now_def)

lemma fresh_events [simp]:
  "ae_Timestamp (fill_event D v req resp f) = 0" "ae_Timestamp (placed_event D v req vReq resp) = 0"
  by (simp_all add: fill_event_def placed_event_def new_Event_def)

lemma report_fills_memory:
  "report_fills D s ctx k InMemorySink_Emit req resp fs (w, e) = (w', e') \<Longrightarrow>
     map unstamped (w_sink w') = map unstamped (w_sink w) @ map (fill_event D (sv_venueName s) req resp) fs"
proof (induction fs arbitrary: w e k)
  case (Cons f fs)
  obtain w1 e1 where c: "call_sink InMemorySink_Emit (fill_event D (sv_venueName s) req resp f) (w, e) = (w1, e1)"
    by force
  note m = call_sink_memory [OF c]
  show ?case
  proof (cases "sv_events s")
    case None
    with Cons c have "report_fills D s ctx (Suc k) InMemorySink_Emit req resp fs (w1, e1) = (w', e')" by simp
    from Cons.IH [OF this] m show ?thesis by simp
  next
    case (Some b)
    obtain w2 e2 where c2: "call_bus (PublishFill b (ctx k)
        (FillFromVenue (sv_venueName s) (os_VenueOrderID resp) (oq_Pair req) f)) (w1, e1) = (w2, e2)" by force
    with Cons c Some have "report_fills D s ctx (Suc k) InMemorySink_Emit req resp fs (w2, e2) = (w', e')" by simp
    from Cons.IH [OF this] m call_bus_frame [OF c2] show ?thesis by simp
  qed
qed simp

section \<open>Paths of orders\<close>

lemma splitOrderPath_sub:
  assumes "CHR ''/'' \<notin> set i" "CHR ''/'' \<notin> set sub" "sub \<noteq> []"
  shows "splitOrderPath (''/v1/orders/'' @ i @ ''/'' @ sub) = (i, sub)"
proof -
  have p: "TrimPrefix (''/v1/orders/'' @ x) ''/v1/orders/'' = x" for x by (simp add: TrimPrefix_def)
  have "\<not> HasSuffix (i @ ''/'' @ sub) ''/''"
    using assms(2,3) by (auto simp: HasSuffix_iff append_eq_append_conv2 append_eq_Cons_conv Cons_eq_append_conv)
  then have "TrimSuffix (i @ ''/'' @ sub) ''/'' = i @ CHR ''/'' # sub" by (simp add: TrimSuffix_def)
  then show ?thesis unfolding splitOrderPath_def p by (simp add: SplitN2_sep [OF assms(1)])
qed

lemma writeJSON_status [simp]: "sp_status (writeJSON status v) = status"
  by (simp add: writeJSON_def)

lemma writeError_status [simp]: "sp_status (writeError status msg) = status"
  by (simp add: writeError_def)

section \<open>An example deployment\<close>

text \<open>The dummy connector with the in-memory store and sink, and a request to buy 2 BTCUSDT.\<close>

definition example_texts :: err_texts where
  "example_texts = \<lparr>et_base64 = (\<lambda>_. ''illegal base64 data''), et_json = (\<lambda>_. ''invalid character'')\<rparr>"

definition example_service ::
    "(rat DummyVenueConnector, rat MemStore, rat InMemorySink, rat broker, unit, rat) Service" where
  "example_service =
     \<lparr>sv_connector = Dummy_connector rat_decimal, sv_audit = Some InMemorySink_Emit, sv_events = None,
      sv_venueName = ''dummy'', sv_ready = True, sv_store = MemStore_ops\<rparr>"

definition example_world ::
    "(rat DummyVenueConnector, rat MemStore, rat InMemorySink, rat broker, unit) world" where
  "example_world =
     \<lparr>w_conn = NewDummyVenueConnector rat_decimal [], w_store = MemStore_New, w_sink = NewInMemorySink,
      w_pub = \<lparr>bk_answer = (\<lambda>_. None), bk_log = []\<rparr>, w_dead = (),
      w_book = \<lparr>ba_latest = Map.empty, ba_cancelled = False\<rparr>\<rparr>"

definition example_request :: server_request where
  "example_request =
     (let q = [CHR 0x22]; m = (\<lambda>k v. q @ k @ q @ '':'' @ q @ v @ q)
      in \<lparr>sr_Method = ''POST'', sr_Path = ''/v1/orders'', sr_RawQuery = [], sr_Headers = [],
          sr_Body = ''{'' @ Join [m ''venue'' ''dummy'', m ''pair'' ''BTCUSDT'', m ''side'' ''buy'',
            m ''type'' ''market'', m ''amount'' ''2''] '','' @ ''}''\<rparr>)"

lemma example_parsed:
  "parse_order example_texts rat_decimal example_request =
     Inr (\<lparr>oq_Venue = ''dummy'', oq_Pair = ''BTCUSDT'', oq_Side = ''buy'', oq_Type = ''market'',
           oq_Amount = ''2'', oq_Price = []\<rparr>,
          \<lparr>or_ClientOrderID = [], or_Symbol = ''BTCUSDT'', or_Side = ''buy'', or_Type = ''market'',
           or_Quantity = 2, or_Price = 0\<rparr>)"
  by code_simp

section \<open>Properties\<close>

text \<open>
  C1. A placed order is recorded and audited. With the in-memory store and the in-memory audit
  sink, and any connector and event bus: when the request is valid and the connector answers
  with an order, the response is 200, the store holds an order under the client order id the
  connector returned (this one, if there was none before) and exactly the response's fills are
  added under their (venue, trade id), each once, and the audit trail grows by the order event
  followed by one event per fill, in order.
\<close>

theorem place_order_recorded_and_audited:
  fixes s :: "('c, 'd MemStore, 'd InMemorySink, 'p, 'h, 'd) Service"
  assumes "sv_store s = MemStore_ops" "sv_audit s = Some InMemorySink_Emit"
    and "parse_order T D r = Inr (req, vReq)"
    and "PlaceOrder (sv_connector s) vReq (w_conn w, e) = (Inr resp, c, e1)"
    and "distinct (map fill_key (ms_fills (w_store w)))"
    and "handleOrdersRoot T D s ctx r (w, e) = (out, w', e')"
  shows "sp_status out = 200 \<and> w_conn w' = c
    \<and> (\<exists>y. MemStore_GetOrderByClientID (os_ClientOrderID resp) (w_store w') = Some y
           \<and> (MemStore_GetOrderByClientID (os_ClientOrderID resp) (w_store w) = None \<longrightarrow>
                same_order (order_record (sv_venueName s) req vReq resp) y))
    \<and> fill_key ` set (ms_fills (w_store w')) =
        fill_key ` set (ms_fills (w_store w)) \<union> (\<lambda>f. (sv_venueName s, fl_TradeID f)) ` set (os_Fills resp)
    \<and> distinct (map fill_key (ms_fills (w_store w')))
    \<and> map unstamped (w_sink w') = map unstamped (w_sink w) @
        placed_event D (sv_venueName s) req vReq resp # map (fill_event D (sv_venueName s) req resp) (os_Fills resp)"
proof -
  let ?x = "order_record (sv_venueName s) req vReq resp"
  let ?w1 = "w\<lparr>w_conn := c\<rparr>"
  obtain w2 e2 where s2: "call_store (RecordOrder MemStore_ops ?x) (?w1, e1) = (w2, e2)" by force
  obtain w3 e3 where s3: "record_fills s req resp (os_Fills resp) (w2, e2) = (w3, e3)" by force
  obtain w4 e4 where s4: "call_sink InMemorySink_Emit (placed_event D (sv_venueName s) req vReq resp) (w3, e3) = (w4, e4)"
    by force
  obtain w5 e5 where s5: "report_fills D s ctx 0 InMemorySink_Emit req resp (os_Fills resp) (w4, e4) = (w5, e5)" by force
  have out: "sp_status out = 200" "w' = w5"
    using assms(1-4,6) s2 s3 s4 s5 by (auto simp: handleOrdersRoot_def call_conn_def writeJSON_def)
  have conn: "w_conn w5 = c" "w_store w5 = w_store w3"
    using report_fills_frame [OF s5] call_sink_frame [OF s4] record_fills_frame [OF s3] call_store_frame [OF s2]
    by simp_all
  have sink: "map unstamped (w_sink w5) = map unstamped (w_sink w) @
      placed_event D (sv_venueName s) req vReq resp # map (fill_event D (sv_venueName s) req resp) (os_Fills resp)"
    using report_fills_memory [OF s5] call_sink_memory [OF s4] record_fills_frame [OF s3] call_store_frame [OF s2]
    by simp
  have store: "(\<exists>y. ms_orders (w_store w3) (so_ClientOrderID ?x) = Some y
        \<and> (ms_orders (w_store ?w1) (so_ClientOrderID ?x) = None \<longrightarrow> same_order ?x y))
      \<and> fill_key ` set (ms_fills (w_store w3)) =
          fill_key ` set (ms_fills (w_store ?w1)) \<union> (\<lambda>f. (sv_venueName s, fl_TradeID f)) ` set (os_Fills resp)
      \<and> distinct (map fill_key (ms_fills (w_store w3)))"
    by (rule mem.order_and_fills_recorded [OF s2 s3 assms(1)]) (simp add: assms(5))
  have x: "so_ClientOrderID ?x = os_ClientOrderID resp" by (simp add: order_record_def)
  show ?thesis
    using store out conn sink unfolding x MemStore_GetOrderByClientID_def by simp
qed

theorem place_order_recorded_and_audited_witness:
  "\<exists>out w' e' evs. handleOrdersRoot example_texts rat_decimal example_service (\<lambda>_ _. None) example_request
        (example_world, fixed_env) = (out, w', e')
    \<and> sp_status out = 200 \<and> (\<exists>y. MemStore_GetOrderByClientID ''u'' (w_store w') = Some y)
    \<and> fill_key ` set (ms_fills (w_store w')) = {(''dummy'', ''u'')}
    \<and> map unstamped (w_sink w') = evs \<and> map ae_Type evs = [EventOrderPlaced, EventFill]"
proof -
  obtain out w' e' where run: "handleOrdersRoot example_texts rat_decimal example_service (\<lambda>_ _. None) example_request
      (example_world, fixed_env) = (out, w', e')" by (metis surj_pair)
  let ?v = "\<lparr>or_ClientOrderID = [], or_Symbol = ''BTCUSDT'', or_Side = ''buy'', or_Type = ''market'',
           or_Quantity = 2, or_Price = 0 :: rat\<rparr>"
  obtain resp c e1 where p: "PlaceOrder (sv_connector example_service) ?v (w_conn example_world, fixed_env) = (Inr resp, c, e1)"
      and r: "os_ClientOrderID resp = ''u''" "map fl_TradeID (os_Fills resp) = [''u'']"
    by (simp add: example_service_def example_world_def Dummy_connector_def Dummy_PlaceOrder_def fixed_env_def
        uuid_NewString_def time_Now_def Let_def)
  have s: "sv_store example_service = MemStore_ops" "sv_audit example_service = Some InMemorySink_Emit"
      "distinct (map fill_key (ms_fills (w_store example_world)))"
    by (simp_all add: example_service_def example_world_def MemStore_New_def)
  obtain f where f: "os_Fills resp = [f]" "fl_TradeID f = ''u''" using r(2) by auto
  from place_order_recorded_and_audited [OF s(1,2) example_parsed p s(3) run] run r f
  show ?thesis
    by (auto simp: example_world_def example_service_def MemStore_New_def NewInMemorySink_def placed_event_def
        fill_event_def new_Event_def)
qed

text \<open>
  C27. What reaches the venue. A request to \<open>/v1/orders\<close> is either refused with 400 or 405, the
  whole world and the environment being as before, or it is a POST and the connector is asked to
  place one order, with a symbol and a positive quantity; then the status is 502 exactly when
  the connector fails. The order never carries a client order id.
\<close>

theorem handleOrdersRoot_validates:
  assumes "handleOrdersRoot T D s ctx r (w, e) = (out, w', e')"
  shows "(sp_status out \<in> {400, 405} \<and> w' = w \<and> e' = e)
    \<or> (\<exists>vReq. sr_Method r = ''POST'' \<and> or_ClientOrderID vReq = [] \<and> or_Symbol vReq \<noteq> []
          \<and> \<not> d_LessThanOrEqual D (or_Quantity vReq) (d_Zero D)
          \<and> (case PlaceOrder (sv_connector s) vReq (w_conn w, e) of
               (Inl err, c, e1) \<Rightarrow> sp_status out = 502 \<and> w' = w\<lparr>w_conn := c\<rparr> \<and> e' = e1
             | (Inr resp, c, e1) \<Rightarrow> sp_status out = 200 \<and> w_conn w' = c))"
proof (cases "parse_order T D r")
  case (Inl a)
  obtain status msg where a: "a = (status, msg)" by force
  from parse_order_status [OF Inl [unfolded a]] Inl assms show ?thesis
    by (auto simp: handleOrdersRoot_def a)
next
  case (Inr a)
  obtain req vReq where a: "a = (req, vReq)" by force
  have post: "sr_Method r = ''POST''" using Inr by (auto simp: parse_order_def split: if_splits)
  note v = parse_order_no_client_id [OF Inr [unfolded a]] parse_order_positive [OF Inr [unfolded a]]
  obtain res c e1 where p: "PlaceOrder (sv_connector s) vReq (w_conn w, e) = (res, c, e1)" by (metis surj_pair)
  have "case res of Inl err \<Rightarrow> sp_status out = 502 \<and> w' = w\<lparr>w_conn := c\<rparr> \<and> e' = e1
      | Inr resp \<Rightarrow> sp_status out = 200 \<and> w_conn w' = c"
  proof (cases res)
    case (Inl err)
    with assms Inr p show ?thesis by (auto simp: handleOrdersRoot_def call_conn_def a)
  next
    case (Inr resp)
    obtain w2 e2 where s2: "call_store (RecordOrder (sv_store s) (order_record (sv_venueName s) req vReq resp))
        (w\<lparr>w_conn := c\<rparr>, e1) = (w2, e2)" by force
    obtain w3 e3 where s3: "record_fills s req resp (os_Fills resp) (w2, e2) = (w3, e3)" by force
    have c3: "w_conn w3 = c" using record_fills_frame [OF s3] call_store_frame [OF s2] by simp
    show ?thesis
    proof (cases "sv_audit s")
      case None
      with assms Inr \<open>parse_order T D r = Inr a\<close> p s2 s3 c3 show ?thesis
        by (auto simp: handleOrdersRoot_def call_conn_def a)
    next
      case (Some emit)
      obtain w4 e4 where s4: "call_sink emit (placed_event D (sv_venueName s) req vReq resp) (w3, e3) = (w4, e4)"
        by force
      with assms Inr \<open>parse_order T D r = Inr a\<close> p s2 s3 Some
      have "sp_status out = 200" "report_fills D s ctx 0 emit req resp (os_Fills resp) (w4, e4) = (w', e')"
        by (auto simp: handleOrdersRoot_def call_conn_def a)
      with report_fills_frame [OF this(2)] call_sink_frame [OF s4] c3 Inr show ?thesis by simp
    qed
  qed
  with p v post show ?thesis by (intro disjI2 exI [of _ vReq]) (auto split: sum.splits)
qed

theorem handleOrdersRoot_validates_witness:
  "\<exists>out w' e'. handleOrdersRoot example_texts rat_decimal example_service (\<lambda>_ _. None)
        (example_request\<lparr>sr_Method := ''GET''\<rparr>) (example_world, fixed_env) = (out, w', e')
    \<and> sp_status out \<in> {400, 405} \<and> w' = example_world \<and> e' = fixed_env"
proof -
  obtain out w' e' where run: "handleOrdersRoot example_texts rat_decimal example_service (\<lambda>_ _. None)
        (example_request\<lparr>sr_Method := ''GET''\<rparr>) (example_world, fixed_env) = (out, w', e')" by (metis surj_pair)
  from handleOrdersRoot_validates [OF run] run show ?thesis by auto
qed

text \<open>
  C28. Placing and reading back through the service. With the dummy connector, an order accepted
  under a fresh identifier (not empty, without a slash) can be read at
  \<open>/v1/orders/<id>/status\<close>: the answer is 200 with exactly the order that was placed, whatever the
  store, sink and bus are.
\<close>

theorem place_then_status:
  fixes s :: "('d DummyVenueConnector, 's, 'k, 'p, 'h, 'd) Service"
  assumes "sv_connector s = Dummy_connector D" "parse_order T D r = Inr (req, vReq)"
    and "handleOrdersRoot T D s ctx r (w, e) = (out, w1, e1)"
    and "env_uuid e (env_uuids e) = oid" "oid \<noteq> []" "CHR ''/'' \<notin> set oid"
    and "sr_Method r2 = ''GET''" "sr_Path r2 = ''/v1/orders/'' @ oid @ ''/status''"
  shows "\<exists>o' w2 e2. out = writeJSON 200 (doc_orderResponse (sv_venueName s) req o') \<and> os_VenueOrderID o' = oid
    \<and> os_FilledQty o' = or_Quantity vReq
    \<and> handleOrderSub D s r2 (w1, e1) = (writeJSON 200 (doc_OrderResponse o'), w2, e2)"
proof -
  have cid: "or_ClientOrderID vReq = []" by (rule parse_order_no_client_id [OF assms(2)])
  obtain res c e' where p: "Dummy_PlaceOrder D vReq (w_conn w, e) = (res, c, e')" by (metis surj_pair)
  then obtain o' where o': "res = Inr o'" "os_VenueOrderID o' = oid" "os_FilledQty o' = or_Quantity vReq"
      "dv_orders c oid = Some o'"
    using assms(4) cid by (auto simp: Dummy_PlaceOrder_def uuid_NewString_def Let_def time_Now_def split: if_splits)
  have pc: "PlaceOrder (sv_connector s) vReq (w_conn w, e) = (Inr o', c, e')"
    using p o'(1) assms(1) by (simp add: Dummy_connector_def)
  obtain w2 e2 where s2: "call_store (RecordOrder (sv_store s) (order_record (sv_venueName s) req vReq o'))
      (w\<lparr>w_conn := c\<rparr>, e') = (w2, e2)" by force
  obtain w3 e3 where s3: "record_fills s req o' (os_Fills o') (w2, e2) = (w3, e3)" by force
  have c3: "w_conn w3 = c" using record_fills_frame [OF s3] call_store_frame [OF s2] by simp
  have out: "out = writeJSON 200 (doc_orderResponse (sv_venueName s) req o')" "w_conn w1 = c"
  proof -
    show "out = writeJSON 200 (doc_orderResponse (sv_venueName s) req o')"
      using assms(2,3) pc by (auto simp: handleOrdersRoot_def call_conn_def Let_def)
    show "w_conn w1 = c"
    proof (cases "sv_audit s")
      case None
      then show ?thesis using assms(2,3) pc s2 s3 c3 by (auto simp: handleOrdersRoot_def call_conn_def)
    next
      case (Some emit)
      obtain w4 e4 where s4: "call_sink emit (placed_event D (sv_venueName s) req vReq o') (w3, e3) = (w4, e4)"
        by force
      with assms(2,3) pc s2 s3 Some have "report_fills D s ctx 0 emit req o' (os_Fills o') (w4, e4) = (w1, e1)"
        by (auto simp: handleOrdersRoot_def call_conn_def)
      from report_fills_frame [OF this] call_sink_frame [OF s4] c3 show ?thesis by simp
    qed
  qed
  have path: "splitOrderPath (sr_Path r2) = (oid, ''status'')"
    using splitOrderPath_sub [OF assms(6), of "''status''"] assms(8) by simp
  have "GetOrder (sv_connector s) oid (w_conn w1, e1) = (Inr o', w_conn w1, e1)"
    using out(2) o'(4) assms(1) by (simp add: Dummy_connector_def Dummy_GetOrder_def)
  with path assms(5,7) out(1) o'(2,3) show ?thesis
    by (intro exI [of _ o']) (simp add: handleOrderSub_def call_conn_def)
qed

theorem place_then_status_witness:
  "\<exists>out w1 e1 o' w2 e2. handleOrdersRoot example_texts rat_decimal example_service (\<lambda>_ _. None) example_request
        (example_world, fixed_env) = (out, w1, e1) \<and> os_VenueOrderID o' = ''u''
    \<and> handleOrderSub rat_decimal example_service \<lparr>sr_Method = ''GET'', sr_Path = ''/v1/orders/u/status'',
         sr_RawQuery = [], sr_Headers = [], sr_Body = []\<rparr> (w1, e1) = (writeJSON 200 (doc_OrderResponse o'), w2, e2)"
proof -
  obtain out w1 e1 where run: "handleOrdersRoot example_texts rat_decimal example_service (\<lambda>_ _. None) example_request
      (example_world, fixed_env) = (out, w1, e1)" by (metis surj_pair)
  have "sv_connector example_service = Dummy_connector rat_decimal" by (simp add: example_service_def)
  from place_then_status [OF this example_parsed run, of "''u''" "\<lparr>sr_Method = ''GET'',
      sr_Path = ''/v1/orders/u/status'', sr_RawQuery = [], sr_Headers = [], sr_Body = []\<rparr>"] run
  show ?thesis by (auto simp: fixed_env_def)
qed

text \<open>
  C38. Fill and balance events depend on the audit sink: a service with an event bus but without
  an audit sink publishes nothing, on any route.
\<close>

theorem no_audit_no_events:
  assumes "sv_audit s = None" "mux_serve T D s ctx ord r (w, e) = (out, w', e')"
  shows "w_pub w' = w_pub w \<and> w_dead w' = w_dead w"
proof -
  have orders: "w_pub w' = w_pub w \<and> w_dead w' = w_dead w"
    if run: "handleOrdersRoot T D s ctx r (w, e) = (out, w', e')"
  proof (cases "parse_order T D r")
    case (Inl a)
    with run show ?thesis by (auto simp: handleOrdersRoot_def split: prod.splits)
  next
    case (Inr a)
    obtain req vReq where a: "a = (req, vReq)" by force
    obtain res w1 e1 where c: "call_conn (PlaceOrder (sv_connector s) vReq) (w, e) = (res, w1, e1)" by (metis surj_pair)
    show ?thesis
    proof (cases res)
      case (Inl err)
      with run Inr a c show ?thesis by (auto simp: handleOrdersRoot_def call_conn_eq)
    next
      case (Inr resp)
      obtain w2 e2 where s2: "call_store (RecordOrder (sv_store s) (order_record (sv_venueName s) req vReq resp)) (w1, e1) = (w2, e2)"
        by force
      with run \<open>parse_order T D r = Inr a\<close> a c Inr assms(1)
      have "record_fills s req resp (os_Fills resp) (w2, e2) = (w', e')" by (auto simp: handleOrdersRoot_def)
      from record_fills_frame [OF this] call_store_frame [OF s2] c show ?thesis by (auto simp: call_conn_eq)
    qed
  qed
  show ?thesis
  proof (cases "mux_choose mux_routes r")
    case (Serve h)
    with assms(2) have run: "serve_route T D s ctx ord h r (w, e) = (out, w', e')" by (simp add: mux_serve_def)
    show ?thesis
    proof (cases h)
      case ROrdersRoot
      with run orders show ?thesis by simp
    next
      case ROrderSub
      with run handleOrderSub_without_audit [OF assms(1), of D r w e] show ?thesis by auto
    next
      case RBalances
      with run assms(1) show ?thesis
        by (auto simp: handleBalances_def call_conn_eq split: if_splits sum.splits)
    qed (use run assms(1) in \<open>auto simp: handleRotateCreds_def\<close>)
  qed (use assms(2) in \<open>auto simp: mux_serve_def\<close>)
qed

theorem no_audit_no_events_witness:
  "\<exists>out w' e'. mux_serve example_texts rat_decimal (example_service\<lparr>sv_audit := None,
        sv_events := Some (NewBus (KafkaPublisher_Publish (Some \<lparr>kp_brokers = [''h''], kp_topic = ''recon''\<rparr>)) ''recon'')\<rparr>)
        (\<lambda>_ _. None) id example_request (example_world, fixed_env) = (out, w', e') \<and> w_pub w' = w_pub example_world"
proof -
  let ?s = "example_service\<lparr>sv_audit := None,
        sv_events := Some (NewBus (KafkaPublisher_Publish (Some \<lparr>kp_brokers = [''h''], kp_topic = ''recon''\<rparr>)) ''recon'')\<rparr>"
  obtain out w' e' where run: "mux_serve example_texts rat_decimal ?s (\<lambda>_ _. None) id example_request
      (example_world, fixed_env) = (out, w', e')" by (metis surj_pair)
  have "sv_audit ?s = None" by simp
  from no_audit_no_events [OF this run] run show ?thesis by auto
qed

text \<open>
  C40. What \<open>GET /v1/book/<pair>\<close> answers after any stream of updates to a new aggregator: 404
  when no update was for the pair, and otherwise the prices of the first bid and of the first ask
  of the last update for the pair, with its time. A side that this update leaves out is reported
  as 0, whatever an earlier update said.
\<close>

theorem book_route_last_update:
  assumes "NewBookAggregator conn pairs ce = (Inr a, ce')" "w_book w = consume D ch a"
    and "sr_Method r = ''GET''" "sr_Path r = ''/v1/book/'' @ pair" "pair \<noteq> []" "last pair \<noteq> CHR ''/''"
  shows "handleBook r w =
    (case find (\<lambda>u. bu_Pair u = pair) (rev ch) of
       None \<Rightarrow> writeError 404 ''no book for pair''
     | Some u \<Rightarrow> writeJSON 200 (DObj [(''Pair'', DStr pair),
         (''Bid'', DFloat (case bu_Bids u of [] \<Rightarrow> F64 0 | bid # _ \<Rightarrow> d_Float64 D (bl_Price bid))),
         (''Ask'', DFloat (case bu_Asks u of [] \<Rightarrow> F64 0 | ask # _ \<Rightarrow> d_Float64 D (bl_Price ask))),
         (''TS'', DTime (bu_TS u))]))"
proof -
  have "\<not> HasSuffix pair ''/''" using assms(6) by (auto simp: HasSuffix_iff)
  then have "TrimSuffix (TrimPrefix (sr_Path r) ''/v1/book/'') ''/'' = pair"
    using TrimPrefix_append [of "''/v1/book/''" pair] unfolding assms(4) by (simp add: TrimSuffix_def)
  then have h: "handleBook r w = (case BookAggregator_Get pair (consume D ch a) of None \<Rightarrow> writeError 404 ''no book for pair''
      | Some t \<Rightarrow> writeJSON 200 (doc_TopOfBook t))"
    using assms(2,3,5) by (simp add: handleBook_def)
  show ?thesis
  proof (cases "find (\<lambda>u. bu_Pair u = pair) (rev ch)")
    case None
    then show ?thesis by (simp add: h Get_consume [OF assms(1)])
  next
    case (Some u)
    then have "bu_Pair u = pair" by (auto simp: find_Some_iff)
    then show ?thesis by (simp add: h Get_consume [OF assms(1)] Some doc_TopOfBook_def top_of_def)
  qed
qed

definition example_updates :: "rat BookUpdate list" where
  "example_updates =
     [\<lparr>bu_Pair = ''P'', bu_Bids = [\<lparr>bl_Price = 2, bl_Size = 1\<rparr>], bu_Asks = [\<lparr>bl_Price = 4, bl_Size = 1\<rparr>], bu_TS = 5\<rparr>,
      \<lparr>bu_Pair = ''P'', bu_Bids = [\<lparr>bl_Price = 3, bl_Size = 1\<rparr>], bu_Asks = [], bu_TS = 6\<rparr>]"

theorem book_route_last_update_witness:
  "\<exists>a ce'. NewBookAggregator (Dummy_connector rat_decimal) [''P''] (NewDummyVenueConnector rat_decimal [], fixed_env) = (Inr a, ce')
    \<and> handleBook \<lparr>sr_Method = ''GET'', sr_Path = ''/v1/book/P'', sr_RawQuery = [], sr_Headers = [], sr_Body = []\<rparr>
        \<lparr>w_conn = (), w_store = (), w_sink = (), w_pub = (), w_dead = (), w_book = consume rat_decimal example_updates a\<rparr>
        = writeJSON 200 (DObj [(''Pair'', DStr ''P''), (''Bid'', DFloat (d_Float64 rat_decimal 3)), (''Ask'', DFloat (F64 0)), (''TS'', DTime 6)])"
proof -
  let ?r = "\<lparr>sr_Method = ''GET'', sr_Path = ''/v1/book/P'', sr_RawQuery = [], sr_Headers = [], sr_Body = []\<rparr>"
  obtain a ce' where n: "NewBookAggregator (Dummy_connector rat_decimal) [''P''] (NewDummyVenueConnector rat_decimal [], fixed_env) = (Inr a, ce')"
    by (simp add: NewBookAggregator_def Dummy_connector_def Dummy_SubscribeBook_def)
  let ?w = "\<lparr>w_conn = (), w_store = (), w_sink = (), w_pub = (), w_dead = (), w_book = consume rat_decimal example_updates a\<rparr>"
  have "w_book ?w = consume rat_decimal example_updates a" by simp
  note answer = book_route_last_update [OF n this, of ?r "''P''"]
  have "handleBook ?r ?w = writeJSON 200 (DObj [(''Pair'', DStr ''P''), (''Bid'', DFloat (d_Float64 rat_decimal 3)),
      (''Ask'', DFloat (F64 0)), (''TS'', DTime 6)])"
    by (subst answer) (simp_all add: example_updates_def)
  with n show ?thesis by blast
qed

end
