(* ===== verification/Adapter.thy ===== *)
theory Adapter
  imports RateLimit WsBook GoUrl GoDoc GoCrypto
begin

text \<open>
  What the venue adapters share: the limiters called with the environment's clock, JSON decoding
  of the kinds of fields they use, the sending of a request, and the publication of a book.
\<close>

section \<open>The limiters in the environment\<close>

fun limiter_error :: "ratelimit_error option \<Rightarrow> string option" where
  "limiter_error None = None"
| "limiter_error (Some ErrBudgetExhausted) = Some ''ratelimit: weight budget exhausted''"

text \<open>The second clock reading happens only when a backoff is set.\<close>

definition wait_weighted :: "int \<Rightarrow> WeightedLimiter \<times> env \<Rightarrow> string option \<times> WeightedLimiter \<times> env" where
  "wait_weighted weight = (\<lambda>(l, e0).
     (let (now1, e1) = time_Now e0;
          (now2, e2) = (if time_IsZero (wl_backoff l) then (now1, e1) else time_Now e1);
          (l', err, ms) = WeightedLimiter_Wait now1 now2 weight l
      in (limiter_error err, l', update_metrics ms e2)))"

definition wait_counter :: "int \<Rightarrow> CounterLimiter \<times> env \<Rightarrow> string option \<times> CounterLimiter \<times> env" where
  "wait_counter cost = (\<lambda>(l, e0).
     (let (now1, e1) = time_Now e0;
          (now2, e2) = (if time_IsZero (cl_backoff l) then (now1, e1) else time_Now e1);
          (l', err, ms) = CounterLimiter_Wait now1 now2 cost l
      in (limiter_error err, l', update_metrics ms e2)))"

definition wait_rps :: "RPSLimiter \<times> env \<Rightarrow> string option \<times> RPSLimiter \<times> env" where
  "wait_rps = (\<lambda>(l, e0).
     (let (now, e1) = time_Now e0; (l', err, ms) = RPSLimiter_Wait now 1 l
      in (limiter_error err, l', update_metrics ms e1)))"

section \<open>Requests\<close>

text \<open>\<open>http.NewRequestWithContext\<close>, then \<open>http.DefaultClient.Do\<close> and the reading of the whole body.
  Header names are written as in the source; their case does not matter.\<close>

definition read_response :: "string + http_response \<Rightarrow> string + int \<times> (string \<times> string) list \<times> string" where
  "read_response r =
     (case r of
        Inl err \<Rightarrow> Inl err
      | Inr rp \<Rightarrow> (case rp_body rp of Inl err \<Rightarrow> Inl err | Inr body \<Rightarrow> Inr (rp_status rp, rp_headers rp, body)))"

definition status_text :: "int \<Rightarrow> string" where
  "status_text n = FormatInt n"

section \<open>Decoding\<close>

text \<open>A JSON value again, as \<open>json.RawMessage\<close> keeps it; \<open>None\<close> is a raw message that was never set.\<close>

fun dec_raw :: "json option decoder" where
  "dec_raw v old = (Some v, False)"

definition unmarshal_raw :: "'a decoder \<Rightarrow> json option \<Rightarrow> 'a \<Rightarrow> 'a \<times> bool" where
  "unmarshal_raw d raw old = (case raw of None \<Rightarrow> (old, True) | Some v \<Rightarrow> d v old)"

text \<open>The elements of a map are decoded into fresh values; the last of equal keys wins.\<close>

fun dec_entries :: "'a decoder \<Rightarrow> 'a \<Rightarrow> (string \<times> json) list \<Rightarrow> (string \<times> 'a) list \<Rightarrow> (string \<times> 'a) list \<times> bool" where
  "dec_entries d zero [] m = (m, False)"
| "dec_entries d zero ((k, v) # ms) m =
     (let (x, e1) = d v zero; (m', e2) = dec_entries d zero ms (AList.update (json_unquote k) x m)
      in (m', e1 \<or> e2))"

fun dec_map :: "'a decoder \<Rightarrow> 'a \<Rightarrow> (string \<times> 'a) list decoder" where
  "dec_map d zero (JObj ms) old = dec_entries d zero ms old"
| "dec_map d zero JNull old = ([], False)"
| "dec_map d zero _ old = (old, True)"

text \<open>The value of a decimal literal, and its rounding to a float; a literal beyond the range is refused.\<close>

fun digits_nat :: "string \<Rightarrow> nat \<Rightarrow> nat" where
  "digits_nat [] acc = acc"
| "digits_nat (c # s) acc = digits_nat s (10 * acc + (byte c - 48))"

definition literal_value :: "string \<Rightarrow> rat" where
  "literal_value s0 =
     (let (neg, s) = (case s0 of c # t \<Rightarrow> if c = CHR ''-'' then (True, t) else (False, s0) | [] \<Rightarrow> (False, []));
          (ip, r1) = take_digits s;
          (fp, r2) = (case r1 of c # t \<Rightarrow> if c = CHR ''.'' then take_digits t else ([], r1) | [] \<Rightarrow> ([], []));
          (eneg, ex) = (case r2 of e # t \<Rightarrow>
                 (case t of c # u \<Rightarrow> if c = CHR ''-'' then (True, u) else if c = CHR ''+'' then (False, u) else (False, t)
                  | [] \<Rightarrow> (False, [])) | [] \<Rightarrow> (False, []));
          m = of_nat (digits_nat (ip @ fp) 0) / 10 ^ length fp :: rat;
          x = digits_nat ex 0;
          v = (if eneg then m / 10 ^ x else m * 10 ^ x)
      in if neg then - v else v)"

fun dec_float64 :: "float64 decoder" where
  "dec_float64 (JNum raw) old =
     (case f64_round (literal_value raw) of F64 q \<Rightarrow> (F64 q, False) | _ \<Rightarrow> (old, True))"
| "dec_float64 JNull old = (old, False)"
| "dec_float64 _ old = (old, True)"

text \<open>
  A decimal is decoded by the package from the text of the value: a quoted one without its
  quotes, a number as it is; any other value is refused and \<open>null\<close> leaves it alone.
\<close>

fun dec_decimal :: "'d decimal_ops \<Rightarrow> 'd decoder" where
  "dec_decimal D (JNum raw) old = (case d_UnmarshalJSON D raw old of (x, err) \<Rightarrow> (x, err \<noteq> None))"
| "dec_decimal D (JStr raw) old = (case d_UnmarshalJSON D raw old of (x, err) \<Rightarrow> (x, err \<noteq> None))"
| "dec_decimal D JNull old = (old, False)"
| "dec_decimal D _ old = (old, True)"

text \<open>\<open>decimal.NewFromString\<close> with its error ignored.\<close>

definition dec_of :: "'d decimal_ops \<Rightarrow> string \<Rightarrow> 'd" where
  "dec_of D s = fst (d_NewFromString D s)"

text \<open>An error of \<open>json.Unmarshal\<close> is its text.\<close>

definition unmarshal_or :: "err_texts \<Rightarrow> 'a decoder \<Rightarrow> string \<Rightarrow> 'a \<Rightarrow> string + 'a" where
  "unmarshal_or T d body zero =
     (case json_Unmarshal d body zero of (x, err) \<Rightarrow> if err then Inl (et_json T body) else Inr x)"

text \<open>
  A raw message as text: its tokens without the space between them. It serves to name the error
  of decoding the message, whose wording is not modelled.
\<close>

fun json_text :: "json \<Rightarrow> string" where
  "json_text JNull = ''null''"
| "json_text (JBool b) = (if b then ''true'' else ''false'')"
| "json_text (JNum raw) = raw"
| "json_text (JStr raw) = [CHR 0x22] @ raw @ [CHR 0x22]"
| "json_text (JArr vs) = ''['' @ Join (map json_text vs) '','' @ '']''"
| "json_text (JObj ms) = ''{'' @ Join (map (\<lambda>(k, v). [CHR 0x22] @ k @ [CHR 0x22] @ '':'' @ json_text v) ms) '','' @ ''}''"

definition unmarshal_raw_or :: "err_texts \<Rightarrow> 'a decoder \<Rightarrow> json option \<Rightarrow> 'a \<Rightarrow> string + 'a" where
  "unmarshal_raw_or T d raw zero =
     (case unmarshal_raw d raw zero of
        (x, err) \<Rightarrow> if err then Inl (et_json T (case raw of None \<Rightarrow> [] | Some v \<Rightarrow> json_text v)) else Inr x)"

section \<open>Publishing a book\<close>

text \<open>The reconstructor reads the clock only for what it applies.\<close>

definition apply_diff ::
    "int \<Rightarrow> level list \<Rightarrow> level list \<Rightarrow> BookReconstructor \<times> env \<Rightarrow> (bool \<times> bool) \<times> BookReconstructor \<times> env" where
  "apply_diff seq bids asks = (\<lambda>(r, e).
     (let (now, e1) = time_Now e; (r', ok, gap) = ApplyDiff seq bids asks now r
      in ((ok, gap), r', if ok then e1 else e)))"

definition apply_snapshot ::
    "level list \<Rightarrow> level list \<Rightarrow> BookReconstructor \<times> env \<Rightarrow> BookReconstructor \<times> env" where
  "apply_snapshot bids asks = (\<lambda>(r, e). let (now, e1) = time_Now e in (ApplySnapshot bids asks now r, e1))"

definition level_of :: "'d decimal_ops \<Rightarrow> level \<Rightarrow> 'd BookLevel" where
  "level_of D l = \<lparr>bl_Price = dec_of D (fst l), bl_Size = dec_of D (snd l)\<rparr>"

text \<open>
  The top twenty levels as an update; it is sent only when both sides have levels, and dropped
  when the channel's 64 places are taken.
\<close>

definition emit_update ::
    "'d decimal_ops \<Rightarrow> (side \<Rightarrow> level list) \<Rightarrow> string \<Rightarrow> string \<Rightarrow> string \<Rightarrow> BookReconstructor
      \<Rightarrow> 'd BookUpdate list \<times> env \<Rightarrow> 'd BookUpdate list \<times> env" where
  "emit_update D ord venue label pair r = (\<lambda>(out, e0).
     (let (bids, asks) = TopN ord 20 r;
          (ts, e1) = time_Now e0;
          upd = \<lparr>bu_Pair = pair, bu_Bids = map (level_of D) bids, bu_Asks = map (level_of D) asks, bu_TS = ts\<rparr>
      in if bu_Bids upd \<noteq> [] \<and> bu_Asks upd \<noteq> [] then
           (let (now, e2) = (if time_IsZero (br_lastUpdate r) then (0, e1) else time_Now e1);
                e3 = update_metrics [SetGauge WSBookLagSeconds [venue, label] (Lag now r)] e2
            in (if length out < 64 then out @ [upd] else out, e3))
         else (out, e1)))"

section \<open>Forms\<close>

lemma values_distinct [simp]: "distinct (map fst vs) \<Longrightarrow> distinct (map fst (values_Set k v vs))"
  by (simp add: values_Set_def distinct_update)

lemma form_reads:
  assumes "distinct (map fst params)"
  shows "Query_Get (values_Encode (values_Set k v params)) key =
    (if key = k then v else case map_of params key of Some x \<Rightarrow> x | None \<Rightarrow> [])"
proof -
  have "values_Set k v params \<noteq> []" by (cases params) (auto simp: values_Set_def)
  moreover have "distinct (map fst (values_Set k v params))" using assms by simp
  ultimately show ?thesis by (simp add: Query_Get_Encode values_Set_def update_conv')
qed

section \<open>The environment moves on\<close>

text \<open>
  Operations never change the clock, only the number of its readings; \<open>clock_before t e e'\<close> says
  that every reading between \<open>e\<close> and \<open>e'\<close> is earlier than \<open>t\<close>.
\<close>

definition env_later :: "env \<Rightarrow> env \<Rightarrow> bool" where
  "env_later e e' \<longleftrightarrow> env_clock e' = env_clock e \<and> env_http e' = env_http e \<and> env_ticks e \<le> env_ticks e'"

definition clock_before :: "instant \<Rightarrow> env \<Rightarrow> env \<Rightarrow> bool" where
  "clock_before t e e' \<longleftrightarrow> list_all (\<lambda>n. env_clock e n < t) [env_ticks e..<env_ticks e']"

lemma env_later_refl [simp]: "env_later e e"
  by (simp add: env_later_def)

lemma env_later_trans [trans]: "env_later e e1 \<Longrightarrow> env_later e1 e2 \<Longrightarrow> env_later e e2"
  by (simp add: env_later_def)

lemma env_later_ops [simp]:
  "env_later e (snd (time_Now e1)) = env_later e (e1\<lparr>env_ticks := Suc (env_ticks e1)\<rparr>)"
  "env_later e e1 \<Longrightarrow> env_later e (e1\<lparr>env_ticks := Suc (env_ticks e1)\<rparr>)"
  "env_later e (update_metrics ms e1) = env_later e e1"
  "env_later e (snd (http_Do rq e1)) = env_later e e1"
  by (auto simp: env_later_def time_Now_def update_metrics_def http_Do_def)

lemma time_Now_later: "time_Now e = (t, e') \<Longrightarrow> env_later e e'"
  by (auto simp: time_Now_def)

lemma http_Do_later: "http_Do rq e = (r, e') \<Longrightarrow> env_later e e'"
  by (auto simp: http_Do_def env_later_def)

lemma clock_before_parts:
  assumes "env_later e e1" "env_later e1 e2"
  shows "clock_before t e e2 \<longleftrightarrow> clock_before t e e1 \<and> clock_before t e1 e2"
proof -
  have "[env_ticks e..<env_ticks e2] = [env_ticks e..<env_ticks e1] @ [env_ticks e1..<env_ticks e2]"
    using assms by (metis env_later_def upt_add_eq_append le_add_diff_inverse)
  with assms show ?thesis by (simp add: clock_before_def env_later_def)
qed

text \<open>The calls of a connector as data, with their error as the result.\<close>

datatype 'd venue_op =
  OpPlace "'d OrderRequest" | OpCancel CancelRequest | OpGet string | OpFills FillQuery | OpBalances

definition error_of :: "string + 'a \<Rightarrow> string option" where
  "error_of r = (case r of Inl err \<Rightarrow> Some err | Inr _ \<Rightarrow> None)"

fun connector_call ::
    "('c, 'd) VenueConnector \<Rightarrow> 'd venue_op \<Rightarrow> 'c \<times> env \<Rightarrow> string option \<times> 'c \<times> env" where
  "connector_call conn (OpPlace req) ce = (let (r, ce') = PlaceOrder conn req ce in (error_of r, ce'))"
| "connector_call conn (OpCancel req) ce = CancelOrder conn req ce"
| "connector_call conn (OpGet i) ce = (let (r, ce') = GetOrder conn i ce in (error_of r, ce'))"
| "connector_call conn (OpFills q) ce = (let (r, ce') = GetFills conn q ce in (error_of r, ce'))"
| "connector_call conn OpBalances ce = (let (r, ce') = GetBalances conn ce in (error_of r, ce'))"

text \<open>A sequence of calls of a venue, one after the other.\<close>

definition venue_calls ::
    "('q \<Rightarrow> 'c \<times> env \<Rightarrow> 'r \<times> 'c \<times> env) \<Rightarrow> 'q list \<Rightarrow> 'c \<times> env \<Rightarrow> ('c \<times> env) \<times> 'r list" where
  "venue_calls call qs ce = run_calls (\<lambda>q ce. (snd (call q ce), fst (call q ce))) qs ce"

lemma venue_calls_Nil [simp]: "venue_calls call [] ce = (ce, [])"
  by (simp add: venue_calls_def)

lemma venue_calls_Cons:
  "venue_calls call (q # qs) ce = (let (r, ce1) = call q ce; (ce', rs) = venue_calls call qs ce1 in (ce', r # rs))"
  by (simp add: venue_calls_def split: prod.splits)

section \<open>Silence after a refusal\<close>

text \<open>
  The contract of a politely limited client: when the venue refuses its last request, a backoff
  deadline is set from the last reading of the clock, and once there is a deadline, a call
  during which the clock reads earlier sends nothing and keeps it. The contract is about the
  requests that are \<open>limited\<close>; others may be sent at any time.
\<close>

locale polite_client =
  fixes call :: "'q \<Rightarrow> 'c \<times> env \<Rightarrow> 'r \<times> 'c \<times> env" and deadline :: "'c \<Rightarrow> instant"
    and limited :: "http_request \<Rightarrow> bool" and refusal :: "int \<Rightarrow> bool" and pause :: duration
  assumes later: "call q (c, e) = (r, c', e') \<Longrightarrow> env_later e e'"
    and refused: "call q (c, e) = (r, c', e') \<Longrightarrow> env_sent e' = env_sent e @ rqs @ [rq] \<Longrightarrow>
      limited rq \<Longrightarrow> env_http e (length (env_sent e @ rqs)) rq = Inr resp \<Longrightarrow> rp_body resp = Inr body \<Longrightarrow>
      refusal (rp_status resp) \<Longrightarrow> deadline c' = time_Add (env_clock e (env_ticks e' - 1)) pause"
    and silent: "call q (c, e) = (r, c', e') \<Longrightarrow> deadline c \<noteq> 0 \<Longrightarrow> clock_before (deadline c) e e' \<Longrightarrow>
      filter limited (env_sent e') = filter limited (env_sent e) \<and> deadline c' = deadline c"
begin

lemma later_run: "venue_calls call qs (c, e) = ((c', e'), rs) \<Longrightarrow> env_later e e'"
proof (induction qs arbitrary: c e rs)
  case Nil
  then show ?case by simp
next
  case (Cons q qs)
  obtain r c1 e1 where q: "call q (c, e) = (r, c1, e1)" by (metis surj_pair)
  from Cons.prems obtain rs' where "venue_calls call qs (c1, e1) = ((c', e'), rs')"
    by (auto simp: venue_calls_Cons q split: prod.splits)
  from Cons.IH [OF this] later [OF q] show ?case by (blast intro: env_later_trans)
qed

lemma silent_run:
  assumes "venue_calls call qs (c, e) = ((c', e'), rs)" "deadline c \<noteq> 0" "clock_before (deadline c) e e'"
  shows "filter limited (env_sent e') = filter limited (env_sent e) \<and> deadline c' = deadline c"
  using assms
proof (induction qs arbitrary: c e rs)
  case Nil
  then show ?case by simp
next
  case (Cons q qs)
  obtain r c1 e1 where q: "call q (c, e) = (r, c1, e1)" by (metis surj_pair)
  from Cons.prems(1) obtain rs' where run: "venue_calls call qs (c1, e1) = ((c', e'), rs')"
    by (auto simp: venue_calls_Cons q split: prod.splits)
  have parts: "clock_before (deadline c) e e1" "clock_before (deadline c) e1 e'"
    using Cons.prems(3) clock_before_parts [OF later [OF q] later_run [OF run]] by auto
  note s = silent [OF q Cons.prems(2) parts(1)]
  from Cons.IH [OF run] s Cons.prems(2) parts(2) show ?case by simp
qed

lemma quiet_after_refusal:
  assumes "call q (c, e) = (r, c1, e1)" "env_sent e1 = env_sent e @ rqs @ [rq]" "limited rq"
    and "env_http e (length (env_sent e @ rqs)) rq = Inr resp" "rp_body resp = Inr body" "refusal (rp_status resp)"
    and "venue_calls call qs (c1, e1) = ((c2, e2), rs)"
    and "time_Add (env_clock e (env_ticks e1 - 1)) pause \<noteq> 0"
    and "clock_before (time_Add (env_clock e (env_ticks e1 - 1)) pause) e1 e2"
  shows "filter limited (env_sent e2) = filter limited (env_sent e1)"
  using refused [OF assms(1-6)] silent_run [OF assms(7)] assms(8,9) by simp

end

lemma clock_before_first: "clock_before t e (e'\<lparr>env_ticks := Suc n\<rparr>) \<Longrightarrow> env_ticks e \<le> n \<Longrightarrow> env_clock e n < t"
  by (simp add: clock_before_def)

lemma wait_weighted_backoff:
  assumes "wait_weighted w (l, e) = (err, l', e')" "wl_backoff l \<noteq> 0" "clock_before (wl_backoff l) e e'"
  shows "err = Some ''ratelimit: weight budget exhausted'' \<and> wl_backoff l' = wl_backoff l \<and> env_sent e' = env_sent e"
  using assms
  by (auto simp: wait_weighted_def time_Now_def WeightedLimiter_Wait_def time_IsZero_def clock_before_def
      Let_def update_metrics_def split: if_splits)

lemma wait_counter_backoff:
  assumes "wait_counter w (l, e) = (err, l', e')" "cl_backoff l \<noteq> 0" "clock_before (cl_backoff l) e e'"
  shows "err = Some ''ratelimit: weight budget exhausted'' \<and> cl_backoff l' = cl_backoff l \<and> env_sent e' = env_sent e"
  using assms
  by (auto simp: wait_counter_def time_Now_def CounterLimiter_Wait_def time_IsZero_def clock_before_def
      Let_def update_metrics_def split: if_splits)

lemma wait_rps_backoff:
  assumes "wait_rps (l, e) = (err, l', e')" "rps_backoff l \<noteq> 0" "clock_before (rps_backoff l) e e'"
  shows "err = Some ''ratelimit: weight budget exhausted'' \<and> rps_backoff l' = rps_backoff l \<and> env_sent e' = env_sent e"
  using assms
  by (auto simp: wait_rps_def time_Now_def RPSLimiter_Wait_def time_IsZero_def clock_before_def
      Let_def update_metrics_def split: if_splits)

text \<open>Waiting reads the clock and sends nothing, whatever the limiter says.\<close>

lemma wait_frame:
  "wait_weighted w (l, e) = (err, l', e') \<Longrightarrow> env_later e e' \<and> env_sent e' = env_sent e"
  "wait_counter k (cl, e) = (err, cl', e') \<Longrightarrow> env_later e e' \<and> env_sent e' = env_sent e"
  "wait_rps (rl, e) = (err, rl', e') \<Longrightarrow> env_later e e' \<and> env_sent e' = env_sent e"
  by (auto simp: wait_weighted_def wait_counter_def wait_rps_def time_Now_def update_metrics_def env_later_def
      Let_def split: prod.splits if_splits)

text \<open>A limiter without a backoff and with room, asked at the instant of its last refill, lets the call pass.\<close>

lemma wait_open:
  "wl_backoff l = 0 \<Longrightarrow> env_clock e (env_ticks e) = wl_lastFill l \<Longrightarrow> 0 < wl_refill l \<Longrightarrow>
    wrap64 (wl_used l + w) \<le> wl_budget l \<Longrightarrow> \<exists>ms. wait_weighted w (l, e) =
      (None, l\<lparr>wl_used := wrap64 (wl_used l + w)\<rparr>, update_metrics ms (e\<lparr>env_ticks := Suc (env_ticks e)\<rparr>))"
  "cl_backoff cl = 0 \<Longrightarrow> env_clock e (env_ticks e) = cl_last cl \<Longrightarrow>
    wrap64 (cl_current cl + k) \<le> cl_budget cl \<Longrightarrow> \<exists>ms. wait_counter k (cl, e) =
      (None, cl\<lparr>cl_current := wrap64 (cl_current cl + k)\<rparr>, update_metrics ms (e\<lparr>env_ticks := Suc (env_ticks e)\<rparr>))"
  "rps_backoff rl = 0 \<Longrightarrow> env_clock e (env_ticks e) = rps_start rl \<Longrightarrow> 0 < rps_window rl \<Longrightarrow>
    rps_count rl < rps_limit rl \<Longrightarrow> \<exists>ms. wait_rps (rl, e) =
      (None, rl\<lparr>rps_count := wrap64 (rps_count rl + 1)\<rparr>, update_metrics ms (e\<lparr>env_ticks := Suc (env_ticks e)\<rparr>))"
  by (auto simp: wait_weighted_def wait_counter_def wait_rps_def time_Now_def time_IsZero_def time_Sub_def
      WeightedLimiter_Wait_def WeightedLimiter_replenishLocked_def CounterLimiter_Wait_def
      CounterLimiter_decayLocked_def RPSLimiter_Wait_def go_quot_def Let_def)

section \<open>Signed requests with increasing nonces\<close>

text \<open>
  The contract of a signing client: a call sends at most one signed request, stamped with the
  next number under the client's credentials, and no number is used again. The other requests
  that it sends are \<open>free\<close>, that is, of a kind that needs no signature.
\<close>

locale nonce_client =
  fixes call :: "'q \<Rightarrow> 'c \<times> env \<Rightarrow> 'r \<times> 'c \<times> env" and nonce :: "'c \<Rightarrow> int" and limit :: int
    and creds :: "'c \<Rightarrow> 'k" and signed :: "http_request \<Rightarrow> bool"
    and stamped :: "'k \<Rightarrow> int \<Rightarrow> http_request \<Rightarrow> bool" and free :: "'k \<Rightarrow> http_request \<Rightarrow> bool"
  assumes step: "call q (c, e) = (r, c', e') \<Longrightarrow> 0 \<le> nonce c \<Longrightarrow> nonce c + 1 < limit \<Longrightarrow> creds c' = creds c
      \<and> (\<exists>rqs. env_sent e' = env_sent e @ rqs \<and> list_all (\<lambda>rq. signed rq \<or> free (creds c) rq) rqs
          \<and> (filter signed rqs = [] \<and> nonce c \<le> nonce c' \<and> nonce c' \<le> nonce c + 1
             \<or> (\<exists>rq. filter signed rqs = [rq] \<and> nonce c' = nonce c + 1 \<and> stamped (creds c) (nonce c') rq)))"
begin

lemma signed_run:
  assumes "venue_calls call qs (c, e) = ((c', e'), rs)" "0 \<le> nonce c" "nonce c + int (length qs) < limit"
  shows "\<exists>ns rqs. env_sent e' = env_sent e @ rqs \<and> list_all (\<lambda>rq. signed rq \<or> free (creds c) rq) rqs
    \<and> list_all2 (stamped (creds c)) ns (filter signed rqs)
    \<and> sorted_wrt (<) ns \<and> list_all (\<lambda>n. nonce c < n \<and> n \<le> nonce c + int (length qs)) ns"
  using assms
proof (induction qs arbitrary: c e rs)
  case Nil
  then show ?case by auto
next
  case (Cons q qs)
  obtain r c1 e1 where q: "call q (c, e) = (r, c1, e1)" by (metis surj_pair)
  from Cons.prems(1) obtain rs' where run: "venue_calls call qs (c1, e1) = ((c', e'), rs')"
    by (auto simp: venue_calls_Cons q split: prod.splits)
  have "nonce c + 1 < limit" using Cons.prems(3) by simp
  from step [OF q Cons.prems(2) this] obtain rqs1 where
    s: "creds c1 = creds c" "env_sent e1 = env_sent e @ rqs1" "list_all (\<lambda>rq. signed rq \<or> free (creds c) rq) rqs1"
    and one: "filter signed rqs1 = [] \<and> nonce c \<le> nonce c1 \<and> nonce c1 \<le> nonce c + 1
       \<or> (\<exists>rq. filter signed rqs1 = [rq] \<and> nonce c1 = nonce c + 1 \<and> stamped (creds c) (nonce c1) rq)" by blast
  have "0 \<le> nonce c1" "nonce c1 + int (length qs) < limit" using one Cons.prems(2,3) by auto
  from Cons.IH [OF run this] s(1) obtain ns rqs where
    IH: "env_sent e' = env_sent e1 @ rqs" "list_all (\<lambda>rq. signed rq \<or> free (creds c) rq) rqs"
      "list_all2 (stamped (creds c)) ns (filter signed rqs)" "sorted_wrt (<) ns"
      "list_all (\<lambda>n. nonce c1 < n \<and> n \<le> nonce c1 + int (length qs)) ns" by auto
  have sent: "env_sent e' = env_sent e @ rqs1 @ rqs" "list_all (\<lambda>rq. signed rq \<or> free (creds c) rq) (rqs1 @ rqs)"
    using s IH(1,2) by simp_all
  have wide: "list_all (\<lambda>n. nonce c < n \<and> n \<le> nonce c + int (length (q # qs))) ns"
    using IH(5) one by (auto simp: list_all_iff)
  show ?case
  proof (cases "filter signed rqs1 = []")
    case True
    with IH(3) have "list_all2 (stamped (creds c)) ns (filter signed (rqs1 @ rqs))" by simp
    with sent IH(4) wide show ?thesis by blast
  next
    case False
    then obtain rq where rq: "filter signed rqs1 = [rq]" "nonce c1 = nonce c + 1" "stamped (creds c) (nonce c1) rq"
      using one by blast
    have "list_all2 (stamped (creds c)) (nonce c1 # ns) (filter signed (rqs1 @ rqs))" using rq IH(3) by simp
    moreover have "sorted_wrt (<) (nonce c1 # ns)" using IH(4,5) by (auto simp: list_all_iff)
    moreover have "list_all (\<lambda>n. nonce c < n \<and> n \<le> nonce c + int (length (q # qs))) (nonce c1 # ns)"
      using wide rq(2) by simp
    ultimately show ?thesis using sent by blast
  qed
qed

end

section \<open>A connector with its book feeds\<close>

text \<open>
  What runs when a connector is in use: the calls of its methods, and for every accepted
  subscription a feed, which takes snapshots and handles the messages of the stream. These happen
  in any order; the index says which feed a snapshot or a message belongs to.
\<close>

datatype 'd adapter_op =
  Call "'d venue_op" | Subscribe "string list" | Snapshot nat string | Message nat string

text \<open>How an adapter's feed is opened (not at all when the subscription is refused) and what it does.\<close>

record ('c, 'f) feed_ops =
  feed_open :: "string list \<Rightarrow> 'c \<Rightarrow> 'f option"
  feed_snapshot :: "'c \<Rightarrow> string \<Rightarrow> 'f \<times> env \<Rightarrow> 'f \<times> env"
  feed_message :: "'c \<Rightarrow> string \<Rightarrow> 'f \<times> env \<Rightarrow> 'f \<times> env"

definition feed_step :: "('f \<times> env \<Rightarrow> 'f \<times> env) \<Rightarrow> nat \<Rightarrow> 'f list \<times> env \<Rightarrow> 'f list \<times> env" where
  "feed_step f i = (\<lambda>(fds, e).
     if i < length fds then (let (fd, e') = f (fds ! i, e) in (fds[i := fd], e')) else (fds, e))"

fun adapter_call ::
    "('c, 'd) VenueConnector \<Rightarrow> ('c, 'f) feed_ops \<Rightarrow> 'd adapter_op \<Rightarrow> ('c \<times> 'f list) \<times> env
      \<Rightarrow> string option \<times> ('c \<times> 'f list) \<times> env" where
  "adapter_call conn F (Call q) ((c, fds), e) =
     (let (r, c', e') = connector_call conn q (c, e) in (r, (c', fds), e'))"
| "adapter_call conn F (Subscribe pairs) ((c, fds), e) =
     (let (err, c', e') = SubscribeBook conn pairs (c, e)
      in (err, (c', fds @ (case feed_open F pairs c of None \<Rightarrow> [] | Some fd \<Rightarrow> [fd])), e'))"
| "adapter_call conn F (Snapshot i p) ((c, fds), e) =
     (let (fds', e') = feed_step (feed_snapshot F c p) i (fds, e) in (None, (c, fds'), e'))"
| "adapter_call conn F (Message i msg) ((c, fds), e) =
     (let (fds', e') = feed_step (feed_message F c msg) i (fds, e) in (None, (c, fds'), e'))"

text \<open>
  The contract of a feed: opening it asks nothing of the venue, and whatever it sends later is not
  limited and of a kind that is free.
\<close>

definition sends_only :: "(http_request \<Rightarrow> bool) \<Rightarrow> env \<Rightarrow> env \<Rightarrow> bool" where
  "sends_only P e e' \<longleftrightarrow> env_later e e' \<and> (\<exists>rqs. env_sent e' = env_sent e @ rqs \<and> list_all P rqs)"

lemma sends_only_refl [simp]: "sends_only P e e"
  by (simp add: sends_only_def)

lemma sends_only_trans [trans]: "sends_only P e e1 \<Longrightarrow> sends_only P e1 e2 \<Longrightarrow> sends_only P e e2"
  by (auto simp: sends_only_def intro: env_later_trans)

lemma sends_only_mono: "sends_only P e e' \<Longrightarrow> (\<And>rq. P rq \<Longrightarrow> Q rq) \<Longrightarrow> sends_only Q e e'"
  by (auto simp: sends_only_def list_all_iff)

lemma emit_update_sends: "emit_update D ord v l p r (out, e) = (out', e') \<Longrightarrow> sends_only P e e'"
  by (auto simp: emit_update_def time_Now_def env_later_def update_metrics_def sends_only_def Let_def
      split: prod.splits if_splits)

lemma apply_diff_sends: "apply_diff seq bids asks (r, e) = (res, r', e') \<Longrightarrow> sends_only P e e'"
  by (auto simp: apply_diff_def time_Now_def env_later_def sends_only_def split: prod.splits if_splits)

lemma update_metrics_sends [simp]:
  "sends_only P e (update_metrics ms e') = sends_only P e e'"
  "sends_only P (update_metrics ms e) e' = sends_only P e e'"
  by (simp_all add: sends_only_def env_later_def update_metrics_def)

locale book_feed =
  fixes conn :: "('c, 'd) VenueConnector" and F :: "('c, 'f) feed_ops"
    and limited :: "http_request \<Rightarrow> bool" and free :: "'c \<Rightarrow> http_request \<Rightarrow> bool"
  assumes subscribe: "SubscribeBook conn pairs (c, e) = (err, c', e') \<Longrightarrow> c' = c \<and> e' = e"
    and snapshot: "feed_snapshot F c p (fd, e) = (fd', e') \<Longrightarrow> sends_only (\<lambda>rq. \<not> limited rq \<and> free c rq) e e'"
    and message: "feed_message F c msg (fd, e) = (fd', e') \<Longrightarrow> sends_only (\<lambda>rq. \<not> limited rq \<and> free c rq) e e'"
begin

lemma adapter_cases:
  assumes "adapter_call conn F q ((c, fds), e) = (r, (c', fds'), e')"
  obtains (call) o' where "connector_call conn o' (c, e) = (r, c', e')"
  | (feed) "c' = c" "sends_only (\<lambda>rq. \<not> limited rq \<and> free c rq) e e'"
proof (cases q)
  case (Call o')
  with assms call show ?thesis by (auto split: prod.splits)
next
  case (Subscribe pairs)
  obtain err c1 e1 where "SubscribeBook conn pairs (c, e) = (err, c1, e1)" by (metis surj_pair)
  with assms Subscribe subscribe [OF this] feed show ?thesis by simp
next
  case (Snapshot i p)
  with assms feed show ?thesis by (auto simp: feed_step_def Let_def dest: snapshot split: prod.splits if_splits)
next
  case (Message i msg)
  with assms feed show ?thesis by (auto simp: feed_step_def Let_def dest: message split: prod.splits if_splits)
qed

end

text \<open>With such a feed the contracts of the calls extend to everything the adapter does.\<close>

locale polite_adapter =
  book_feed conn F limited free + polite_client "connector_call conn" deadline limited refusal pause
  for conn :: "('c, 'd) VenueConnector" and F :: "('c, 'f) feed_ops" and limited free deadline refusal pause

sublocale polite_adapter \<subseteq> adapter: polite_client "adapter_call conn F" "\<lambda>s. deadline (fst s)" limited refusal pause
proof unfold_locales
  fix q :: "'d adapter_op" and s :: "'c \<times> 'f list" and e r s' e'
  assume "adapter_call conn F q (s, e) = (r, s', e')"
  then have run: "adapter_call conn F q ((fst s, snd s), e) = (r, (fst s', snd s'), e')" by simp
  show "env_later e e'"
    using run by (cases rule: adapter_cases) (auto dest: later simp: sends_only_def)
  show "filter limited (env_sent e') = filter limited (env_sent e) \<and> deadline (fst s') = deadline (fst s)"
    if "deadline (fst s) \<noteq> 0" "clock_before (deadline (fst s)) e e'"
    using run that by (cases rule: adapter_cases) (auto dest: silent simp: sends_only_def list_all_iff filter_empty_conv)
  show "deadline (fst s') = time_Add (env_clock e (env_ticks e' - 1)) pause"
    if a: "env_sent e' = env_sent e @ rqs @ [rq]" "limited rq" "env_http e (length (env_sent e @ rqs)) rq = Inr resp"
      "rp_body resp = Inr body" "refusal (rp_status resp)" for rqs rq resp body
    using run
  proof (cases rule: adapter_cases)
    case (call o')
    from refused [OF this a] show ?thesis .
  next
    case feed
    then show ?thesis using a(1,2) by (auto simp: sends_only_def)
  qed
qed

locale nonce_adapter =
  book_feed conn F signed "\<lambda>c. free (creds c)" + nonce_client "connector_call conn" nonce limit creds signed stamped free
  for conn :: "('c, 'd) VenueConnector" and F :: "('c, 'f) feed_ops" and signed free creds nonce limit stamped

sublocale nonce_adapter \<subseteq> adapter: nonce_client "adapter_call conn F" "\<lambda>s. nonce (fst s)" limit "\<lambda>s. creds (fst s)" signed stamped free
proof unfold_locales
  fix q :: "'d adapter_op" and s :: "'c \<times> 'f list" and e r s' e'
  assume "adapter_call conn F q (s, e) = (r, s', e')" and n: "0 \<le> nonce (fst s)" "nonce (fst s) + 1 < limit"
  then have run: "adapter_call conn F q ((fst s, snd s), e) = (r, (fst s', snd s'), e')" by simp
  then show "creds (fst s') = creds (fst s)
      \<and> (\<exists>rqs. env_sent e' = env_sent e @ rqs \<and> list_all (\<lambda>rq. signed rq \<or> free (creds (fst s)) rq) rqs
          \<and> (filter signed rqs = [] \<and> nonce (fst s) \<le> nonce (fst s') \<and> nonce (fst s') \<le> nonce (fst s) + 1
             \<or> (\<exists>rq. filter signed rqs = [rq] \<and> nonce (fst s') = nonce (fst s) + 1
                  \<and> stamped (creds (fst s)) (nonce (fst s')) rq)))"
  proof (cases rule: adapter_cases)
    case (call o')
    from step [OF this n] show ?thesis .
  next
    case feed
    then obtain rqs where "env_sent e' = env_sent e @ rqs" "list_all (\<lambda>rq. \<not> signed rq \<and> free (creds (fst s)) rq) rqs"
      by (auto simp: sends_only_def)
    with feed(1) show ?thesis by (auto simp: list_all_iff filter_empty_conv)
  qed
qed

section \<open>Connectors that need a client order id\<close>

text \<open>
  The contract of the three exchange adapters: without a client order id \<open>PlaceOrder\<close> fails
  before anything happens.
\<close>

locale client_id_required =
  fixes place :: "'d OrderRequest \<Rightarrow> 'c \<times> env \<Rightarrow> (string + 'd OrderResponse) \<times> 'c \<times> env" and venue :: string
  assumes refused: "or_ClientOrderID req = [] \<Longrightarrow>
      place req ce = (Inl (venue @ '': client_order_id required''), ce)"

end
