(* ===== verification/Binance.thy ===== *)
theory Binance
  imports Adapter WsClient
begin

text \<open>
  The Binance adapter of \<open>internal/adapters/binance\<close>: the signed REST calls behind the weighted
  limiter, the mapping of the venue's answers, and the book subscription with its snapshots.
  The response headers that \<open>doSigned\<close> also returns are used by nobody and left out.
\<close>

record Binance_Connector =
  bn_cfg :: VenueConfig
  bn_apiKey :: string
  bn_apiSecret :: string
  bn_limiter :: WeightedLimiter
  bn_nonce :: int

definition Binance_readBudget :: "(string \<Rightarrow> string) \<Rightarrow> int" where
  "Binance_readBudget getenv =
     (let b = getenv ''RATE_LIMIT_WEIGHT_BUDGET'' in
      if b = [] then 1200 else case ParseInt b of None \<Rightarrow> 1200 | Some n \<Rightarrow> n)"

definition Binance_NewConnector ::
    "(string \<Rightarrow> string) \<Rightarrow> string \<Rightarrow> string \<Rightarrow> WeightedLimiter option \<Rightarrow> env \<Rightarrow> Binance_Connector \<times> env" where
  "Binance_NewConnector getenv apiKey apiSecret limiter e0 =
     (let rest = (if getenv ''BINANCE_REST_URL'' = [] then ''https://api.binance.com'' else getenv ''BINANCE_REST_URL'');
          wsBase = (if getenv ''BINANCE_WS_URL'' = [] then ''wss://stream.binance.com:9443/ws'' else getenv ''BINANCE_WS_URL'');
          budget = Binance_readBudget getenv;
          (lim, e1) = (case limiter of Some l \<Rightarrow> (l, e0)
                       | None \<Rightarrow> (let (now, e) = time_Now e0 in (NewWeightedLimiter ''binance'' budget now, e)));
          (now, e2) = time_Now e1
      in (\<lparr>bn_cfg = \<lparr>vc_Name = ''binance'', vc_RESTBase = rest, vc_WSBase = wsBase\<rparr>, bn_apiKey = apiKey,
           bn_apiSecret = apiSecret, bn_limiter = lim, bn_nonce = time_UnixMilli now\<rparr>, e2))"

section \<open>Signed requests\<close>

record restError =
  re_Code :: int
  re_Msg :: string

definition dec_restError :: "restError decoder" where
  "dec_restError = dec_struct (\<lambda>k v s.
     if field_matches ''code'' k then into_field dec_int64 re_Code re_Code_update v s
     else if field_matches ''msg'' k then into_field dec_string re_Msg re_Msg_update v s
     else (s, False))"

definition Binance_sign :: "Binance_Connector \<Rightarrow> string \<Rightarrow> string" where
  "Binance_sign c query = hex_EncodeToString (hmac_sha256 (bn_apiSecret c) query)"

definition Binance_do ::
    "http_request \<times> int \<Rightarrow> Binance_Connector \<times> env \<Rightarrow> (string + string) \<times> Binance_Connector \<times> env" where
  "Binance_do = (\<lambda>(rq, weight) (c, e0).
     (case wait_weighted weight (bn_limiter c, e0) of
        (Some err, l, e1) \<Rightarrow> (Inl err, c\<lparr>bn_limiter := l\<rparr>, e1)
      | (None, l, e1) \<Rightarrow>
          (let (resp, e2) = http_Do rq e1 in
           case read_response resp of
             Inl err \<Rightarrow> (Inl err, c\<lparr>bn_limiter := l\<rparr>, e2)
           | Inr (status, hdr, body) \<Rightarrow>
               (let h = Header_Get hdr ''X-MBX-USED-WEIGHT-1M'';
                    (l1, e3) = (case (if h = [] then None else ParseInt h) of
                                  None \<Rightarrow> (l, e2)
                                | Some used \<Rightarrow> (let (l', ms) = WeightedLimiter_UpdateUsed ''binance'' used l
                                               in (l', update_metrics ms e2)))
                in if status = 429 \<or> status = 418 then
                     (let (now, e4) = time_Now e3
                      in (Inl (''binance: rate limited (status '' @ status_text status @ '')''),
                          c\<lparr>bn_limiter := WeightedLimiter_Backoff ''binance'' (30 * Second) now l1\<rparr>, e4))
                   else if status \<ge> 400 then
                     (let (re, _) = json_Unmarshal dec_restError body \<lparr>re_Code = 0, re_Msg = []\<rparr>
                      in (Inl (''binance: status '' @ status_text status @ '' code '' @ FormatInt (re_Code re)
                               @ '' msg '' @ re_Msg re), c\<lparr>bn_limiter := l1\<rparr>, e3))
                   else (Inr body, c\<lparr>bn_limiter := l1\<rparr>, e3)))))"

definition signed_query :: "int \<Rightarrow> url_Values \<Rightarrow> string" where
  "signed_query ts params =
     values_Encode (values_Set ''recvWindow'' ''5000'' (values_Set ''timestamp'' (FormatInt ts) params))"

definition signed_request :: "string \<Rightarrow> string \<Rightarrow> url_Values \<Rightarrow> Binance_Connector \<Rightarrow> http_request" where
  "signed_request method path params c =
     (let query = signed_query (bn_nonce c) params
      in \<lparr>rq_method = method,
          rq_url = vc_RESTBase (bn_cfg c) @ path @ ''?'' @ query @ ''&signature='' @ Binance_sign c query,
          rq_headers = [(''X-MBX-APIKEY'', bn_apiKey c)], rq_body = []\<rparr>)"

definition Binance_doSigned ::
    "string \<Rightarrow> string \<Rightarrow> url_Values \<Rightarrow> int \<Rightarrow> Binance_Connector \<times> env
      \<Rightarrow> (string + string) \<times> Binance_Connector \<times> env" where
  "Binance_doSigned method path params weight = (\<lambda>(c0, e).
     (let c = c0\<lparr>bn_nonce := wrap64 (bn_nonce c0 + 1)\<rparr>; rq = signed_request method path params c
      in case env_urlErr e (rq_url rq) of
           Some err \<Rightarrow> (Inl err, c, e)
         | None \<Rightarrow> Binance_do (rq, weight) (c, e)))"

section \<open>Orders\<close>

definition Binance_normalizeSymbol :: "string \<Rightarrow> string" where
  "Binance_normalizeSymbol s = ToUpper s"

definition Binance_mapStatus :: "string \<Rightarrow> OrderStatus" where
  "Binance_mapStatus s =
     (let u = ToUpper s in
      if u = ''NEW'' then OrderStatusNew
      else if u = ''PARTIALLY_FILLED'' \<or> u = ''PARTIALLYFILLED'' then OrderStatusPartial
      else if u = ''FILLED'' then OrderStatusFilled
      else if u = ''CANCELED'' \<or> u = ''CANCELLED'' then OrderStatusCanceled
      else s)"

record binanceFill =
  bf_Price :: string
  bf_Qty :: string
  bf_Commission :: string
  bf_CommissionAsset :: string
  bf_TradeID :: int

record placeOrderResp =
  po_OrderID :: int
  po_ClientOrderID :: string
  po_Status :: string
  po_ExecutedQty :: string
  po_CummulativeQuoteQty :: string
  po_Fills :: "binanceFill list"
  po_Symbol :: string

definition dec_binanceFill :: "binanceFill decoder" where
  "dec_binanceFill = dec_struct (\<lambda>k v s.
     if field_matches ''price'' k then into_field dec_string bf_Price bf_Price_update v s
     else if field_matches ''qty'' k then into_field dec_string bf_Qty bf_Qty_update v s
     else if field_matches ''commission'' k then into_field dec_string bf_Commission bf_Commission_update v s
     else if field_matches ''commissionAsset'' k then into_field dec_string bf_CommissionAsset bf_CommissionAsset_update v s
     else if field_matches ''tradeId'' k then into_field dec_int64 bf_TradeID bf_TradeID_update v s
     else (s, False))"

definition zero_binanceFill :: binanceFill where
  "zero_binanceFill = \<lparr>bf_Price = [], bf_Qty = [], bf_Commission = [], bf_CommissionAsset = [], bf_TradeID = 0\<rparr>"

definition dec_placeOrderResp :: "placeOrderResp decoder" where
  "dec_placeOrderResp = dec_struct (\<lambda>k v s.
     if field_matches ''orderId'' k then into_field dec_int64 po_OrderID po_OrderID_update v s
     else if field_matches ''clientOrderId'' k then into_field dec_string po_ClientOrderID po_ClientOrderID_update v s
     else if field_matches ''status'' k then into_field dec_string po_Status po_Status_update v s
     else if field_matches ''executedQty'' k then into_field dec_string po_ExecutedQty po_ExecutedQty_update v s
     else if field_matches ''cummulativeQuoteQty'' k then
       into_field dec_string po_CummulativeQuoteQty po_CummulativeQuoteQty_update v s
     else if field_matches ''fills'' k then
       into_field (dec_slice dec_binanceFill zero_binanceFill) po_Fills po_Fills_update v s
     else if field_matches ''symbol'' k then into_field dec_string po_Symbol po_Symbol_update v s
     else (s, False))"

definition zero_placeOrderResp :: placeOrderResp where
  "zero_placeOrderResp =
     \<lparr>po_OrderID = 0, po_ClientOrderID = [], po_Status = [], po_ExecutedQty = [], po_CummulativeQuoteQty = [],
      po_Fills = [], po_Symbol = []\<rparr>"

fun Binance_mapFills :: "'d decimal_ops \<Rightarrow> int \<Rightarrow> binanceFill list \<Rightarrow> env \<Rightarrow> 'd Fill list \<times> env" where
  "Binance_mapFills D orderID [] e = ([], e)"
| "Binance_mapFills D orderID (f # fs) e0 =
     (let (now, e1) = time_Now e0;
          fill = \<lparr>fl_VenueOrderID = FormatInt orderID, fl_TradeID = FormatInt (bf_TradeID f),
                  fl_Price = dec_of D (bf_Price f), fl_Quantity = dec_of D (bf_Qty f),
                  fl_Fee = dec_of D (bf_Commission f), fl_FeeAsset = bf_CommissionAsset f, fl_Timestamp = now\<rparr>;
          (fills, e2) = Binance_mapFills D orderID fs e1
      in (fill # fills, e2))"

definition Binance_mapOrder :: "'d decimal_ops \<Rightarrow> placeOrderResp \<Rightarrow> env \<Rightarrow> 'd OrderResponse \<times> env" where
  "Binance_mapOrder D r e0 =
     (let exec = dec_of D (po_ExecutedQty r);
          avg = (if po_CummulativeQuoteQty r \<noteq> [] \<and> \<not> d_IsZero D exec
                 then d_Div D (dec_of D (po_CummulativeQuoteQty r)) exec else d_Zero D);
          (fills, e1) = Binance_mapFills D (po_OrderID r) (po_Fills r) e0;
          avg' = (case fills of f # _ \<Rightarrow> if d_IsZero D avg then fl_Price f else avg | [] \<Rightarrow> avg)
      in (\<lparr>os_VenueOrderID = FormatInt (po_OrderID r), os_ClientOrderID = po_ClientOrderID r,
           os_Status = Binance_mapStatus (po_Status r), os_FilledQty = exec, os_AvgPrice = avg', os_Fills = fills\<rparr>, e1))"

definition order_params :: "'d decimal_ops \<Rightarrow> 'd OrderRequest \<Rightarrow> url_Values" where
  "order_params D req =
     (let p = values_Set ''newClientOrderId'' (or_ClientOrderID req)
               (values_Set ''quantity'' (d_String D (or_Quantity req))
                 (values_Set ''type'' (or_Type req)
                   (values_Set ''side'' (or_Side req)
                     (values_Set ''symbol'' (Binance_normalizeSymbol (or_Symbol req)) []))))
      in if or_Type req = OrderTypeLimit
         then values_Set ''timeInForce'' ''GTC'' (values_Set ''price'' (d_String D (or_Price req)) p) else p)"

definition Binance_PlaceOrder ::
    "err_texts \<Rightarrow> 'd decimal_ops \<Rightarrow> 'd OrderRequest \<Rightarrow> Binance_Connector \<times> env
      \<Rightarrow> (string + 'd OrderResponse) \<times> Binance_Connector \<times> env" where
  "Binance_PlaceOrder T D req ce =
     (if or_ClientOrderID req = [] then (Inl ''binance: client_order_id required'', ce)
      else
        (case Binance_doSigned ''POST'' ''/api/v3/order'' (order_params D req) 1 ce of
           (Inl err, ce') \<Rightarrow> (Inl err, ce')
         | (Inr body, c, e) \<Rightarrow>
             (case unmarshal_or T dec_placeOrderResp body zero_placeOrderResp of
                Inl err \<Rightarrow> (Inl err, c, e)
              | Inr r \<Rightarrow> (let (o', e') = Binance_mapOrder D r e in (Inr o', c, e')))))"

record orderResp =
  rr_OrderID :: int
  rr_ClientOrderID :: string
  rr_Status :: string
  rr_ExecutedQty :: string
  rr_CummulativeQuoteQty :: string
  rr_Symbol :: string

definition dec_orderResp :: "orderResp decoder" where
  "dec_orderResp = dec_struct (\<lambda>k v s.
     if field_matches ''orderId'' k then into_field dec_int64 rr_OrderID rr_OrderID_update v s
     else if field_matches ''clientOrderId'' k then into_field dec_string rr_ClientOrderID rr_ClientOrderID_update v s
     else if field_matches ''status'' k then into_field dec_string rr_Status rr_Status_update v s
     else if field_matches ''executedQty'' k then into_field dec_string rr_ExecutedQty rr_ExecutedQty_update v s
     else if field_matches ''cummulativeQuoteQty'' k then
       into_field dec_string rr_CummulativeQuoteQty rr_CummulativeQuoteQty_update v s
     else if field_matches ''symbol'' k then into_field dec_string rr_Symbol rr_Symbol_update v s
     else (s, False))"

definition Binance_mapOrderSimple :: "'d decimal_ops \<Rightarrow> orderResp \<Rightarrow> 'd OrderResponse" where
  "Binance_mapOrderSimple D r =
     (let exec = dec_of D (rr_ExecutedQty r);
          quote = dec_of D (rr_CummulativeQuoteQty r);
          avg = (if d_IsZero D exec then d_Zero D else d_Div D quote exec)
      in \<lparr>os_VenueOrderID = FormatInt (rr_OrderID r), os_ClientOrderID = rr_ClientOrderID r,
          os_Status = Binance_mapStatus (rr_Status r), os_FilledQty = exec, os_AvgPrice = avg, os_Fills = []\<rparr>)"

definition Binance_GetOrder ::
    "err_texts \<Rightarrow> 'd decimal_ops \<Rightarrow> string \<Rightarrow> Binance_Connector \<times> env
      \<Rightarrow> (string + 'd OrderResponse) \<times> Binance_Connector \<times> env" where
  "Binance_GetOrder T D venueOrderID ce =
     (case Binance_doSigned ''GET'' ''/api/v3/order'' (values_Set ''orderId'' venueOrderID []) 1 ce of
        (Inl err, ce') \<Rightarrow> (Inl err, ce')
      | (Inr body, ce') \<Rightarrow>
          (case unmarshal_or T dec_orderResp body \<lparr>rr_OrderID = 0, rr_ClientOrderID = [], rr_Status = [],
                  rr_ExecutedQty = [], rr_CummulativeQuoteQty = [], rr_Symbol = []\<rparr> of
             Inl err \<Rightarrow> (Inl err, ce')
           | Inr r \<Rightarrow> (Inr (Binance_mapOrderSimple D r), ce')))"

definition Binance_CancelOrder ::
    "CancelRequest \<Rightarrow> Binance_Connector \<times> env \<Rightarrow> string option \<times> Binance_Connector \<times> env" where
  "Binance_CancelOrder req ce =
     (if cr_VenueOrderID req = [] \<and> cr_ClientOrderID req = []
      then (Some ''binance: cancel requires venue or client order id'', ce)
      else
        (let params = (if cr_VenueOrderID req \<noteq> [] then values_Set ''orderId'' (cr_VenueOrderID req) []
                       else values_Set ''origClientOrderId'' (cr_ClientOrderID req) [])
         in case Binance_doSigned ''DELETE'' ''/api/v3/order'' params 1 ce of
              (Inl err, ce') \<Rightarrow> (Some err, ce')
            | (Inr _, ce') \<Rightarrow> (None, ce')))"

section \<open>Fills and balances\<close>

record binanceTrade =
  bt_TradeID :: int
  bt_Price :: string
  bt_Qty :: string
  bt_Commission :: string
  bt_CommissionAsset :: string
  bt_Time :: int

definition dec_binanceTrade :: "binanceTrade decoder" where
  "dec_binanceTrade = dec_struct (\<lambda>k v s.
     if field_matches ''id'' k then into_field dec_int64 bt_TradeID bt_TradeID_update v s
     else if field_matches ''price'' k then into_field dec_string bt_Price bt_Price_update v s
     else if field_matches ''qty'' k then into_field dec_string bt_Qty bt_Qty_update v s
     else if field_matches ''commission'' k then into_field dec_string bt_Commission bt_Commission_update v s
     else if field_matches ''commissionAsset'' k then into_field dec_string bt_CommissionAsset bt_CommissionAsset_update v s
     else if field_matches ''time'' k then into_field dec_int64 bt_Time bt_Time_update v s
     else (s, False))"

definition Binance_dec_fills :: "binanceTrade list decoder" where
  "Binance_dec_fills = dec_struct (\<lambda>k v s.
     if field_matches ''fills'' k then
       dec_slice dec_binanceTrade \<lparr>bt_TradeID = 0, bt_Price = [], bt_Qty = [], bt_Commission = [],
         bt_CommissionAsset = [], bt_Time = 0\<rparr> v s
     else (s, False))"

definition Binance_fill_params :: "FillQuery \<Rightarrow> url_Values" where
  "Binance_fill_params query =
     (let p0 = (if fq_VenueOrderID query \<noteq> [] then values_Set ''orderId'' (fq_VenueOrderID query) [] else []);
          p1 = (if \<not> time_IsZero (fq_Start query)
                then values_Set ''startTime'' (FormatInt (time_UnixMilli (fq_Start query))) p0 else p0);
          p2 = (if \<not> time_IsZero (fq_End query)
                then values_Set ''endTime'' (FormatInt (time_UnixMilli (fq_End query))) p1 else p1)
      in values_Set ''limit'' (if fq_Limit query > 0 then FormatInt (fq_Limit query) else ''500'') p2)"

definition Binance_trade_fill :: "'d decimal_ops \<Rightarrow> string \<Rightarrow> binanceTrade \<Rightarrow> 'd Fill" where
  "Binance_trade_fill D orderID f =
     \<lparr>fl_VenueOrderID = orderID, fl_TradeID = FormatInt (bt_TradeID f), fl_Price = dec_of D (bt_Price f),
      fl_Quantity = dec_of D (bt_Qty f), fl_Fee = dec_of D (bt_Commission f),
      fl_FeeAsset = bt_CommissionAsset f, fl_Timestamp = time_ofUnixMilli (bt_Time f)\<rparr>"

definition Binance_GetFills ::
    "err_texts \<Rightarrow> 'd decimal_ops \<Rightarrow> FillQuery \<Rightarrow> Binance_Connector \<times> env
      \<Rightarrow> (string + 'd Fill list) \<times> Binance_Connector \<times> env" where
  "Binance_GetFills T D query ce =
     (case Binance_doSigned ''GET'' ''/api/v3/myTrades'' (Binance_fill_params query) 10 ce of
        (Inl err, ce') \<Rightarrow> (Inl err, ce')
      | (Inr body, ce') \<Rightarrow>
          (case unmarshal_or T Binance_dec_fills body [] of
             Inl err \<Rightarrow> (Inl err, ce')
           | Inr fs \<Rightarrow> (Inr (map (Binance_trade_fill D (fq_VenueOrderID query)) fs), ce')))"

record binanceBalance =
  bb_Asset :: string
  bb_Free :: string
  bb_Locked :: string

definition dec_binanceBalance :: "binanceBalance decoder" where
  "dec_binanceBalance = dec_struct (\<lambda>k v s.
     if field_matches ''asset'' k then into_field dec_string bb_Asset bb_Asset_update v s
     else if field_matches ''free'' k then into_field dec_string bb_Free bb_Free_update v s
     else if field_matches ''locked'' k then into_field dec_string bb_Locked bb_Locked_update v s
     else (s, False))"

definition dec_accountResp :: "binanceBalance list decoder" where
  "dec_accountResp = dec_struct (\<lambda>k v s.
     if field_matches ''balances'' k then
       dec_slice dec_binanceBalance \<lparr>bb_Asset = [], bb_Free = [], bb_Locked = []\<rparr> v s
     else (s, False))"

fun Binance_assets :: "'d decimal_ops \<Rightarrow> binanceBalance list \<Rightarrow> 'd Balances \<Rightarrow> 'd Balances" where
  "Binance_assets D [] m = m"
| "Binance_assets D (b # bs) m =
     Binance_assets D bs (AList.update (bb_Asset b)
       \<lparr>bal_Asset = bb_Asset b, bal_Free = dec_of D (bb_Free b), bal_Locked = dec_of D (bb_Locked b)\<rparr> m)"

definition Binance_GetBalances ::
    "err_texts \<Rightarrow> 'd decimal_ops \<Rightarrow> Binance_Connector \<times> env
      \<Rightarrow> (string + 'd Balances) \<times> Binance_Connector \<times> env" where
  "Binance_GetBalances T D ce =
     (case Binance_doSigned ''GET'' ''/api/v3/account'' [] 5 ce of
        (Inl err, ce') \<Rightarrow> (Inl err, ce')
      | (Inr body, ce') \<Rightarrow>
          (case unmarshal_or T dec_accountResp body [] of
             Inl err \<Rightarrow> (Inl err, ce')
           | Inr bs \<Rightarrow> (Inr (Binance_assets D bs []), ce')))"

definition Binance_Config :: "Binance_Connector \<Rightarrow> VenueConfig" where
  "Binance_Config c = bn_cfg c"

section \<open>The order book\<close>

record depthData =
  dd_LastUpdateID :: int
  dd_Bids :: "level list"
  dd_Asks :: "level list"

record depthEvent =
  de_Stream :: string
  de_Data :: depthData

definition zero_depthData :: depthData where
  "zero_depthData = \<lparr>dd_LastUpdateID = 0, dd_Bids = [], dd_Asks = []\<rparr>"

text \<open>
  The fields of the event's data and of the snapshot have the same names up to case, by which
  the decoder does not distinguish them.
\<close>

definition dec_depthData :: "depthData decoder" where
  "dec_depthData = dec_struct (\<lambda>k v s.
     if field_matches ''lastUpdateId'' k then into_field dec_int64 dd_LastUpdateID dd_LastUpdateID_update v s
     else if field_matches ''bids'' k then into_field (dec_slice dec_pair ([], [])) dd_Bids dd_Bids_update v s
     else if field_matches ''asks'' k then into_field (dec_slice dec_pair ([], [])) dd_Asks dd_Asks_update v s
     else (s, False))"

definition dec_depthEvent :: "depthEvent decoder" where
  "dec_depthEvent = dec_struct (\<lambda>k v s.
     if field_matches ''stream'' k then into_field dec_string de_Stream de_Stream_update v s
     else if field_matches ''data'' k then into_field dec_depthData de_Data de_Data_update v s
     else (s, False))"

definition streamToPair :: "string \<Rightarrow> string" where
  "streamToPair stream =
     (case SplitN2 (CHR ''@'') stream of (p, Some _) \<Rightarrow> if p = [] then stream else p | (_, None) \<Rightarrow> stream)"

text \<open>The state of a subscription: a reconstructor per pair in lower case, and what the channel holds.\<close>

record 'd Binance_feed =
  bd_recons :: "(string \<times> BookReconstructor) list"
  bd_out :: "'d BookUpdate list"

definition depth_request :: "string \<Rightarrow> string \<Rightarrow> http_request" where
  "depth_request restBase pair =
     \<lparr>rq_method = ''GET'', rq_url = restBase @ ''/api/v3/depth?symbol='' @ ToUpper pair @ ''&limit=100'',
      rq_headers = [], rq_body = []\<rparr>"

definition refreshSnapshot ::
    "err_texts \<Rightarrow> string \<Rightarrow> string \<Rightarrow> BookReconstructor \<times> env \<Rightarrow> string option \<times> BookReconstructor \<times> env" where
  "refreshSnapshot T restBase pair = (\<lambda>(r, e0).
     (case env_urlErr e0 (rq_url (depth_request restBase pair)) of
        Some err \<Rightarrow> (Some err, r, e0)
      | None \<Rightarrow>
          (let (resp, e1) = http_Do (depth_request restBase pair) e0 in
           case read_response resp of
             Inl err \<Rightarrow> (Some err, r, e1)
           | Inr (status, hdr, body) \<Rightarrow>
               if status \<ge> 400 then (Some (''snapshot status '' @ status_text status), r, e1)
               else (case unmarshal_or T dec_depthData body zero_depthData of
                       Inl err \<Rightarrow> (Some err, r, e1)
                     | Inr sn \<Rightarrow> (None, apply_snapshot (dd_Bids sn) (dd_Asks sn) (r, e1))))))"

definition Binance_emitUpdate ::
    "'d decimal_ops \<Rightarrow> (side \<Rightarrow> level list) \<Rightarrow> BookReconstructor \<Rightarrow> string
      \<Rightarrow> 'd BookUpdate list \<times> env \<Rightarrow> 'd BookUpdate list \<times> env" where
  "Binance_emitUpdate D ord r pair = emit_update D ord ''binance'' pair (ToUpper pair) r"

text \<open>The handler of a WebSocket message.\<close>

definition Binance_handle ::
    "err_texts \<Rightarrow> 'd decimal_ops \<Rightarrow> (side \<Rightarrow> level list) \<Rightarrow> string \<Rightarrow> string
      \<Rightarrow> 'd Binance_feed \<times> env \<Rightarrow> 'd Binance_feed \<times> env" where
  "Binance_handle T D ord restBase msg = (\<lambda>(fd, e0).
     (case json_Unmarshal dec_depthEvent msg \<lparr>de_Stream = [], de_Data = zero_depthData\<rparr> of
        (ev, True) \<Rightarrow> (fd, e0)
      | (ev, False) \<Rightarrow>
          (let pair = streamToPair (de_Stream ev); key = ToLower pair; d = de_Data ev in
           case map_of (bd_recons fd) key of
             None \<Rightarrow> (fd, e0)
           | Some r \<Rightarrow>
               (case apply_diff (dd_LastUpdateID d) (dd_Bids d) (dd_Asks d) (r, e0) of
                  ((ok, gap), r1, e1) \<Rightarrow>
                    if gap then
                      (let (r2, ms) = MarkGap r1;
                           (err, r3, e2) = refreshSnapshot T restBase pair (r2, update_metrics ms e1);
                           e3 = (if err = None then update_metrics [Inc WSGapCount [''binance'']] e2 else e2)
                       in (fd\<lparr>bd_recons := AList.update key r3 (bd_recons fd)\<rparr>, e3))
                    else if \<not> ok then (fd, e1)
                    else
                      (let (out, e2) = Binance_emitUpdate D ord r1 pair (bd_out fd, e1)
                       in (fd\<lparr>bd_recons := AList.update key r1 (bd_recons fd), bd_out := out\<rparr>, e2))))))"

text \<open>The snapshots that the goroutine takes before it runs the client.\<close>

fun Binance_snapshots ::
    "err_texts \<Rightarrow> 'd decimal_ops \<Rightarrow> (side \<Rightarrow> level list) \<Rightarrow> string \<Rightarrow> string list
      \<Rightarrow> 'd Binance_feed \<times> env \<Rightarrow> 'd Binance_feed \<times> env" where
  "Binance_snapshots T D ord restBase [] fe = fe"
| "Binance_snapshots T D ord restBase (p # ps) (fd, e0) =
     (case map_of (bd_recons fd) (ToLower p) of
        None \<Rightarrow> Binance_snapshots T D ord restBase ps (fd, e0)
      | Some r \<Rightarrow>
          (case refreshSnapshot T restBase p (r, e0) of
             (Some err, r1, e1) \<Rightarrow>
               Binance_snapshots T D ord restBase ps (fd\<lparr>bd_recons := AList.update (ToLower p) r1 (bd_recons fd)\<rparr>, e1)
           | (None, r1, e1) \<Rightarrow>
               (let (out, e2) = Binance_emitUpdate D ord r1 p (bd_out fd, e1)
                in Binance_snapshots T D ord restBase ps
                     (fd\<lparr>bd_recons := AList.update (ToLower p) r1 (bd_recons fd), bd_out := out\<rparr>, e2))))"

text \<open>Every pair has a reconstructor, so the first case of the loop above does not arise.\<close>

definition Binance_SubscribeBook ::
    "string \<Rightarrow> string list \<Rightarrow> string + Client \<times> 'd Binance_feed" where
  "Binance_SubscribeBook wsBase pairs =
     (if pairs = [] then Inl ''binance: no pairs''
      else Inr (SetHandler (NewClient (wsBase @ ''/'' @ Join (map (\<lambda>p. ToLower p @ ''@depth'') pairs) ''/'') ''binance''),
                \<lparr>bd_recons = fold (\<lambda>p. AList.update (ToLower p) (NewBookReconstructor ''binance'' p)) pairs [],
                 bd_out = []\<rparr>))"

text \<open>The adapter as a connector.\<close>

definition Binance_connector ::
    "err_texts \<Rightarrow> 'd decimal_ops \<Rightarrow> (Binance_Connector, 'd) VenueConnector" where
  "Binance_connector T D =
     \<lparr>PlaceOrder = Binance_PlaceOrder T D, CancelOrder = Binance_CancelOrder, GetOrder = Binance_GetOrder T D,
      GetFills = Binance_GetFills T D, GetBalances = Binance_GetBalances T D,
      SubscribeBook = (\<lambda>pairs (c, e).
        (case (Binance_SubscribeBook (vc_WSBase (bn_cfg c)) pairs :: string + Client \<times> 'd Binance_feed) of
           Inl err \<Rightarrow> (Some err, c, e) | Inr _ \<Rightarrow> (None, c, e))),
      LastFill = (\<lambda>_. None)\<rparr>"

section \<open>What the calls do to the connector and the environment\<close>

definition Binance_same :: "Binance_Connector \<Rightarrow> Binance_Connector \<Rightarrow> bool" where
  "Binance_same c c' \<longleftrightarrow> c'\<lparr>bn_limiter := bn_limiter c\<rparr> = c"

lemma Binance_same_limiter [simp]: "Binance_same c (c\<lparr>bn_limiter := l\<rparr>)"
  by (simp add: Binance_same_def)

lemma Binance_sameD:
  "Binance_same c c' \<Longrightarrow> bn_nonce c' = bn_nonce c \<and> bn_cfg c' = bn_cfg c \<and> bn_apiKey c' = bn_apiKey c
    \<and> bn_apiSecret c' = bn_apiSecret c"
  by (cases c; cases c') (simp add: Binance_same_def)

lemma UpdateUsed_backoff: "WeightedLimiter_UpdateUsed v u l = (l', ms) \<Longrightarrow> wl_backoff l' = wl_backoff l"
  by (auto simp: WeightedLimiter_UpdateUsed_def Let_def)

lemma Binance_do_frame:
  assumes "Binance_do (rq, w) (c, e) = (r, c', e')"
  shows "env_later e e' \<and> Binance_same c c' \<and> (env_sent e' = env_sent e \<or> env_sent e' = env_sent e @ [rq])"
proof -
  obtain err l e1 where w: "wait_weighted w (bn_limiter c, e) = (err, l, e1)" by (metis surj_pair)
  note f = wait_frame(1) [OF w]
  obtain resp e2 where h: "http_Do rq e1 = (resp, e2)" by (metis surj_pair)
  have e2: "env_later e e2" "env_sent e2 = env_sent e @ [rq]"
    using f h by (auto simp: http_Do_def env_later_def)
  show ?thesis
  proof (cases err)
    case (Some a)
    with assms f show ?thesis by (auto simp: Binance_do_def w)
  next
    case None
    with assms e2 show ?thesis
      by (auto simp: Binance_do_def w h time_Now_def Let_def split: sum.splits option.splits prod.splits if_splits)
  qed
qed

lemma Binance_do_silent:
  assumes "Binance_do (rq, w) (c, e) = (r, c', e')"
    and "wl_backoff (bn_limiter c) \<noteq> 0" "clock_before (wl_backoff (bn_limiter c)) e e'"
  shows "env_sent e' = env_sent e \<and> wl_backoff (bn_limiter c') = wl_backoff (bn_limiter c)"
proof -
  obtain err l e1 where w: "wait_weighted w (bn_limiter c, e) = (err, l, e1)" by (metis surj_pair)
  have "env_later e1 e'"
    using assms(1) by (auto simp: Binance_do_def w time_Now_def http_Do_def env_later_def update_metrics_def Let_def
        split: sum.splits option.splits prod.splits if_splits)
  then have "clock_before (wl_backoff (bn_limiter c)) e e1"
    using assms(3) clock_before_parts wait_frame(1) [OF w] by blast
  from wait_weighted_backoff [OF w assms(2) this] assms(1) show ?thesis by (auto simp: Binance_do_def w)
qed

lemma Binance_do_refused:
  assumes "Binance_do (rq, w) (c, e) = (r, c', e')" "env_sent e' \<noteq> env_sent e"
    and "env_http e (length (env_sent e)) rq = Inr resp" "rp_body resp = Inr body"
    and "rp_status resp = 429 \<or> rp_status resp = 418"
  shows "wl_backoff (bn_limiter c') = time_Add (env_clock e (env_ticks e' - 1)) (30 * Second) \<and> (\<exists>x. r = Inl x)"
proof -
  obtain err l e1 where w: "wait_weighted w (bn_limiter c, e) = (err, l, e1)" by (metis surj_pair)
  note f = wait_frame(1) [OF w]
  have "err = None" using assms(1,2) f by (cases err) (auto simp: Binance_do_def w)
  then show ?thesis using assms(1,3-5) f
    by (auto simp: Binance_do_def w http_Do_def read_response_def env_later_def time_Now_def update_metrics_def
        WeightedLimiter_Backoff_def Let_def split: prod.splits option.splits)
qed

text \<open>What \<open>doSigned\<close> sends is stamped with the nonce and signed over its query.\<close>

definition Binance_stamped :: "string \<times> string \<times> string \<Rightarrow> int \<Rightarrow> http_request \<Rightarrow> bool" where
  "Binance_stamped = (\<lambda>(base, key, secret) n rq.
     rq_headers rq = [(''X-MBX-APIKEY'', key)] \<and> (\<exists>path query. rq_url rq = base @ path @ ''?'' @ query @ ''&signature='' @ hex_EncodeToString (hmac_sha256 secret query)
       \<and> Query_Get query ''timestamp'' = FormatInt n \<and> Query_Get query ''recvWindow'' = ''5000''))"

abbreviation Binance_creds :: "Binance_Connector \<Rightarrow> string \<times> string \<times> string" where
  "Binance_creds c \<equiv> (vc_RESTBase (bn_cfg c), bn_apiKey c, bn_apiSecret c)"

lemma signed_query_reads:
  assumes "distinct (map fst params)"
  shows "Query_Get (signed_query ts params) ''timestamp'' = FormatInt ts"
    and "Query_Get (signed_query ts params) ''recvWindow'' = ''5000''"
    and "key \<noteq> ''timestamp'' \<Longrightarrow> key \<noteq> ''recvWindow'' \<Longrightarrow>
      Query_Get (signed_query ts params) key = (case map_of params key of Some v \<Rightarrow> v | None \<Rightarrow> [])"
  using assms by (simp_all add: signed_query_def form_reads) (simp_all add: values_Set_def update_conv')

lemma signed_request_stamped:
  "distinct (map fst params) \<Longrightarrow> Binance_stamped (Binance_creds c) (bn_nonce c) (signed_request m p params c)"
  using signed_query_reads(1,2) [of params "bn_nonce c"]
  unfolding Binance_stamped_def signed_request_def Binance_sign_def Let_def by force

lemma Binance_doSigned_cases:
  assumes "Binance_doSigned m p params w (c, e) = (r, c', e')"
  obtains "c' = c\<lparr>bn_nonce := wrap64 (bn_nonce c + 1)\<rparr>" "e' = e"
  | rq where "Binance_do (rq, w) (c\<lparr>bn_nonce := wrap64 (bn_nonce c + 1)\<rparr>, e) = (r, c', e')"
      "rq = signed_request m p params (c\<lparr>bn_nonce := wrap64 (bn_nonce c + 1)\<rparr>)"
  using assms by (auto simp: Binance_doSigned_def Let_def split: option.splits)

text \<open>
  Every operation of the connector is at most one signed call, with parameters that are set
  once each, and readings of the clock after it.
\<close>

lemma params_distinct [simp]:
  "distinct (map fst (order_params D req))" "distinct (map fst (Binance_fill_params q))"
  by (simp_all add: order_params_def Binance_fill_params_def Let_def)

lemma Binance_mapFills_frame:
  "Binance_mapFills D i fs e = (fills, e') \<Longrightarrow> env_later e e' \<and> env_sent e' = env_sent e"
  by (induction fs arbitrary: e fills)
    (auto simp: time_Now_def env_later_def Let_def split: prod.splits, fastforce+)

lemma Binance_call_signed:
  assumes "connector_call (Binance_connector T D) q (c, e) = (err, c', e')"
  obtains "c' = c" "e' = e"
  | m p params w r e1 where "Binance_doSigned m p params w (c, e) = (r, c', e1)" "distinct (map fst params)"
      "env_later e1 e'" "env_sent e' = env_sent e1" "\<And>x. r = Inl x \<Longrightarrow> err = Some x \<and> e' = e1"
proof (cases q)
  case (OpPlace req)
  show ?thesis
  proof (cases "or_ClientOrderID req = []")
    case True
    with assms OpPlace that(1) show ?thesis by (simp add: Binance_connector_def Binance_PlaceOrder_def)
  next
    case False
    obtain r c1 e1 where d: "Binance_doSigned ''POST'' ''/api/v3/order'' (order_params D req) 1 (c, e) = (r, c1, e1)"
      by (metis surj_pair)
    have "c' = c1" "env_later e1 e'" "env_sent e' = env_sent e1" "\<And>x. r = Inl x \<Longrightarrow> err = Some x \<and> e' = e1"
      using assms OpPlace False
      by (auto simp: Binance_connector_def Binance_PlaceOrder_def d Binance_mapOrder_def error_of_def Let_def
          dest: Binance_mapFills_frame split: sum.splits prod.splits)
    with d that(2) show ?thesis by (metis params_distinct(1))
  qed
next
  case (OpCancel req)
  show ?thesis
  proof (cases "cr_VenueOrderID req = [] \<and> cr_ClientOrderID req = []")
    case True
    with assms OpCancel that(1) show ?thesis by (simp add: Binance_connector_def Binance_CancelOrder_def)
  next
    case False
    let ?ps = "if cr_VenueOrderID req \<noteq> [] then values_Set ''orderId'' (cr_VenueOrderID req) []
      else values_Set ''origClientOrderId'' (cr_ClientOrderID req) []"
    obtain r c1 e1 where d: "Binance_doSigned ''DELETE'' ''/api/v3/order'' ?ps 1 (c, e) = (r, c1, e1)"
      by (metis surj_pair)
    have "c' = c1" "e' = e1" "\<And>x. r = Inl x \<Longrightarrow> err = Some x"
      using assms OpCancel False d
      by (auto simp: Binance_connector_def Binance_CancelOrder_def Let_def split: sum.splits if_splits)
    with d that(2) [of _ _ ?ps] show ?thesis by auto
  qed
next
  case (OpGet i)
  let ?ps = "values_Set ''orderId'' i []"
  obtain r c1 e1 where d: "Binance_doSigned ''GET'' ''/api/v3/order'' ?ps 1 (c, e) = (r, c1, e1)" by (metis surj_pair)
  have "c' = c1" "e' = e1" "\<And>x. r = Inl x \<Longrightarrow> err = Some x"
    using assms OpGet by (auto simp: Binance_connector_def Binance_GetOrder_def d error_of_def split: sum.splits prod.splits)
  with d that(2) [of _ _ ?ps] show ?thesis by auto
next
  case (OpFills fq)
  obtain r c1 e1 where d: "Binance_doSigned ''GET'' ''/api/v3/myTrades'' (Binance_fill_params fq) 10 (c, e) = (r, c1, e1)"
    by (metis surj_pair)
  have "c' = c1" "e' = e1" "\<And>x. r = Inl x \<Longrightarrow> err = Some x"
    using assms OpFills by (auto simp: Binance_connector_def Binance_GetFills_def d error_of_def split: sum.splits prod.splits)
  with d that(2) [of _ _ "Binance_fill_params fq"] show ?thesis by auto
next
  case OpBalances
  obtain r c1 e1 where d: "Binance_doSigned ''GET'' ''/api/v3/account'' [] 5 (c, e) = (r, c1, e1)" by (metis surj_pair)
  have "c' = c1" "e' = e1" "\<And>x. r = Inl x \<Longrightarrow> err = Some x"
    using assms OpBalances by (auto simp: Binance_connector_def Binance_GetBalances_def d error_of_def split: sum.splits prod.splits)
  with d that(2) [of _ _ "[]"] show ?thesis by auto
qed

text \<open>What the feed sends: unsigned requests for depth snapshots.\<close>

definition depth_only :: "string \<Rightarrow> http_request \<Rightarrow> bool" where
  "depth_only base rq \<longleftrightarrow> rq_headers rq = [] \<and> (\<exists>pair. rq = depth_request base pair)"

lemma depth_only_request [simp]: "depth_only base (depth_request base pair)"
  by (auto simp: depth_only_def depth_request_def)

lemma refreshSnapshot_sends:
  assumes "refreshSnapshot T base pair (r, e) = (err, r', e')"
  shows "sends_only (depth_only base) e e'"
proof -
  have "env_later e e' \<and> (env_sent e' = env_sent e \<or> env_sent e' = env_sent e @ [depth_request base pair])"
    using assms by (auto simp: refreshSnapshot_def apply_snapshot_def http_Do_def time_Now_def env_later_def Let_def
        split: option.splits sum.splits prod.splits if_splits)
  then show ?thesis by (auto simp: sends_only_def)
qed

lemma Binance_handle_sends:
  assumes "Binance_handle T D ord base msg (fd, e) = (fd', e')"
  shows "sends_only (depth_only base) e e'"
proof -
  obtain ev bad where ev: "json_Unmarshal dec_depthEvent msg \<lparr>de_Stream = [], de_Data = zero_depthData\<rparr> = (ev, bad)"
    by (metis surj_pair)
  let ?pair = "streamToPair (de_Stream ev)"
  show ?thesis
  proof (cases "bad \<or> map_of (bd_recons fd) (ToLower ?pair) = None")
    case True
    then show ?thesis using assms ev by (cases bad) (auto simp: Binance_handle_def Let_def)
  next
    case False
    then obtain r where r: "map_of (bd_recons fd) (ToLower ?pair) = Some r" by auto
    obtain ok gap r1 e1 where d: "apply_diff (dd_LastUpdateID (de_Data ev)) (dd_Bids (de_Data ev)) (dd_Asks (de_Data ev)) (r, e)
        = ((ok, gap), r1, e1)" by (metis surj_pair)
    obtain err r3 e2 where f: "refreshSnapshot T base ?pair (fst (MarkGap r1), update_metrics (snd (MarkGap r1)) e1) = (err, r3, e2)"
      by (metis surj_pair)
    obtain out e3 where m: "Binance_emitUpdate D ord r1 ?pair (bd_out fd, e1) = (out, e3)" by (metis surj_pair)
    have "e' = e1 \<or> e' = e2 \<or> e' = update_metrics [Inc WSGapCount [''binance'']] e2 \<or> e' = e3"
      using assms ev False r d f m by (auto simp: Binance_handle_def Let_def split: prod.splits if_splits)
    moreover have "sends_only (depth_only base) e e1" using apply_diff_sends [OF d] .
    moreover have "sends_only (depth_only base) e1 e2"
      using refreshSnapshot_sends [OF f] by simp
    moreover have "sends_only (depth_only base) e1 e3" using emit_update_sends m [unfolded Binance_emitUpdate_def] by blast
    ultimately show ?thesis by (auto intro: sends_only_trans)
  qed
qed

lemma Binance_snapshots_sends:
  "Binance_snapshots T D ord base ps (fd, e) = (fd', e') \<Longrightarrow> sends_only (depth_only base) e e'"
proof (induction ps arbitrary: fd e)
  case (Cons p ps)
  show ?case
  proof (cases "map_of (bd_recons fd) (ToLower p)")
    case (Some r)
    obtain err r1 e1 where f: "refreshSnapshot T base p (r, e) = (err, r1, e1)" by (metis surj_pair)
    obtain out e2 where m: "Binance_emitUpdate D ord r1 p (bd_out fd, e1) = (out, e2)" by (metis surj_pair)
    have "sends_only (depth_only base) e1 e2" using emit_update_sends m [unfolded Binance_emitUpdate_def] by blast
    then show ?thesis
      using Cons refreshSnapshot_sends [OF f] Some f m
      by (cases err) (auto intro: sends_only_trans)
  qed (use Cons in simp)
qed simp

text \<open>The adapter with its feeds; one snapshot at a time, as the goroutine takes them.\<close>

definition Binance_feed_ops ::
    "err_texts \<Rightarrow> 'd decimal_ops \<Rightarrow> (side \<Rightarrow> level list) \<Rightarrow> (Binance_Connector, 'd Binance_feed) feed_ops" where
  "Binance_feed_ops T D ord =
     \<lparr>feed_open = (\<lambda>pairs c. case Binance_SubscribeBook (vc_WSBase (bn_cfg c)) pairs of Inl _ \<Rightarrow> None | Inr (_, fd) \<Rightarrow> Some fd),
      feed_snapshot = (\<lambda>c p. Binance_snapshots T D ord (vc_RESTBase (bn_cfg c)) [p]),
      feed_message = (\<lambda>c. Binance_handle T D ord (vc_RESTBase (bn_cfg c)))\<rparr>"

lemma Binance_feed_sel:
  "feed_snapshot (Binance_feed_ops T D ord) c p = Binance_snapshots T D ord (vc_RESTBase (bn_cfg c)) [p]"
  "feed_message (Binance_feed_ops T D ord) c = Binance_handle T D ord (vc_RESTBase (bn_cfg c))"
  by (simp_all add: Binance_feed_ops_def)

definition Binance_call ::
    "err_texts \<Rightarrow> 'd decimal_ops \<Rightarrow> (side \<Rightarrow> level list) \<Rightarrow> 'd adapter_op
      \<Rightarrow> (Binance_Connector \<times> 'd Binance_feed list) \<times> env
      \<Rightarrow> string option \<times> (Binance_Connector \<times> 'd Binance_feed list) \<times> env" where
  "Binance_call T D ord = adapter_call (Binance_connector T D) (Binance_feed_ops T D ord)"

text \<open>A signed request carries the API key.\<close>

definition keyed :: "http_request \<Rightarrow> bool" where
  "keyed rq \<longleftrightarrow> rq_headers rq \<noteq> []"

lemma keyed_signed_request [simp]: "keyed (signed_request m p params c)"
  by (simp add: keyed_def signed_request_def Let_def)

lemma depth_feed_law: "sends_only (depth_only base) e e' \<Longrightarrow> sends_only (\<lambda>rq. \<not> keyed rq \<and> depth_only base rq) e e'"
  by (erule sends_only_mono) (simp add: keyed_def depth_only_def)

interpretation bn: polite_adapter "Binance_connector T D" "Binance_feed_ops T D ord" keyed
  "\<lambda>c. depth_only (vc_RESTBase (bn_cfg c))" "\<lambda>c. wl_backoff (bn_limiter c)" "\<lambda>s. s = 429 \<or> s = 418" "30 * Second"
proof unfold_locales
  fix c e p msg fd fd' e' pairs err c'
  show "SubscribeBook (Binance_connector T D) pairs (c, e) = (err, c', e') \<Longrightarrow> c' = c \<and> e' = e"
    by (auto simp: Binance_connector_def split: sum.splits)
  show "feed_snapshot (Binance_feed_ops T D ord) c p (fd, e) = (fd', e')
      \<Longrightarrow> sends_only (\<lambda>rq. \<not> keyed rq \<and> depth_only (vc_RESTBase (bn_cfg c)) rq) e e'"
    by (simp only: Binance_feed_sel) (erule depth_feed_law [OF Binance_snapshots_sends])
  show "feed_message (Binance_feed_ops T D ord) c msg (fd, e) = (fd', e')
      \<Longrightarrow> sends_only (\<lambda>rq. \<not> keyed rq \<and> depth_only (vc_RESTBase (bn_cfg c)) rq) e e'"
    by (simp only: Binance_feed_sel) (erule depth_feed_law [OF Binance_handle_sends])
next
  fix q c e r c' e'
  assume call: "connector_call (Binance_connector T D) q (c, e) = (r, c', e')"
  show later: "env_later e e'"
    using call by (rule Binance_call_signed)
      (auto elim!: Binance_doSigned_cases dest!: Binance_do_frame intro: env_later_trans)
  show "filter keyed (env_sent e') = filter keyed (env_sent e) \<and> wl_backoff (bn_limiter c') = wl_backoff (bn_limiter c)"
    if b: "wl_backoff (bn_limiter c) \<noteq> 0" "clock_before (wl_backoff (bn_limiter c)) e e'"
    using call
  proof (rule Binance_call_signed)
    fix m p params w r1 e1
    assume d: "Binance_doSigned m p params w (c, e) = (r1, c', e1)" and l: "env_later e1 e'" "env_sent e' = env_sent e1"
    have "env_later e e1" using d by (auto elim!: Binance_doSigned_cases dest!: Binance_do_frame)
    with b(2) l have "clock_before (wl_backoff (bn_limiter c)) e e1" using clock_before_parts by blast
    with d b(1) l(2) show ?thesis by (auto elim!: Binance_doSigned_cases dest!: Binance_do_silent)
  qed simp
  show "wl_backoff (bn_limiter c') = time_Add (env_clock e (env_ticks e' - 1)) (30 * Second)"
    if a: "env_sent e' = env_sent e @ rqs @ [rq]" "keyed rq" "env_http e (length (env_sent e @ rqs)) rq = Inr resp"
      "rp_body resp = Inr body" "rp_status resp = 429 \<or> rp_status resp = 418" for rqs rq resp body
    using call
  proof (rule Binance_call_signed)
    fix m p params w r1 e1
    assume d: "Binance_doSigned m p params w (c, e) = (r1, c', e1)" and l: "env_later e1 e'" "env_sent e' = env_sent e1"
      and x: "\<And>y. r1 = Inl y \<Longrightarrow> r = Some y \<and> e' = e1"
    from d show ?thesis
    proof (rule Binance_doSigned_cases)
      fix rq'
      assume do: "Binance_do (rq', w) (c\<lparr>bn_nonce := wrap64 (bn_nonce c + 1)\<rparr>, e) = (r1, c', e1)"
      with a(1) l(2) have "rqs = []" "rq' = rq" using Binance_do_frame by fastforce+
      then show ?thesis using Binance_do_refused [OF do] a l(2) x by auto
    qed (use a(1) l(2) in simp)
  qed (use a(1) in simp)
qed

interpretation bn_signed: nonce_adapter "Binance_connector T D" "Binance_feed_ops T D ord" keyed
  "\<lambda>(base, key, secret). depth_only base" Binance_creds bn_nonce "2 ^ 63" Binance_stamped
proof unfold_locales
  fix c e p msg fd fd' e' pairs err c'
  show "SubscribeBook (Binance_connector T D) pairs (c, e) = (err, c', e') \<Longrightarrow> c' = c \<and> e' = e"
    by (rule bn.subscribe)
  show "feed_snapshot (Binance_feed_ops T D ord) c p (fd, e) = (fd', e')
      \<Longrightarrow> sends_only (\<lambda>rq. \<not> keyed rq \<and> (case Binance_creds c of (base, key, secret) \<Rightarrow> depth_only base) rq) e e'"
    using bn.snapshot [of T D ord c p fd e fd' e'] by simp
  show "feed_message (Binance_feed_ops T D ord) c msg (fd, e) = (fd', e')
      \<Longrightarrow> sends_only (\<lambda>rq. \<not> keyed rq \<and> (case Binance_creds c of (base, key, secret) \<Rightarrow> depth_only base) rq) e e'"
    using bn.message [of T D ord c msg fd e fd' e'] by simp
next
  fix q c e r c' e'
  assume call: "connector_call (Binance_connector T D) q (c, e) = (r, c', e')"
    and n: "0 \<le> bn_nonce c" "bn_nonce c + 1 < 2 ^ 63"
  let ?c = "c\<lparr>bn_nonce := bn_nonce c + 1\<rparr>"
  have w: "wrap64 (bn_nonce c + 1) = bn_nonce c + 1" using n by (intro wrap64_id) (simp add: in64_def)
  let ?res = "Binance_creds c' = Binance_creds c
      \<and> (\<exists>rqs. env_sent e' = env_sent e @ rqs
          \<and> list_all (\<lambda>rq. keyed rq \<or> (case Binance_creds c of (base, key, secret) \<Rightarrow> depth_only base) rq) rqs
          \<and> (filter keyed rqs = [] \<and> bn_nonce c \<le> bn_nonce c' \<and> bn_nonce c' \<le> bn_nonce c + 1
             \<or> (\<exists>rq. filter keyed rqs = [rq] \<and> bn_nonce c' = bn_nonce c + 1
                  \<and> Binance_stamped (Binance_creds c) (bn_nonce c') rq)))"
  have none: ?res if "Binance_creds c' = Binance_creds c" "env_sent e' = env_sent e" "bn_nonce c \<le> bn_nonce c'" "bn_nonce c' \<le> bn_nonce c + 1"
    using that by auto
  show ?res
    using call
  proof (rule Binance_call_signed)
    fix m p params wt r1 e1
    assume d: "Binance_doSigned m p params wt (c, e) = (r1, c', e1)" and ps: "distinct (map fst params)"
      and l: "env_sent e' = env_sent e1"
    show ?thesis
      using d
    proof (rule Binance_doSigned_cases)
      fix rq
      assume do: "Binance_do (rq, wt) (c\<lparr>bn_nonce := wrap64 (bn_nonce c + 1)\<rparr>, e) = (r1, c', e1)"
        and rq: "rq = signed_request m p params (c\<lparr>bn_nonce := wrap64 (bn_nonce c + 1)\<rparr>)"
      have "bn_nonce c' = bn_nonce c + 1" "Binance_creds c' = Binance_creds c"
        using Binance_do_frame [OF do] Binance_sameD [of ?c c'] by (simp_all add: w)
      moreover have "Binance_stamped (Binance_creds c) (bn_nonce c + 1) rq"
        using signed_request_stamped [OF ps, of ?c m p] by (simp add: rq w)
      moreover have "keyed rq" by (simp add: rq)
      moreover have "env_sent e' = env_sent e \<or> env_sent e' = env_sent e @ [rq]" using Binance_do_frame [OF do] l by simp
      ultimately show ?thesis by (elim disjE) (auto intro: none)
    qed (use l w in \<open>auto intro: none\<close>)
  qed (auto intro: none)
qed

interpretation bn_id: client_id_required "Binance_PlaceOrder T D" "''binance''"
  by unfold_locales (simp add: Binance_PlaceOrder_def)

section \<open>Properties\<close>

text \<open>
  C5. Everything the Binance adapter sends, the book feeds included. Over any sequence of calls,
  subscriptions, snapshots and stream messages, every request is either unsigned and asks for a
  depth snapshot, or it carries the API key and is signed with the secret over exactly the query
  it carries; the timestamps of the latter (read back from the query) strictly increase, as long
  as the 64-bit nonce does not run out. They are no readings of the clock: they count up from the
  nonce, so that after \<open>k\<close> operations they are at most \<open>k\<close> above where they started.
\<close>

theorem Binance_requests_signed:
  assumes "venue_calls (Binance_call T D ord) ops ((c, feeds), e) = (((c', feeds'), e'), rs)"
    and "0 \<le> bn_nonce c" "bn_nonce c + int (length ops) < 2 ^ 63"
  shows "\<exists>ns rqs. env_sent e' = env_sent e @ rqs
    \<and> list_all (\<lambda>rq. keyed rq \<or> (\<exists>pair. rq = depth_request (vc_RESTBase (bn_cfg c)) pair)) rqs
    \<and> list_all2 (Binance_stamped (vc_RESTBase (bn_cfg c), bn_apiKey c, bn_apiSecret c)) ns (filter keyed rqs)
    \<and> sorted_wrt (<) ns \<and> list_all (\<lambda>n. bn_nonce c < n \<and> n \<le> bn_nonce c + int (length ops)) ns"
proof -
  have "(\<lambda>rq. keyed rq \<or> depth_only base rq) = (\<lambda>rq. keyed rq \<or> (\<exists>pair. rq = depth_request base pair))" for base
    by (auto simp: depth_only_def depth_request_def keyed_def)
  then show ?thesis using bn_signed.adapter.signed_run [OF assms(1) [unfolded Binance_call_def]] assms(2,3) by simp
qed

definition example_binance :: Binance_Connector where
  "example_binance =
     \<lparr>bn_cfg = \<lparr>vc_Name = ''binance'', vc_RESTBase = ''https://b'', vc_WSBase = ''wss://b''\<rparr>,
      bn_apiKey = ''k'', bn_apiSecret = ''s'', bn_limiter = NewWeightedLimiter ''binance'' 1200 5, bn_nonce = 7\<rparr>"

lemma example_binance_sends:
  assumes "Binance_doSigned m p params w (example_binance, fixed_env\<lparr>env_sent := sent\<rparr>) = (r, c', e')" "0 \<le> w" "w \<le> 10"
  shows "\<exists>rq. env_sent e' = sent @ [rq] \<and> keyed rq" "\<exists>x. r = Inl x"
proof -
  let ?l = "NewWeightedLimiter ''binance'' 1200 5"
  have "wrap64 w = w" using assms(2,3) by (intro wrap64_id) (simp add: in64_def)
  then obtain ms where "wait_weighted w (?l, fixed_env\<lparr>env_sent := sent\<rparr>)
      = (None, ?l\<lparr>wl_used := w\<rparr>, update_metrics ms (fixed_env\<lparr>env_sent := sent, env_ticks := 1\<rparr>))"
    using wait_open(1) [of ?l "fixed_env\<lparr>env_sent := sent\<rparr>" w] assms(2,3) by (auto simp: NewWeightedLimiter_def fixed_env_def)
  then show "\<exists>rq. env_sent e' = sent @ [rq] \<and> keyed rq" "\<exists>x. r = Inl x"
    using assms(1) by (auto simp: Binance_doSigned_def Binance_do_def example_binance_def fixed_env_def
        http_Do_def read_response_def update_metrics_def Let_def)
qed

lemma example_binance_runs:
  "\<exists>feeds rq c' e' rs. venue_calls (Binance_call \<lparr>et_base64 = id, et_json = id\<rparr> rat_decimal id)
      [Subscribe [''b''], Snapshot 0 ''b'', Call OpBalances] ((example_binance, []), fixed_env) = (((c', feeds), e'), rs)
    \<and> env_sent e' = [depth_request ''https://b'' ''b'', rq] \<and> keyed rq"
proof -
  let ?T = "\<lparr>et_base64 = id, et_json = id\<rparr>" and ?rq = "depth_request ''https://b'' ''b''"
  let ?fd = "\<lparr>bd_recons = [(''b'', NewBookReconstructor ''binance'' ''b'')], bd_out = []\<rparr> :: rat Binance_feed"
  obtain r c1 e1 where d: "Binance_doSigned ''GET'' ''/api/v3/account'' [] 5 (example_binance, fixed_env\<lparr>env_sent := [?rq]\<rparr>)
      = (r, c1, e1)" by (metis surj_pair)
  obtain x where x: "r = Inl x" using example_binance_sends(2) [OF d] by auto
  have low: "ToLower ''b'' = ''b''" by code_simp
  have "connector_call (Binance_connector ?T rat_decimal) OpBalances (example_binance, fixed_env\<lparr>env_sent := [?rq]\<rparr>) = (Some x, c1, e1)"
    by (simp add: Binance_connector_def Binance_GetBalances_def d x error_of_def)
  moreover have "feed_step (feed_snapshot (Binance_feed_ops ?T rat_decimal id) example_binance ''b'') 0 ([?fd], fixed_env)
      = ([?fd], fixed_env\<lparr>env_sent := [?rq]\<rparr>)"
    by (simp add: feed_step_def Binance_feed_ops_def refreshSnapshot_def http_Do_def read_response_def fixed_env_def
        example_binance_def low)
  ultimately have "venue_calls (Binance_call ?T rat_decimal id) [Subscribe [''b''], Snapshot 0 ''b'', Call OpBalances]
      ((example_binance, []), fixed_env) = (((c1, [?fd]), e1), [None, None, Some x])"
    by (simp add: venue_calls_Cons Binance_call_def)
      (simp add: Binance_connector_def Binance_feed_ops_def Binance_SubscribeBook_def low)
  with example_binance_sends(1) [OF d] show ?thesis by auto
qed

theorem Binance_requests_signed_witness:
  "\<exists>c' feeds e' rs ns rq. venue_calls (Binance_call \<lparr>et_base64 = id, et_json = id\<rparr> rat_decimal id)
       [Subscribe [''b''], Snapshot 0 ''b'', Call OpBalances] ((example_binance, []), fixed_env) = (((c', feeds), e'), rs)
    \<and> env_sent e' = [depth_request ''https://b'' ''b'', rq]
    \<and> list_all2 (Binance_stamped (''https://b'', ''k'', ''s'')) ns [rq] \<and> sorted_wrt (<) ns"
proof -
  obtain feeds rq c' e' rs where v: "venue_calls (Binance_call \<lparr>et_base64 = id, et_json = id\<rparr> rat_decimal id)
      [Subscribe [''b''], Snapshot 0 ''b'', Call OpBalances] ((example_binance, []), fixed_env) = (((c', feeds), e'), rs)"
    and s: "env_sent e' = [depth_request ''https://b'' ''b'', rq]" "keyed rq"
    using example_binance_runs by blast
  have "\<not> keyed (depth_request ''https://b'' ''b'')" by (simp add: keyed_def depth_request_def)
  with Binance_requests_signed [OF v] s obtain ns where
    "list_all2 (Binance_stamped (''https://b'', ''k'', ''s'')) ns [rq]" "sorted_wrt (<) ns"
    by (auto simp: example_binance_def fixed_env_def)
  with v s show ?thesis by blast
qed

text \<open>
  C19. What an order looks like on the wire: when \<open>PlaceOrder\<close> sends something, it is one POST to
  \<open>/api/v3/order\<close> with the API key, and a server that parses its query reads exactly the order's
  symbol in upper case, side, type, quantity and client order id, the price and the time in force
  for a limit order and only then, and the timestamp; the signature covers that query.
\<close>

theorem Binance_PlaceOrder_wire:
  assumes "Binance_PlaceOrder T D req (c, e) = (r, c', e')" "env_sent e' \<noteq> env_sent e"
  shows "\<exists>query. env_sent e' = env_sent e @ [\<lparr>rq_method = ''POST'',
        rq_url = vc_RESTBase (bn_cfg c) @ ''/api/v3/order'' @ ''?'' @ query @ ''&signature=''
                 @ hex_EncodeToString (hmac_sha256 (bn_apiSecret c) query),
        rq_headers = [(''X-MBX-APIKEY'', bn_apiKey c)], rq_body = []\<rparr>]
    \<and> Query_Get query ''symbol'' = ToUpper (or_Symbol req) \<and> Query_Get query ''side'' = or_Side req
    \<and> Query_Get query ''type'' = or_Type req \<and> Query_Get query ''quantity'' = d_String D (or_Quantity req)
    \<and> Query_Get query ''newClientOrderId'' = or_ClientOrderID req
    \<and> Query_Get query ''price'' = (if or_Type req = OrderTypeLimit then d_String D (or_Price req) else [])
    \<and> Query_Get query ''timeInForce'' = (if or_Type req = OrderTypeLimit then ''GTC'' else [])
    \<and> Query_Get query ''timestamp'' = FormatInt (wrap64 (bn_nonce c + 1))"
proof -
  let ?c = "c\<lparr>bn_nonce := wrap64 (bn_nonce c + 1)\<rparr>" and ?ps = "order_params D req"
  let ?q = "signed_query (wrap64 (bn_nonce c + 1)) ?ps"
  obtain r1 c1 e1 where d: "Binance_doSigned ''POST'' ''/api/v3/order'' ?ps 1 (c, e) = (r1, c1, e1)" by (metis surj_pair)
  have e1: "env_sent e' = env_sent e1"
    using assms by (auto simp: Binance_PlaceOrder_def d Binance_mapOrder_def Let_def
        dest: Binance_mapFills_frame split: sum.splits prod.splits if_splits)
  have "env_sent e' = env_sent e @ [signed_request ''POST'' ''/api/v3/order'' ?ps ?c]"
    using d by (rule Binance_doSigned_cases) (use assms(2) in \<open>auto simp: e1 dest!: Binance_do_frame\<close>)
  note sent = this [unfolded signed_request_def Binance_sign_def Let_def, simplified]
  note reads = signed_query_reads(1,3) [OF params_distinct(1)]
  show ?thesis
    by (rule exI [of _ ?q])
      (simp add: sent reads, simp add: order_params_def Binance_normalizeSymbol_def values_Set_def update_conv' Let_def)
qed

theorem Binance_PlaceOrder_wire_witness:
  "\<exists>c' e' r query. Binance_PlaceOrder \<lparr>et_base64 = id, et_json = id\<rparr> rat_decimal
      \<lparr>or_ClientOrderID = ''me'', or_Symbol = ''btcusdt'', or_Side = SideBuy, or_Type = OrderTypeLimit,
       or_Quantity = 2, or_Price = 30\<rparr> (example_binance, fixed_env) = (r, c', e')
    \<and> length (env_sent e') = 1 \<and> Query_Get query ''symbol'' = ''BTCUSDT'' \<and> Query_Get query ''price'' = ''30''"
proof -
  let ?req = "\<lparr>or_ClientOrderID = ''me'', or_Symbol = ''btcusdt'', or_Side = SideBuy, or_Type = OrderTypeLimit,
       or_Quantity = 2 :: rat, or_Price = 30\<rparr>"
  obtain r c' e' where v: "Binance_PlaceOrder \<lparr>et_base64 = id, et_json = id\<rparr> rat_decimal ?req (example_binance, fixed_env) = (r, c', e')"
    by (metis surj_pair)
  obtain r1 c1 e1 where d: "Binance_doSigned ''POST'' ''/api/v3/order'' (order_params rat_decimal ?req) 1
      (example_binance, fixed_env) = (r1, c1, e1)" by (metis surj_pair)
  have "fixed_env\<lparr>env_sent := []\<rparr> = fixed_env" by (simp add: fixed_env_def)
  note sends = example_binance_sends [of _ _ _ _ "[]", unfolded this, OF d, simplified]
  have "e' = e1" using v sends(2) by (auto simp: Binance_PlaceOrder_def d)
  then have s: "length (env_sent e') = 1" "env_sent e' \<noteq> env_sent fixed_env"
    using sends(1) by (auto simp: fixed_env_def)
  have "ToUpper ''btcusdt'' = ''BTCUSDT''" "d_String rat_decimal 30 = ''30''" by code_simp+
  with Binance_PlaceOrder_wire [OF v s(2)] s(1) v show ?thesis by auto
qed

text \<open>The snapshot that an answer of the depth endpoint carries, if it is a good one.\<close>

definition snapshot_of :: "err_texts \<Rightarrow> string + http_response \<Rightarrow> depthData option" where
  "snapshot_of T resp =
     (case read_response resp of
        Inr (status, hdr, body) \<Rightarrow>
          if status \<ge> 400 then None
          else (case unmarshal_or T dec_depthData body zero_depthData of Inl _ \<Rightarrow> None | Inr sn \<Rightarrow> Some sn)
      | Inl _ \<Rightarrow> None)"

text \<open>
  C31. A gap in the stream of a pair. The diff is not applied and nothing is published; exactly
  one snapshot is requested. A good answer replaces the levels of the book, and the gap is
  counted twice. A bad answer leaves the old levels. In both cases the sequence is forgotten, so
  the next diff is applied whatever its number, after a failed snapshot onto the stale levels.
\<close>

theorem Binance_gap:
  defines "pair ev \<equiv> streamToPair (de_Stream ev)"
  assumes "json_Unmarshal dec_depthEvent msg \<lparr>de_Stream = [], de_Data = zero_depthData\<rparr> = (ev, False)"
    and "map_of (bd_recons fd) (ToLower (pair ev)) = Some r"
    and "br_venue r = ''binance''" "br_lastSeq r \<noteq> 0" "br_lastSeq r < dd_LastUpdateID (de_Data ev)"
    and "wrap64 (br_lastSeq r + 1) < dd_LastUpdateID (de_Data ev)"
    and "env_urlErr e (rq_url (depth_request restBase (pair ev))) = None"
  shows "\<exists>fd' e' r'. Binance_handle T D ord restBase msg (fd, e) = (fd', e')
    \<and> bd_out fd' = bd_out fd \<and> env_sent e' = env_sent e @ [depth_request restBase (pair ev)]
    \<and> map_of (bd_recons fd') (ToLower (pair ev)) = Some r'
    \<and> (case snapshot_of T (env_http e (length (env_sent e)) (depth_request restBase (pair ev))) of
         Some sn \<Rightarrow> br_bids r' = snapshot_side (dd_Bids sn) [] \<and> br_asks r' = snapshot_side (dd_Asks sn) []
           \<and> env_metrics e' = env_metrics e @ [Inc WSGapCount [''binance''], Inc WSGapCount [''binance'']]
       | None \<Rightarrow> br_bids r' = br_bids r \<and> br_asks r' = br_asks r
           \<and> env_metrics e' = env_metrics e @ [Inc WSGapCount [''binance'']])
    \<and> (\<forall>seq bids asks now. fst (snd (ApplyDiff seq bids asks now r')))"
proof -
  let ?d = "de_Data ev" and ?rq = "depth_request restBase (pair ev)"
  let ?e = "update_metrics [Inc WSGapCount [''binance'']] e"
  have gap: "apply_diff (dd_LastUpdateID ?d) (dd_Bids ?d) (dd_Asks ?d) (r, e) = ((False, True), r, e)"
    using assms(4-7) by (simp add: apply_diff_def ApplyDiff_def time_Now_def)
  have mark: "MarkGap r = (r\<lparr>br_lastSeq := 0\<rparr>, [Inc WSGapCount [''binance'']])"
    using assms(4) by (simp add: MarkGap_def)
  obtain err r3 e3 where ref: "refreshSnapshot T restBase (pair ev) (r\<lparr>br_lastSeq := 0\<rparr>, ?e) = (err, r3, e3)"
    by (metis surj_pair)
  have u: "env_urlErr ?e (rq_url ?rq) = None" "env_http ?e = env_http e" "env_sent ?e = env_sent e"
    using assms(8) by (simp_all add: update_metrics_def)
  have r3: "br_lastSeq r3 = 0" "env_sent e3 = env_sent e @ [?rq]"
      "env_metrics e3 = env_metrics e @ [Inc WSGapCount [''binance'']]"
      "case snapshot_of T (env_http e (length (env_sent e)) ?rq) of
         Some sn \<Rightarrow> err = None \<and> br_bids r3 = snapshot_side (dd_Bids sn) [] \<and> br_asks r3 = snapshot_side (dd_Asks sn) []
       | None \<Rightarrow> err \<noteq> None \<and> br_bids r3 = br_bids r \<and> br_asks r3 = br_asks r"
    using ref u by (auto simp: refreshSnapshot_def snapshot_of_def http_Do_def apply_snapshot_def ApplySnapshot_def
        time_Now_def update_metrics_def split: sum.splits prod.splits if_splits)
  have h: "Binance_handle T D ord restBase msg (fd, e) =
      (fd\<lparr>bd_recons := AList.update (ToLower (pair ev)) r3 (bd_recons fd)\<rparr>,
       if err = None then update_metrics [Inc WSGapCount [''binance'']] e3 else e3)"
    using assms(2,3) gap mark ref by (simp add: Binance_handle_def pair_def Let_def)
  show ?thesis unfolding h using r3
    by (auto simp: update_conv' ApplyDiff_def split: option.splits)
qed

definition example_depth :: string where
  "example_depth = json_object [(''stream'', json_quote ''b@depth''),
     (''data'', json_object [(''lastUpdateId'', ''9'')])]"

theorem Binance_gap_witness:
  "\<exists>fd' e'. Binance_handle \<lparr>et_base64 = id, et_json = id\<rparr> rat_decimal id ''https://b'' example_depth
      (\<lparr>bd_recons = [(''b'', (NewBookReconstructor ''binance'' ''b'')\<lparr>br_lastSeq := 3\<rparr>)], bd_out = []\<rparr>, fixed_env)
      = (fd', e')
    \<and> bd_out fd' = [] \<and> env_sent e' = [depth_request ''https://b'' ''b'']
    \<and> env_metrics e' = [Inc WSGapCount [''binance'']]"
proof -
  let ?T = "\<lparr>et_base64 = id, et_json = id\<rparr>"
  let ?r = "(NewBookReconstructor ''binance'' ''b'')\<lparr>br_lastSeq := 3\<rparr>"
  let ?fd = "\<lparr>bd_recons = [(''b'', ?r)], bd_out = []\<rparr> :: rat Binance_feed"
  let ?ev = "\<lparr>de_Stream = ''b@depth'', de_Data = \<lparr>dd_LastUpdateID = 9, dd_Bids = [], dd_Asks = []\<rparr>\<rparr>"
  have msg: "json_Unmarshal dec_depthEvent example_depth \<lparr>de_Stream = [], de_Data = zero_depthData\<rparr> = (?ev, False)"
    by code_simp
  have pair: "streamToPair ''b@depth'' = ''b''" "ToLower ''b'' = ''b''" by code_simp+
  have r: "map_of (bd_recons ?fd) (ToLower (streamToPair (de_Stream ?ev))) = Some ?r" by (simp add: pair)
  have none: "snapshot_of ?T (env_http fixed_env n rq) = None" for n rq
    by (simp add: fixed_env_def snapshot_of_def read_response_def)
  show ?thesis
    using Binance_gap [OF msg r, of fixed_env "''https://b''" ?T rat_decimal id] none
    by (auto simp: pair NewBookReconstructor_def fixed_env_def wrap64_def)
qed

end
