(* ===== verification/Kraken.thy ===== *)
theory Kraken
  imports Adapter WsClient
begin

text \<open>
  The Kraken adapter of \<open>internal/adapters/kraken\<close>: private POST calls behind the decaying counter,
  signed with HMAC-SHA-512 over the path and a hash of the nonce and the form, the mapping of
  the venue's answers, and the book subscription. The nonce is a \<open>uint64\<close> and wraps. The order in
  which Go ranges over the map of trades is the argument \<open>ord\<close>.
\<close>

record Kraken_Connector =
  kr_cfg :: VenueConfig
  kr_apiKey :: string
  kr_apiSecret :: string
  kr_limiter :: CounterLimiter
  kr_nonce :: "64 word"

definition Kraken_NewConnector ::
    "(string \<Rightarrow> string) \<Rightarrow> string \<Rightarrow> string \<Rightarrow> CounterLimiter option \<Rightarrow> env \<Rightarrow> Kraken_Connector \<times> env" where
  "Kraken_NewConnector getenv apiKey apiSecret limiter e0 =
     (let rest = (if getenv ''KRAKEN_REST_URL'' = [] then ''https://api.kraken.com'' else getenv ''KRAKEN_REST_URL'');
          wsBase = (if getenv ''KRAKEN_WS_URL'' = [] then ''wss://ws.kraken.com'' else getenv ''KRAKEN_WS_URL'');
          (lim, e1) = (case limiter of Some l \<Rightarrow> (l, e0)
                       | None \<Rightarrow> (let (now, e) = time_Now e0 in (NewCounterLimiter ''kraken'' 20 now, e)));
          (now, e2) = time_Now e1
      in (\<lparr>kr_cfg = \<lparr>vc_Name = ''kraken'', vc_RESTBase = rest, vc_WSBase = wsBase\<rparr>, kr_apiKey = apiKey,
           kr_apiSecret = apiSecret, kr_limiter = lim, kr_nonce = word_of_int (time_UnixNano now) div 1000000\<rparr>, e2))"

section \<open>Signed requests\<close>

definition nextNonce :: "Kraken_Connector \<Rightarrow> string \<times> Kraken_Connector" where
  "nextNonce c = (let n = kr_nonce c + 1 in (FormatInt (uint n), c\<lparr>kr_nonce := n\<rparr>))"

definition kraken_signature :: "string \<Rightarrow> string \<Rightarrow> string \<Rightarrow> string \<Rightarrow> string" where
  "kraken_signature secret path nonce postData =
     StdEncoding_EncodeToString (hmac_sha512 (StdEncoding_bytes secret) (path @ Sum256 (nonce @ postData)))"

definition Kraken_sign :: "Kraken_Connector \<Rightarrow> string \<Rightarrow> string \<Rightarrow> string \<Rightarrow> string" where
  "Kraken_sign c = kraken_signature (kr_apiSecret c)"

record kraken_envelope =
  ke_Error :: "string list"
  ke_Result :: "json option"

definition dec_kraken_envelope :: "kraken_envelope decoder" where
  "dec_kraken_envelope = dec_struct (\<lambda>k v s.
     if field_matches ''error'' k then into_field (dec_slice dec_string []) ke_Error ke_Error_update v s
     else if field_matches ''result'' k then into_field dec_raw ke_Result ke_Result_update v s
     else (s, False))"

definition Kraken_answer :: "err_texts \<Rightarrow> int \<Rightarrow> string \<Rightarrow> string + json option" where
  "Kraken_answer T status body =
     (if status \<ge> 400 then Inl (''kraken: status '' @ status_text status @ '' body '' @ body)
      else
        (case unmarshal_or T dec_kraken_envelope body \<lparr>ke_Error = [], ke_Result = None\<rparr> of
           Inl err \<Rightarrow> Inl (''kraken: bad json: '' @ err)
         | Inr env \<Rightarrow>
             if ke_Error env \<noteq> [] then Inl (''kraken: '' @ Join (ke_Error env) ''; '') else Inr (ke_Result env)))"

definition Kraken_do ::
    "err_texts \<Rightarrow> http_request \<times> int \<Rightarrow> Kraken_Connector \<times> env \<Rightarrow> (string + json option) \<times> Kraken_Connector \<times> env" where
  "Kraken_do T = (\<lambda>(rq, cost) (c, e0).
     (case wait_counter cost (kr_limiter c, e0) of
        (Some err, l, e1) \<Rightarrow> (Inl err, c\<lparr>kr_limiter := l\<rparr>, e1)
      | (None, l, e1) \<Rightarrow>
          (let (resp, e2) = http_Do rq e1 in
           case read_response resp of
             Inl err \<Rightarrow> (Inl err, c\<lparr>kr_limiter := l\<rparr>, e2)
           | Inr (status, hdr, body) \<Rightarrow>
               if status = 429 \<or> status = 418 then
                 (let (now, e3) = time_Now e2
                  in (Inl (''kraken: rate limited (status '' @ status_text status @ '')''),
                      c\<lparr>kr_limiter := CounterLimiter_Backoff ''kraken'' (30 * Second) now l\<rparr>, e3))
               else (Kraken_answer T status body, c\<lparr>kr_limiter := l\<rparr>, e2))))"

definition private_request :: "string \<Rightarrow> string \<Rightarrow> url_Values \<Rightarrow> Kraken_Connector \<Rightarrow> http_request" where
  "private_request path nonce params c =
     (let postData = values_Encode (values_Set ''nonce'' nonce params)
      in \<lparr>rq_method = ''POST'', rq_url = vc_RESTBase (kr_cfg c) @ path,
          rq_headers = [(''API-Key'', kr_apiKey c), (''API-Sign'', Kraken_sign c path nonce postData),
                        (''Content-Type'', ''application/x-www-form-urlencoded'')],
          rq_body = postData\<rparr>)"

definition Kraken_doPrivate ::
    "err_texts \<Rightarrow> string \<Rightarrow> url_Values \<Rightarrow> int \<Rightarrow> Kraken_Connector \<times> env
      \<Rightarrow> (string + json option) \<times> Kraken_Connector \<times> env" where
  "Kraken_doPrivate T path params cost = (\<lambda>(c0, e).
     (let (nonce, c) = nextNonce c0; rq = private_request path nonce params c
      in case env_urlErr e (rq_url rq) of
           Some err \<Rightarrow> (Inl err, c, e)
         | None \<Rightarrow> Kraken_do T (rq, cost) (c, e)))"

section \<open>Orders\<close>

definition normalizePair :: "string \<Rightarrow> string" where
  "normalizePair s = s"

definition Kraken_order_params :: "'d decimal_ops \<Rightarrow> 'd OrderRequest \<Rightarrow> url_Values" where
  "Kraken_order_params D req =
     (let p0 = values_Set ''type'' (or_Side req) (values_Set ''pair'' (normalizePair (or_Symbol req)) []);
          p1 = (if or_Type req = OrderTypeMarket then values_Set ''ordertype'' ''market'' p0
                else values_Set ''price'' (d_String D (or_Price req)) (values_Set ''ordertype'' ''limit'' p0))
      in values_Set ''userref'' (or_ClientOrderID req) (values_Set ''volume'' (d_String D (or_Quantity req)) p1))"

definition dec_addOrderResp :: "string list decoder" where
  "dec_addOrderResp = dec_struct (\<lambda>k v s.
     if field_matches ''txid'' k then dec_slice dec_string [] v s else (s, False))"

definition Kraken_PlaceOrder ::
    "err_texts \<Rightarrow> 'd decimal_ops \<Rightarrow> 'd OrderRequest \<Rightarrow> Kraken_Connector \<times> env
      \<Rightarrow> (string + 'd OrderResponse) \<times> Kraken_Connector \<times> env" where
  "Kraken_PlaceOrder T D req ce =
     (if or_ClientOrderID req = [] then (Inl ''kraken: client_order_id required'', ce)
      else
        (case Kraken_doPrivate T ''/0/private/AddOrder'' (Kraken_order_params D req) 6 ce of
           (Inl err, ce') \<Rightarrow> (Inl err, ce')
         | (Inr body, ce') \<Rightarrow>
             (case unmarshal_raw_or T dec_addOrderResp body [] of
                Inl err \<Rightarrow> (Inl err, ce')
              | Inr [] \<Rightarrow> (Inl ''kraken: no txid'', ce')
              | Inr (txid # _) \<Rightarrow>
                  (Inr \<lparr>os_VenueOrderID = txid, os_ClientOrderID = or_ClientOrderID req, os_Status = OrderStatusNew,
                        os_FilledQty = d_Zero D, os_AvgPrice = d_Zero D, os_Fills = []\<rparr>, ce'))))"

record krakenOrder =
  ko_Status :: string
  ko_Vol :: string
  ko_VolExec :: string
  ko_Price :: string
  ko_UserRef :: string

definition zero_krakenOrder :: krakenOrder where
  "zero_krakenOrder = \<lparr>ko_Status = [], ko_Vol = [], ko_VolExec = [], ko_Price = [], ko_UserRef = []\<rparr>"

definition dec_krakenOrder :: "krakenOrder decoder" where
  "dec_krakenOrder = dec_struct (\<lambda>k v s.
     if field_matches ''status'' k then into_field dec_string ko_Status ko_Status_update v s
     else if field_matches ''vol'' k then into_field dec_string ko_Vol ko_Vol_update v s
     else if field_matches ''vol_exec'' k then into_field dec_string ko_VolExec ko_VolExec_update v s
     else if field_matches ''price'' k then into_field dec_string ko_Price ko_Price_update v s
     else if field_matches ''userref'' k then into_field dec_string ko_UserRef ko_UserRef_update v s
     else (s, False))"

definition Kraken_mapOrder :: "'d decimal_ops \<Rightarrow> string \<Rightarrow> krakenOrder \<Rightarrow> 'd OrderResponse" where
  "Kraken_mapOrder D i o' =
     (let exec = dec_of D (ko_VolExec o'); vol = dec_of D (ko_Vol o'); price = dec_of D (ko_Price o');
          avg = (if d_IsZero D exec then d_Zero D else price);
          s = ToLower (ko_Status o');
          status = (if s = ''closed'' then
                      (if d_Equal D exec vol then OrderStatusFilled
                       else if d_GreaterThan D exec (d_Zero D) then OrderStatusPartial else OrderStatusCanceled)
                    else if s = ''canceled'' \<or> s = ''cancelled'' then OrderStatusCanceled
                    else OrderStatusNew)
      in \<lparr>os_VenueOrderID = i, os_ClientOrderID = ko_UserRef o', os_Status = status, os_FilledQty = exec,
          os_AvgPrice = avg, os_Fills = []\<rparr>)"

definition Kraken_GetOrder ::
    "err_texts \<Rightarrow> 'd decimal_ops \<Rightarrow> string \<Rightarrow> Kraken_Connector \<times> env
      \<Rightarrow> (string + 'd OrderResponse) \<times> Kraken_Connector \<times> env" where
  "Kraken_GetOrder T D venueOrderID ce =
     (case Kraken_doPrivate T ''/0/private/QueryOrders'' (values_Set ''txid'' venueOrderID []) 2 ce of
        (Inl err, ce') \<Rightarrow> (Inl err, ce')
      | (Inr body, ce') \<Rightarrow>
          (case unmarshal_raw_or T (dec_map dec_krakenOrder zero_krakenOrder) body [] of
             Inl err \<Rightarrow> (Inl err, ce')
           | Inr m \<Rightarrow>
               (case map_of m venueOrderID of
                  None \<Rightarrow> (Inl ''kraken: order not found'', ce')
                | Some o' \<Rightarrow> (Inr (Kraken_mapOrder D venueOrderID o'), ce'))))"

definition Kraken_CancelOrder ::
    "err_texts \<Rightarrow> CancelRequest \<Rightarrow> Kraken_Connector \<times> env \<Rightarrow> string option \<times> Kraken_Connector \<times> env" where
  "Kraken_CancelOrder T req ce =
     (if cr_VenueOrderID req = [] \<and> cr_ClientOrderID req = []
      then (Some ''kraken: cancel requires venue or client order id'', ce)
      else
        (let params = (if cr_VenueOrderID req \<noteq> [] then values_Set ''txid'' (cr_VenueOrderID req) []
                       else values_Set ''userref'' (cr_ClientOrderID req) [])
         in case Kraken_doPrivate T ''/0/private/CancelOrder'' params 6 ce of
              (Inl err, ce') \<Rightarrow> (Some err, ce')
            | (Inr _, ce') \<Rightarrow> (None, ce')))"

section \<open>Fills and balances\<close>

record tradeEntry =
  te_OrderTxID :: string
  te_Pair :: string
  te_Time :: float64
  te_Type :: string
  te_Price :: string
  te_Vol :: string
  te_Fee :: string
  te_FeeAsset :: string

definition zero_tradeEntry :: tradeEntry where
  "zero_tradeEntry = \<lparr>te_OrderTxID = [], te_Pair = [], te_Time = F64 0, te_Type = [], te_Price = [], te_Vol = [],
     te_Fee = [], te_FeeAsset = []\<rparr>"

definition dec_tradeEntry :: "tradeEntry decoder" where
  "dec_tradeEntry = dec_struct (\<lambda>k v s.
     if field_matches ''ordertxid'' k then into_field dec_string te_OrderTxID te_OrderTxID_update v s
     else if field_matches ''pair'' k then into_field dec_string te_Pair te_Pair_update v s
     else if field_matches ''time'' k then into_field dec_float64 te_Time te_Time_update v s
     else if field_matches ''type'' k then into_field dec_string te_Type te_Type_update v s
     else if field_matches ''price'' k then into_field dec_string te_Price te_Price_update v s
     else if field_matches ''vol'' k then into_field dec_string te_Vol te_Vol_update v s
     else if field_matches ''fee'' k then into_field dec_string te_Fee te_Fee_update v s
     else if field_matches ''fee_currency'' k then into_field dec_string te_FeeAsset te_FeeAsset_update v s
     else (s, False))"

definition Kraken_fill_params :: "FillQuery \<Rightarrow> url_Values" where
  "Kraken_fill_params query =
     (let p0 = (if fq_VenueOrderID query \<noteq> [] then values_Set ''txid'' (fq_VenueOrderID query) [] else []);
          p1 = (if \<not> time_IsZero (fq_Start query) then values_Set ''start'' (FormatInt (time_Unix (fq_Start query))) p0 else p0)
      in if \<not> time_IsZero (fq_End query) then values_Set ''end'' (FormatInt (time_Unix (fq_End query))) p1 else p1)"

definition Kraken_trade_fill :: "'d decimal_ops \<Rightarrow> string \<times> tradeEntry \<Rightarrow> 'd Fill" where
  "Kraken_trade_fill D = (\<lambda>(i, tr).
     \<lparr>fl_VenueOrderID = te_OrderTxID tr, fl_TradeID = i, fl_Price = dec_of D (te_Price tr),
      fl_Quantity = dec_of D (te_Vol tr), fl_Fee = dec_of D (te_Fee tr), fl_FeeAsset = te_FeeAsset tr,
      fl_Timestamp = time_ofUnix (int64_of_f64 (te_Time tr))\<rparr>)"

definition Kraken_GetFills ::
    "err_texts \<Rightarrow> 'd decimal_ops \<Rightarrow> ((string \<times> tradeEntry) list \<Rightarrow> (string \<times> tradeEntry) list) \<Rightarrow> FillQuery
      \<Rightarrow> Kraken_Connector \<times> env \<Rightarrow> (string + 'd Fill list) \<times> Kraken_Connector \<times> env" where
  "Kraken_GetFills T D ord query ce =
     (case Kraken_doPrivate T ''/0/private/QueryTrades'' (Kraken_fill_params query) 2 ce of
        (Inl err, ce') \<Rightarrow> (Inl err, ce')
      | (Inr body, ce') \<Rightarrow>
          (case unmarshal_raw_or T (dec_map dec_tradeEntry zero_tradeEntry) body [] of
             Inl err \<Rightarrow> (Inl err, ce')
           | Inr r \<Rightarrow>
               (let out = map (Kraken_trade_fill D) (ord r)
                in (Inr (if fq_Limit query > 0 \<and> int (length out) > fq_Limit query
                         then take (nat (fq_Limit query)) out else out), ce'))))"

record krakenBalance =
  kb_Available :: string
  kb_Balance :: string

definition dec_krakenBalance :: "krakenBalance decoder" where
  "dec_krakenBalance = dec_struct (\<lambda>k v s.
     if field_matches ''available'' k then into_field dec_string kb_Available kb_Available_update v s
     else if field_matches ''balance'' k then into_field dec_string kb_Balance kb_Balance_update v s
     else (s, False))"

definition Kraken_balance :: "'d decimal_ops \<Rightarrow> string \<Rightarrow> krakenBalance \<Rightarrow> 'd Balance" where
  "Kraken_balance D asset b =
     (let free = dec_of D (kb_Available b); total = dec_of D (kb_Balance b); locked = d_Sub D total free
      in \<lparr>bal_Asset = asset, bal_Free = free,
          bal_Locked = (if d_LessThan D locked (d_Zero D) then d_Zero D else locked)\<rparr>)"

definition Kraken_GetBalances ::
    "err_texts \<Rightarrow> 'd decimal_ops \<Rightarrow> Kraken_Connector \<times> env \<Rightarrow> (string + 'd Balances) \<times> Kraken_Connector \<times> env" where
  "Kraken_GetBalances T D ce =
     (case Kraken_doPrivate T ''/0/private/Balance'' [] 2 ce of
        (Inl err, ce') \<Rightarrow> (Inl err, ce')
      | (Inr body, ce') \<Rightarrow>
          (case unmarshal_raw_or T (dec_map dec_krakenBalance \<lparr>kb_Available = [], kb_Balance = []\<rparr>) body [] of
             Inl err \<Rightarrow> (Inl err, ce')
           | Inr r \<Rightarrow> (Inr (map (\<lambda>(asset, b). (asset, Kraken_balance D asset b)) r), ce')))"

definition Kraken_Config :: "Kraken_Connector \<Rightarrow> VenueConfig" where
  "Kraken_Config c = kr_cfg c"

section \<open>The order book\<close>

text \<open>
  Reconstructors by pair, the pairs by channel number, and what the channel of updates holds.
  When a pair is named twice, its last position is its number.
\<close>

record 'd Kraken_feed =
  kd_recons :: "(string \<times> BookReconstructor) list"
  kd_pairs :: "(int \<times> string) list"
  kd_out :: "'d BookUpdate list"

definition pair_numbers :: "string list \<Rightarrow> (string \<times> int) list" where
  "pair_numbers pairs = fold (\<lambda>(i, p). AList.update p (int i + 1)) (enumerate 0 pairs) []"

datatype subscribe_message = Subscribe string int "string list"

definition Kraken_subs :: "string list \<Rightarrow> subscribe_message" where
  "Kraken_subs pairs = Subscribe ''book'' 100 pairs"

definition Kraken_SubscribeBook :: "string \<Rightarrow> string list \<Rightarrow> string + Client \<times> 'd Kraken_feed" where
  "Kraken_SubscribeBook wsBase pairs =
     (if pairs = [] then Inl ''kraken: no pairs''
      else Inr (SetHandler (NewClient wsBase ''kraken''),
                \<lparr>kd_recons = fold (\<lambda>p. AList.update p (NewBookReconstructor ''kraken'' p)) pairs [],
                 kd_pairs = map prod.swap (pair_numbers pairs), kd_out = []\<rparr>))"

definition levels_of :: "json option \<Rightarrow> level list" where
  "levels_of raw = fst (unmarshal_raw (dec_slice dec_pair ([], [])) raw [])"

text \<open>The sequence number of a diff is the time at which it is handled.\<close>

definition Kraken_apply ::
    "level list \<Rightarrow> level list \<Rightarrow> BookReconstructor \<times> env \<Rightarrow> BookReconstructor \<times> env" where
  "Kraken_apply bids asks = (\<lambda>(r, e).
     if bids \<noteq> [] \<and> asks \<noteq> [] then apply_snapshot bids asks (r, e)
     else if bids \<noteq> [] then
       (let (now, e1) = time_Now e in snd (apply_diff (time_UnixNano now) bids [] (r, e1)))
     else if asks \<noteq> [] then
       (let (now, e1) = time_Now e in snd (apply_diff (time_UnixNano now) [] asks (r, e1)))
     else (r, e))"

definition Kraken_emitUpdate ::
    "'d decimal_ops \<Rightarrow> (side \<Rightarrow> level list) \<Rightarrow> BookReconstructor \<Rightarrow> string
      \<Rightarrow> 'd BookUpdate list \<times> env \<Rightarrow> 'd BookUpdate list \<times> env" where
  "Kraken_emitUpdate D ord r pair = emit_update D ord ''kraken'' pair pair r"

text \<open>What a message says: the channel and the two sides; \<open>None\<close> when the handler ignores it.\<close>

definition Kraken_message :: "string \<Rightarrow> (int \<times> level list \<times> level list) option" where
  "Kraken_message msg =
     (case json_Unmarshal (dec_slice dec_raw None) msg [] of
        (arr, True) \<Rightarrow> None
      | (arr, False) \<Rightarrow>
          if length arr < 4 then None
          else (case unmarshal_raw dec_int64 (arr ! 0) 0 of
                  (_, True) \<Rightarrow> None
                | (channelID, False) \<Rightarrow> Some (channelID, levels_of (arr ! 1), levels_of (arr ! 2))))"

definition Kraken_handle ::
    "'d decimal_ops \<Rightarrow> (side \<Rightarrow> level list) \<Rightarrow> string \<Rightarrow> 'd Kraken_feed \<times> env \<Rightarrow> 'd Kraken_feed \<times> env" where
  "Kraken_handle D ord msg = (\<lambda>(fd, e0).
     (case Kraken_message msg of
        None \<Rightarrow> (fd, e0)
      | Some (channelID, bids, asks) \<Rightarrow>
          (case map_of (kd_pairs fd) channelID of
             None \<Rightarrow> (fd, e0)
           | Some pair \<Rightarrow>
               (case map_of (kd_recons fd) pair of
                  None \<Rightarrow> (fd, e0)
                | Some r \<Rightarrow>
                    (let (r1, e1) = Kraken_apply bids asks (r, e0);
                         (out, e2) = Kraken_emitUpdate D ord r1 pair (kd_out fd, e1)
                     in (fd\<lparr>kd_recons := AList.update pair r1 (kd_recons fd), kd_out := out\<rparr>, e2))))))"

text \<open>
  The goroutine: it connects, writes the subscription and runs the client, which connects
  again. \<open>None\<close> stands for the return after a failed connection.
\<close>

definition Kraken_start ::
    "bool \<Rightarrow> string list \<Rightarrow> Client \<Rightarrow> subscribe_message network \<Rightarrow> string option
      \<Rightarrow> subscribe_message Run_state option" where
  "Kraken_start dial_ok pairs client n ctxErr =
     (case connect dial_ok client n of
        (c, n1, False) \<Rightarrow> None
      | (c, n1, True) \<Rightarrow> Some (Run_start c (snd (WriteJSON (Kraken_subs pairs) c n1)) ctxErr))"

definition Kraken_connector ::
    "err_texts \<Rightarrow> 'd decimal_ops \<Rightarrow> ((string \<times> tradeEntry) list \<Rightarrow> (string \<times> tradeEntry) list)
      \<Rightarrow> (Kraken_Connector, 'd) VenueConnector" where
  "Kraken_connector T D ord =
     \<lparr>PlaceOrder = Kraken_PlaceOrder T D, CancelOrder = Kraken_CancelOrder T, GetOrder = Kraken_GetOrder T D,
      GetFills = Kraken_GetFills T D ord, GetBalances = Kraken_GetBalances T D,
      SubscribeBook = (\<lambda>pairs (c, e).
        (case (Kraken_SubscribeBook (vc_WSBase (kr_cfg c)) pairs :: string + Client \<times> 'd Kraken_feed) of
           Inl err \<Rightarrow> (Some err, c, e) | Inr _ \<Rightarrow> (None, c, e))),
      LastFill = (\<lambda>_. None)\<rparr>"

section \<open>What the calls do to the connector and the environment\<close>

definition Kraken_same :: "Kraken_Connector \<Rightarrow> Kraken_Connector \<Rightarrow> bool" where
  "Kraken_same c c' \<longleftrightarrow> c'\<lparr>kr_limiter := kr_limiter c\<rparr> = c"

lemma Kraken_same_limiter [simp]: "Kraken_same c (c\<lparr>kr_limiter := l\<rparr>)"
  by (simp add: Kraken_same_def)

lemma Kraken_sameD:
  "Kraken_same c c' \<Longrightarrow> kr_nonce c' = kr_nonce c \<and> kr_cfg c' = kr_cfg c \<and> kr_apiKey c' = kr_apiKey c
    \<and> kr_apiSecret c' = kr_apiSecret c"
  by (cases c; cases c') (simp add: Kraken_same_def)

lemma Kraken_do_frame:
  assumes "Kraken_do T (rq, k) (c, e) = (r, c', e')"
  shows "env_later e e' \<and> Kraken_same c c' \<and> (env_sent e' = env_sent e \<or> env_sent e' = env_sent e @ [rq])"
proof -
  obtain err l e1 where w: "wait_counter k (kr_limiter c, e) = (err, l, e1)" by (metis surj_pair)
  note f = wait_frame(2) [OF w]
  show ?thesis
    using assms f
    by (cases err) (auto simp: Kraken_do_def w http_Do_def env_later_def time_Now_def Let_def
        split: sum.splits prod.splits if_splits)
qed

lemma Kraken_do_silent:
  assumes "Kraken_do T (rq, k) (c, e) = (r, c', e')"
    and "cl_backoff (kr_limiter c) \<noteq> 0" "clock_before (cl_backoff (kr_limiter c)) e e'"
  shows "env_sent e' = env_sent e \<and> cl_backoff (kr_limiter c') = cl_backoff (kr_limiter c)"
proof -
  obtain err l e1 where w: "wait_counter k (kr_limiter c, e) = (err, l, e1)" by (metis surj_pair)
  have "env_later e1 e'"
    using assms(1) by (auto simp: Kraken_do_def w time_Now_def http_Do_def env_later_def Let_def
        split: sum.splits option.splits prod.splits if_splits)
  then have "clock_before (cl_backoff (kr_limiter c)) e e1"
    using assms(3) clock_before_parts wait_frame(2) [OF w] by blast
  from wait_counter_backoff [OF w assms(2) this] assms(1) show ?thesis by (auto simp: Kraken_do_def w)
qed

lemma Kraken_do_refused:
  assumes "Kraken_do T (rq, k) (c, e) = (r, c', e')" "env_sent e' \<noteq> env_sent e"
    and "env_http e (length (env_sent e)) rq = Inr resp" "rp_body resp = Inr body"
    and "rp_status resp = 429 \<or> rp_status resp = 418"
  shows "cl_backoff (kr_limiter c') = time_Add (env_clock e (env_ticks e' - 1)) (30 * Second) \<and> (\<exists>x. r = Inl x)"
proof -
  obtain err l e1 where w: "wait_counter k (kr_limiter c, e) = (err, l, e1)" by (metis surj_pair)
  note f = wait_frame(2) [OF w]
  have "err = None" using assms(1,2) f by (cases err) (auto simp: Kraken_do_def w)
  then show ?thesis using assms(1,3-5) f
    by (auto simp: Kraken_do_def w http_Do_def read_response_def env_later_def time_Now_def
        CounterLimiter_Backoff_def Let_def)
qed

text \<open>What \<open>doPrivate\<close> sends is stamped with the nonce and signed over its path and form.\<close>

definition Kraken_stamped :: "string \<times> string \<Rightarrow> int \<Rightarrow> http_request \<Rightarrow> bool" where
  "Kraken_stamped = (\<lambda>(base, secret) n rq.
     \<exists>path. rq_method rq = ''POST'' \<and> rq_url rq = base @ path
       \<and> Header_Get (rq_headers rq) ''API-Sign'' = kraken_signature secret path (FormatInt n) (rq_body rq)
       \<and> Query_Get (rq_body rq) ''nonce'' = FormatInt n)"

abbreviation Kraken_creds :: "Kraken_Connector \<Rightarrow> string \<times> string" where
  "Kraken_creds c \<equiv> (vc_RESTBase (kr_cfg c), kr_apiSecret c)"

lemma private_request_stamped:
  "distinct (map fst params) \<Longrightarrow> Kraken_stamped (Kraken_creds c) n (private_request path (FormatInt n) params c)"
proof -
  have "ToLower ''API-Key'' \<noteq> ToLower ''API-Sign''" by code_simp
  moreover assume "distinct (map fst params)"
  ultimately show ?thesis by (simp add: Kraken_stamped_def private_request_def Kraken_sign_def Let_def form_reads)
qed

lemma Kraken_doPrivate_cases:
  assumes "Kraken_doPrivate T p params k (c, e) = (r, c', e')"
  obtains "c' = c\<lparr>kr_nonce := kr_nonce c + 1\<rparr>" "e' = e"
  | rq where "Kraken_do T (rq, k) (c\<lparr>kr_nonce := kr_nonce c + 1\<rparr>, e) = (r, c', e')"
      "rq = private_request p (FormatInt (uint (kr_nonce c + 1))) params (c\<lparr>kr_nonce := kr_nonce c + 1\<rparr>)"
  using assms by (auto simp: Kraken_doPrivate_def nextNonce_def Let_def split: option.splits)

lemma Kraken_params_distinct [simp]:
  "distinct (map fst (Kraken_order_params D req))" "distinct (map fst (Kraken_fill_params q))"
  by (simp_all add: Kraken_order_params_def Kraken_fill_params_def Let_def)

text \<open>Every operation of the connector is at most one private call.\<close>

lemma Kraken_call_private:
  assumes "connector_call (Kraken_connector T D ord) q (c, e) = (err, c', e')"
  obtains "c' = c" "e' = e"
  | p params k r where "Kraken_doPrivate T p params k (c, e) = (r, c', e')" "distinct (map fst params)"
proof (cases q)
  case (OpPlace req)
  show ?thesis
  proof (cases "or_ClientOrderID req = []")
    case True
    with assms OpPlace that(1) show ?thesis by (simp add: Kraken_connector_def Kraken_PlaceOrder_def)
  next
    case False
    obtain r c1 e1 where d: "Kraken_doPrivate T ''/0/private/AddOrder'' (Kraken_order_params D req) 6 (c, e) = (r, c1, e1)"
      by (metis surj_pair)
    have "c' = c1 \<and> e' = e1"
      using assms OpPlace False
      by (auto simp: Kraken_connector_def Kraken_PlaceOrder_def d split: sum.splits prod.splits list.splits)
    with d that(2) show ?thesis by (metis Kraken_params_distinct(1))
  qed
next
  case (OpCancel req)
  let ?ps = "if cr_VenueOrderID req \<noteq> [] then values_Set ''txid'' (cr_VenueOrderID req) []
      else values_Set ''userref'' (cr_ClientOrderID req) []"
  obtain r c1 e1 where d: "Kraken_doPrivate T ''/0/private/CancelOrder'' ?ps 6 (c, e) = (r, c1, e1)" by (metis surj_pair)
  have "c' = c \<and> e' = e \<or> c' = c1 \<and> e' = e1"
    using assms OpCancel d by (auto simp: Kraken_connector_def Kraken_CancelOrder_def Let_def split: sum.splits if_splits)
  with d that(1) that(2) [of _ ?ps] show ?thesis by auto
next
  case (OpGet i)
  let ?ps = "values_Set ''txid'' i []"
  obtain r c1 e1 where d: "Kraken_doPrivate T ''/0/private/QueryOrders'' ?ps 2 (c, e) = (r, c1, e1)" by (metis surj_pair)
  have "c' = c1 \<and> e' = e1"
    using assms OpGet by (auto simp: Kraken_connector_def Kraken_GetOrder_def d split: sum.splits prod.splits option.splits)
  with d that(2) [of _ ?ps] show ?thesis by auto
next
  case (OpFills fq)
  obtain r c1 e1 where d: "Kraken_doPrivate T ''/0/private/QueryTrades'' (Kraken_fill_params fq) 2 (c, e) = (r, c1, e1)"
    by (metis surj_pair)
  have "c' = c1 \<and> e' = e1"
    using assms OpFills by (auto simp: Kraken_connector_def Kraken_GetFills_def d Let_def split: sum.splits prod.splits)
  with d that(2) show ?thesis by (metis Kraken_params_distinct(2))
next
  case OpBalances
  obtain r c1 e1 where d: "Kraken_doPrivate T ''/0/private/Balance'' [] 2 (c, e) = (r, c1, e1)" by (metis surj_pair)
  have "c' = c1 \<and> e' = e1"
    using assms OpBalances by (auto simp: Kraken_connector_def Kraken_GetBalances_def d split: sum.splits prod.splits)
  with d that(2) [of _ "[]"] show ?thesis by auto
qed

text \<open>The feed asks nothing of the venue over HTTP.\<close>

lemma Kraken_handle_sends: "Kraken_handle D ord msg (fd, e) = (fd', e') \<Longrightarrow> sends_only P e e'"
  by (auto simp: Kraken_handle_def Kraken_emitUpdate_def Kraken_apply_def apply_snapshot_def apply_diff_def
      emit_update_def time_Now_def update_metrics_def sends_only_def env_later_def Let_def
      split: option.splits prod.splits if_splits)

text \<open>The adapter with its feeds, which take no snapshots.\<close>

definition Kraken_feed_ops :: "'d decimal_ops \<Rightarrow> (side \<Rightarrow> level list) \<Rightarrow> (Kraken_Connector, 'd Kraken_feed) feed_ops" where
  "Kraken_feed_ops D ord =
     \<lparr>feed_open = (\<lambda>pairs c. case Kraken_SubscribeBook (vc_WSBase (kr_cfg c)) pairs of Inl _ \<Rightarrow> None | Inr (_, fd) \<Rightarrow> Some fd),
      feed_snapshot = (\<lambda>c p fe. fe), feed_message = (\<lambda>c. Kraken_handle D ord)\<rparr>"

definition Kraken_call ::
    "err_texts \<Rightarrow> 'd decimal_ops \<Rightarrow> ((string \<times> tradeEntry) list \<Rightarrow> (string \<times> tradeEntry) list) \<Rightarrow> (side \<Rightarrow> level list)
      \<Rightarrow> 'd adapter_op \<Rightarrow> (Kraken_Connector \<times> 'd Kraken_feed list) \<times> env
      \<Rightarrow> string option \<times> (Kraken_Connector \<times> 'd Kraken_feed list) \<times> env" where
  "Kraken_call T D ordt ord = adapter_call (Kraken_connector T D ordt) (Kraken_feed_ops D ord)"

interpretation kr: polite_adapter "Kraken_connector T D ordt" "Kraken_feed_ops D ord" "\<lambda>_. True" "\<lambda>_ _. True"
  "\<lambda>c. cl_backoff (kr_limiter c)" "\<lambda>s. s = 429 \<or> s = 418" "30 * Second"
proof unfold_locales
  fix c e p msg fd fd' e' pairs err c'
  show "SubscribeBook (Kraken_connector T D ordt) pairs (c, e) = (err, c', e') \<Longrightarrow> c' = c \<and> e' = e"
    by (auto simp: Kraken_connector_def split: sum.splits)
  show "feed_snapshot (Kraken_feed_ops D ord) c p (fd, e) = (fd', e') \<Longrightarrow> sends_only (\<lambda>rq. \<not> True \<and> True) e e'"
    by (simp add: Kraken_feed_ops_def)
  show "feed_message (Kraken_feed_ops D ord) c msg (fd, e) = (fd', e') \<Longrightarrow> sends_only (\<lambda>rq. \<not> True \<and> True) e e'"
    by (simp add: Kraken_feed_ops_def Kraken_handle_sends)
next
  fix q c e r c' e'
  assume call: "connector_call (Kraken_connector T D ordt) q (c, e) = (r, c', e')"
  show "env_later e e'"
    using call by (rule Kraken_call_private) (auto elim!: Kraken_doPrivate_cases dest!: Kraken_do_frame)
  show "filter (\<lambda>_. True) (env_sent e') = filter (\<lambda>_. True) (env_sent e) \<and> cl_backoff (kr_limiter c') = cl_backoff (kr_limiter c)"
    if "cl_backoff (kr_limiter c) \<noteq> 0" "clock_before (cl_backoff (kr_limiter c)) e e'"
    using call by (rule Kraken_call_private)
      (use that in \<open>auto elim!: Kraken_doPrivate_cases dest!: Kraken_do_silent\<close>)
  show "cl_backoff (kr_limiter c') = time_Add (env_clock e (env_ticks e' - 1)) (30 * Second)"
    if a: "env_sent e' = env_sent e @ rqs @ [rq]" "env_http e (length (env_sent e @ rqs)) rq = Inr resp"
      "rp_body resp = Inr body" "rp_status resp = 429 \<or> rp_status resp = 418" for rqs rq resp body
    using call
  proof (rule Kraken_call_private)
    fix p params k r1
    assume "Kraken_doPrivate T p params k (c, e) = (r1, c', e')"
    then show ?thesis
    proof (rule Kraken_doPrivate_cases)
      fix rq'
      assume do: "Kraken_do T (rq', k) (c\<lparr>kr_nonce := kr_nonce c + 1\<rparr>, e) = (r1, c', e')"
      with a(1) have "rqs = []" "rq' = rq" using Kraken_do_frame by fastforce+
      then show ?thesis using Kraken_do_refused [OF do] a by auto
    qed (use a(1) in simp)
  qed (use a(1) in simp)
qed

lemma uint_next: "uint n + 1 < 2 ^ 64 \<Longrightarrow> uint (n + 1 :: 64 word) = uint n + 1"
  by (simp add: uint_word_ariths)

interpretation kr_signed: nonce_client "connector_call (Kraken_connector T D ord)" "\<lambda>c. uint (kr_nonce c)" "2 ^ 64"
  Kraken_creds "\<lambda>_. True" Kraken_stamped "\<lambda>_ _. False"
proof unfold_locales
  fix q c e r c' e'
  assume call: "connector_call (Kraken_connector T D ord) q (c, e) = (r, c', e')"
    and n: "uint (kr_nonce c) + 1 < 2 ^ 64"
  let ?c = "c\<lparr>kr_nonce := kr_nonce c + 1\<rparr>"
  let ?res = "Kraken_creds c' = Kraken_creds c
      \<and> (\<exists>rqs. env_sent e' = env_sent e @ rqs \<and> list_all (\<lambda>rq. True \<or> False) rqs
          \<and> (filter (\<lambda>_. True) rqs = [] \<and> uint (kr_nonce c) \<le> uint (kr_nonce c') \<and> uint (kr_nonce c') \<le> uint (kr_nonce c) + 1
             \<or> (\<exists>rq. filter (\<lambda>_. True) rqs = [rq] \<and> uint (kr_nonce c') = uint (kr_nonce c) + 1
                  \<and> Kraken_stamped (Kraken_creds c) (uint (kr_nonce c')) rq)))"
  show ?res
    using call
  proof (rule Kraken_call_private)
    fix p params k r1
    assume d: "Kraken_doPrivate T p params k (c, e) = (r1, c', e')" and ps: "distinct (map fst params)"
    show ?thesis
      using d
    proof (rule Kraken_doPrivate_cases)
      fix rq
      assume do: "Kraken_do T (rq, k) (?c, e) = (r1, c', e')"
        and rq: "rq = private_request p (FormatInt (uint (kr_nonce c + 1))) params ?c"
      have "kr_nonce c' = kr_nonce c + 1" "Kraken_creds c' = Kraken_creds c"
        using Kraken_do_frame [OF do] Kraken_sameD [of ?c c'] by simp_all
      moreover have "Kraken_stamped (Kraken_creds c) (uint (kr_nonce c + 1)) rq"
        using private_request_stamped [OF ps, of ?c "uint (kr_nonce c + 1)" p] by (simp add: rq)
      ultimately show ?thesis using Kraken_do_frame [OF do] uint_next [OF n] by auto
    qed (use uint_next [OF n] in simp)
  qed simp
qed

interpretation kr_id: client_id_required "Kraken_PlaceOrder T D" "''kraken''"
  by unfold_locales (simp add: Kraken_PlaceOrder_def)

section \<open>The book freezes\<close>

text \<open>The two-sided messages of a pair, which the handler applies as snapshots.\<close>

definition pair_message :: "(int \<times> string) list \<Rightarrow> string \<Rightarrow> string \<Rightarrow> (level list \<times> level list) option" where
  "pair_message pairs pair msg =
     (case Kraken_message msg of
        None \<Rightarrow> None
      | Some (channel, bids, asks) \<Rightarrow> if map_of pairs channel = Some pair then Some (bids, asks) else None)"

fun pair_snapshots :: "(int \<times> string) list \<Rightarrow> string \<Rightarrow> string list \<Rightarrow> (level list \<times> level list) list" where
  "pair_snapshots pairs pair [] = []"
| "pair_snapshots pairs pair (msg # msgs) =
     (case pair_message pairs pair msg of
        Some (bids, asks) \<Rightarrow>
          if bids \<noteq> [] \<and> asks \<noteq> [] then (bids, asks) # pair_snapshots pairs pair msgs else pair_snapshots pairs pair msgs
      | None \<Rightarrow> pair_snapshots pairs pair msgs)"

text \<open>The sides of a book after snapshots: those of the last one.\<close>

definition after_snapshots :: "(level list \<times> level list) list \<Rightarrow> side \<times> side \<Rightarrow> side \<times> side" where
  "after_snapshots sn sides =
     (if sn = [] then sides else (snapshot_side (fst (last sn)) [], snapshot_side (snd (last sn)) []))"

text \<open>No reading of the clock between \<open>e\<close> and \<open>e'\<close> is the nanosecond \<open>n\<close>.\<close>

definition clock_avoids :: "int \<Rightarrow> env \<Rightarrow> env \<Rightarrow> bool" where
  "clock_avoids n e e' \<longleftrightarrow> list_all (\<lambda>k. time_UnixNano (env_clock e k) \<noteq> n) [env_ticks e..<env_ticks e']"

lemma clock_avoids_parts:
  assumes "env_later e e1" "env_later e1 e2" "clock_avoids n e e2"
  shows "clock_avoids n e e1" "clock_avoids n e1 e2"
proof -
  have "[env_ticks e..<env_ticks e2] = [env_ticks e..<env_ticks e1] @ [env_ticks e1..<env_ticks e2]"
    using assms by (metis env_later_def upt_add_eq_append le_add_diff_inverse)
  with assms show "clock_avoids n e e1" "clock_avoids n e1 e2" by (simp_all add: clock_avoids_def env_later_def)
qed

lemma Kraken_handle_later: "Kraken_handle D ord msg (fd, e) = (fd', e') \<Longrightarrow> env_later e e'"
  using Kraken_handle_sends [of D ord msg fd e fd' e' "\<lambda>_. True"] by (simp add: sends_only_def)

lemma Kraken_apply_later: "Kraken_apply bids asks (r, e) = (r', e') \<Longrightarrow> env_later e e'"
  by (auto simp: Kraken_apply_def apply_snapshot_def apply_diff_def time_Now_def env_later_def Let_def
      split: prod.splits if_splits)

lemma ApplyDiff_dropped:
  assumes "s = br_lastSeq r" "s \<noteq> 0" "in64 s" "seq \<noteq> s + 1"
  shows "\<exists>gap. ApplyDiff seq bids asks now r = (r, False, gap)"
proof -
  have "wrap64 (s + 1) \<le> s + 1" using assms(3) zmod_le_nonneg_dividend [of "s + 1 + 2 ^ 63" "2 ^ 64"]
    by (simp add: wrap64_def in64_def)
  with assms show ?thesis by (auto simp: ApplyDiff_def)
qed

lemma Kraken_apply_dropped:
  assumes "Kraken_apply bids asks (r, e) = (r', e')" "bids = [] \<or> asks = []"
    and "br_lastSeq r \<noteq> 0" "in64 (br_lastSeq r)" "clock_avoids (br_lastSeq r + 1) e e'"
  shows "r' = r"
proof (cases "bids = [] \<and> asks = []")
  case True
  with assms(1) show ?thesis by (simp add: Kraken_apply_def)
next
  case False
  have "env_ticks e < env_ticks e'" "env_clock e' = env_clock e"
    using assms(1,2) False by (auto simp: Kraken_apply_def apply_diff_def time_Now_def split: prod.splits if_splits)
  then have "time_UnixNano (env_clock e (env_ticks e)) \<noteq> br_lastSeq r + 1"
    using assms(5) by (auto simp: clock_avoids_def list_all_iff)
  note drop = ApplyDiff_dropped [OF refl assms(3,4) this]
  show ?thesis
    using assms(1,2) False drop
    by (auto simp: Kraken_apply_def apply_diff_def time_Now_def split: if_splits prod.splits) (metis Pair_inject)+
qed

lemma Kraken_apply_frozen:
  assumes "Kraken_apply bids asks (r, e) = (r', e')"
    and "br_lastSeq r \<noteq> 0" "in64 (br_lastSeq r)" "clock_avoids (br_lastSeq r + 1) e e'"
  shows "br_lastSeq r' = br_lastSeq r \<and> (br_bids r', br_asks r') =
    (if bids \<noteq> [] \<and> asks \<noteq> [] then (snapshot_side bids [], snapshot_side asks []) else (br_bids r, br_asks r))"
proof (cases "bids \<noteq> [] \<and> asks \<noteq> []")
  case True
  with assms(1) show ?thesis by (auto simp: Kraken_apply_def apply_snapshot_def ApplySnapshot_def time_Now_def)
next
  case False
  with Kraken_apply_dropped [OF assms(1) _ assms(2-4)] show ?thesis by auto
qed

text \<open>What a message does to the reconstructor of a pair.\<close>

lemma Kraken_handle_pair:
  assumes "Kraken_handle D ord msg (fd, e) = (fd', e')" "map_of (kd_recons fd) pair = Some r"
  obtains (other) "pair_message (kd_pairs fd) pair msg = None" "map_of (kd_recons fd') pair = Some r" "kd_pairs fd' = kd_pairs fd"
  | (own) bids asks r1 e1 where "pair_message (kd_pairs fd) pair msg = Some (bids, asks)"
      "Kraken_apply bids asks (r, e) = (r1, e1)" "env_later e1 e'" "map_of (kd_recons fd') pair = Some r1"
      "kd_pairs fd' = kd_pairs fd"
proof (cases "pair_message (kd_pairs fd) pair msg")
  case None
  have "map_of (kd_recons fd') pair = Some r \<and> kd_pairs fd' = kd_pairs fd"
    using assms None
    by (auto simp: Kraken_handle_def pair_message_def update_conv' Let_def split: option.splits prod.splits if_splits)
  with other None show ?thesis by blast
next
  case (Some t)
  then obtain channel bids asks where m: "Kraken_message msg = Some (channel, bids, asks)"
      "map_of (kd_pairs fd) channel = Some pair" "t = (bids, asks)"
    by (auto simp: pair_message_def split: option.splits prod.splits if_splits)
  obtain r1 e1 where ap: "Kraken_apply bids asks (r, e) = (r1, e1)" by (metis surj_pair)
  obtain out e2 where em: "Kraken_emitUpdate D ord r1 pair (kd_out fd, e1) = (out, e2)" by (metis surj_pair)
  have "fd' = fd\<lparr>kd_recons := AList.update pair r1 (kd_recons fd), kd_out := out\<rparr>" "e' = e2"
    using assms by (simp_all add: Kraken_handle_def m ap em)
  moreover have "env_later e1 e2"
    using emit_update_sends [OF em [unfolded Kraken_emitUpdate_def], of "\<lambda>_. True"] by (simp add: sends_only_def)
  ultimately show ?thesis using own [OF _ ap] Some m(3) by (simp add: update_conv')
qed

lemma Kraken_handle_frozen:
  assumes "Kraken_handle D ord msg (fd, e) = (fd', e')" "map_of (kd_recons fd) pair = Some r"
    and "br_lastSeq r \<noteq> 0" "in64 (br_lastSeq r)" "clock_avoids (br_lastSeq r + 1) e e'"
  shows "\<exists>r'. map_of (kd_recons fd') pair = Some r' \<and> kd_pairs fd' = kd_pairs fd \<and> br_lastSeq r' = br_lastSeq r
    \<and> (br_bids r', br_asks r') = after_snapshots (pair_snapshots (kd_pairs fd) pair [msg]) (br_bids r, br_asks r)"
  using assms(1,2)
proof (cases rule: Kraken_handle_pair)
  case other
  then show ?thesis by (simp add: after_snapshots_def)
next
  case (own bids asks r1 e1)
  have "clock_avoids (br_lastSeq r + 1) e e1"
    using clock_avoids_parts(1) [OF Kraken_apply_later [OF own(2)] own(3) assms(5)] .
  from Kraken_apply_frozen [OF own(2) assms(3,4) this] own show ?thesis
    by (auto simp: after_snapshots_def)
qed

fun Kraken_handles ::
    "'d decimal_ops \<Rightarrow> (side \<Rightarrow> level list) \<Rightarrow> string list \<Rightarrow> 'd Kraken_feed \<times> env \<Rightarrow> 'd Kraken_feed \<times> env" where
  "Kraken_handles D ord [] fe = fe"
| "Kraken_handles D ord (m # ms) fe = Kraken_handles D ord ms (Kraken_handle D ord m fe)"

lemma Kraken_handles_later: "Kraken_handles D ord ms (fd, e) = (fd', e') \<Longrightarrow> env_later e e'"
proof (induction ms arbitrary: fd e)
  case (Cons m ms)
  obtain fd1 e1 where h: "Kraken_handle D ord m (fd, e) = (fd1, e1)" by (metis surj_pair)
  with Cons show ?case using Kraken_handle_later [OF h] by (auto intro: env_later_trans)
qed simp

lemma after_snapshots_append: "after_snapshots (xs @ ys) sides = after_snapshots ys (after_snapshots xs sides)"
  by (simp add: after_snapshots_def)

lemma pair_snapshots_Cons: "pair_snapshots pairs pair (m # ms) = pair_snapshots pairs pair [m] @ pair_snapshots pairs pair ms"
  by (simp split: option.split)

lemma Kraken_handles_frozen:
  assumes "Kraken_handles D ord msgs (fd, e) = (fd', e')" "map_of (kd_recons fd) pair = Some r"
    and "br_lastSeq r \<noteq> 0" "in64 (br_lastSeq r)" "clock_avoids (br_lastSeq r + 1) e e'"
  shows "\<exists>r'. map_of (kd_recons fd') pair = Some r' \<and> br_lastSeq r' = br_lastSeq r
    \<and> (br_bids r', br_asks r') = after_snapshots (pair_snapshots (kd_pairs fd) pair msgs) (br_bids r, br_asks r)"
  using assms
proof (induction msgs arbitrary: fd e r)
  case Nil
  then show ?case by (simp add: after_snapshots_def)
next
  case (Cons m ms)
  obtain fd1 e1 where h: "Kraken_handle D ord m (fd, e) = (fd1, e1)" by (metis surj_pair)
  have run: "Kraken_handles D ord ms (fd1, e1) = (fd', e')" using Cons.prems(1) h by simp
  note parts = clock_avoids_parts [OF Kraken_handle_later [OF h] Kraken_handles_later [OF run] Cons.prems(5)]
  obtain r1 where r1: "map_of (kd_recons fd1) pair = Some r1" "kd_pairs fd1 = kd_pairs fd" "br_lastSeq r1 = br_lastSeq r"
      "(br_bids r1, br_asks r1) = after_snapshots (pair_snapshots (kd_pairs fd) pair [m]) (br_bids r, br_asks r)"
    using Kraken_handle_frozen [OF h Cons.prems(2-4) parts(1)] by blast
  have "br_lastSeq r1 \<noteq> 0" "in64 (br_lastSeq r1)" "clock_avoids (br_lastSeq r1 + 1) e1 e'"
    using Cons.prems(3,4) parts(2) r1(3) by simp_all
  from Cons.IH [OF run r1(1) this] r1(2-4) show ?case
    by (simp only: pair_snapshots_Cons [of "kd_pairs fd" pair m ms] after_snapshots_append)
qed

section \<open>Properties\<close>

text \<open>
  C15. Every request the Kraken connector ever sends is a POST whose API-Sign header is the
  signature of its path and form under the connector's secret, and the nonces in the forms
  strictly increase, over any sequence of operations, as long as the 64-bit nonce does not wrap.
\<close>

theorem Kraken_requests_signed:
  assumes "venue_calls (connector_call (Kraken_connector T D ord)) ops (c, e) = ((c', e'), rs)"
    and "uint (kr_nonce c) + int (length ops) < 2 ^ 64"
  shows "\<exists>ns rqs. env_sent e' = env_sent e @ rqs
    \<and> list_all2 (Kraken_stamped (vc_RESTBase (kr_cfg c), kr_apiSecret c)) ns rqs
    \<and> sorted_wrt (<) ns \<and> list_all (\<lambda>n. uint (kr_nonce c) < n \<and> n \<le> uint (kr_nonce c) + int (length ops)) ns"
  using kr_signed.signed_run [OF assms(1) _ assms(2)] by simp blast

definition example_kraken :: Kraken_Connector where
  "example_kraken =
     \<lparr>kr_cfg = \<lparr>vc_Name = ''kraken'', vc_RESTBase = ''https://k'', vc_WSBase = ''wss://k''\<rparr>,
      kr_apiKey = ''k'', kr_apiSecret = ''czE='', kr_limiter = NewCounterLimiter ''kraken'' 20 5, kr_nonce = 7\<rparr>"

lemma example_kraken_sends:
  assumes "Kraken_doPrivate T p params 2 (example_kraken, fixed_env) = (r, c', e')"
  shows "length (env_sent e') = 1"
proof -
  let ?l = "NewCounterLimiter ''kraken'' 20 5" and ?c = "example_kraken\<lparr>kr_nonce := 8\<rparr>"
  obtain ms where "wait_counter 2 (?l, fixed_env) = (None, ?l\<lparr>cl_current := 2\<rparr>, update_metrics ms (fixed_env\<lparr>env_ticks := 1\<rparr>))"
    using wait_open(2) [of ?l fixed_env 2] by (auto simp: NewCounterLimiter_def fixed_env_def wrap64_def)
  then show ?thesis
    using assms by (auto simp: Kraken_doPrivate_def nextNonce_def Kraken_do_def example_kraken_def fixed_env_def
        http_Do_def read_response_def update_metrics_def Let_def)
qed

theorem Kraken_requests_signed_witness:
  "\<exists>c' e' rs ns rqs. venue_calls (connector_call (Kraken_connector \<lparr>et_base64 = id, et_json = id\<rparr> rat_decimal id))
       [OpBalances] (example_kraken, fixed_env) = ((c', e'), rs)
    \<and> env_sent e' = rqs \<and> length rqs = 1
    \<and> list_all2 (Kraken_stamped (''https://k'', ''czE='')) ns rqs \<and> sorted_wrt (<) ns"
proof -
  let ?T = "\<lparr>et_base64 = id, et_json = id\<rparr>"
  let ?call = "connector_call (Kraken_connector ?T rat_decimal id)"
  obtain c' e' rs where v: "venue_calls ?call [OpBalances] (example_kraken, fixed_env) = ((c', e'), rs)"
    by (metis surj_pair)
  obtain r c1 e1 where d: "Kraken_doPrivate ?T ''/0/private/Balance'' [] 2 (example_kraken, fixed_env) = (r, c1, e1)"
    by (metis surj_pair)
  have "e' = e1"
    using v by (auto simp: venue_calls_Cons Kraken_connector_def Kraken_GetBalances_def d split: sum.splits prod.splits)
  then have "length (env_sent e') = 1" using example_kraken_sends [OF d] by simp
  moreover obtain ns where "list_all2 (Kraken_stamped (''https://k'', ''czE='')) ns (env_sent e')" "sorted_wrt (<) ns"
    using Kraken_requests_signed [OF v] by (auto simp: example_kraken_def fixed_env_def)
  ultimately show ?thesis using v by blast
qed

text \<open>
  C32. The book of a pair freezes at its first one-sided message. The handler numbers such
  messages by the nanosecond at which it sees them and the reconstructor accepts only the next
  number. So take a book to which no diff was applied yet, a one-sided message for it, and any
  messages after that, for this pair or others, of any shape: unless the clock reads exactly one
  nanosecond after the first, the sequence number stays that of the first message for ever,
  every later one-sided message is dropped, and the sides of the book are those of the last
  two-sided message, or the ones the first message made when there is none.
\<close>

theorem Kraken_book_freezes:
  assumes "Kraken_handles D ord (msg # msgs) (fd, e) = (fd', e')"
    and "map_of (kd_recons fd) pair = Some r" "br_lastSeq r = 0"
    and "pair_message (kd_pairs fd) pair msg = Some (bids, asks)" "(bids = []) \<noteq> (asks = [])"
    and "first = time_UnixNano (env_clock e (env_ticks e))" "first \<noteq> 0" "clock_avoids (first + 1) e e'"
  shows "\<exists>r'. map_of (kd_recons fd') pair = Some r' \<and> br_lastSeq r' = first
    \<and> (br_bids r', br_asks r') =
        (case rev (pair_snapshots (kd_pairs fd) pair msgs) of
           [] \<Rightarrow> (diff_side bids (br_bids r), diff_side asks (br_asks r))
         | (bids', asks') # _ \<Rightarrow> (snapshot_side bids' [], snapshot_side asks' []))"
proof -
  obtain fd1 e1 where h: "Kraken_handle D ord msg (fd, e) = (fd1, e1)" by (metis surj_pair)
  have run: "Kraken_handles D ord msgs (fd1, e1) = (fd', e')" using assms(1) h by simp
  note parts = clock_avoids_parts [OF Kraken_handle_later [OF h] Kraken_handles_later [OF run] assms(8)]
  obtain r1 where r1: "map_of (kd_recons fd1) pair = Some r1" "kd_pairs fd1 = kd_pairs fd" "br_lastSeq r1 = first"
      "br_bids r1 = diff_side bids (br_bids r)" "br_asks r1 = diff_side asks (br_asks r)"
    using h assms(2)
  proof (cases rule: Kraken_handle_pair)
    case (own bids' asks' r1 e2)
    then have "bids' = bids" "asks' = asks" using assms(4) by auto
    with own(2) assms(3,5,6) have "br_lastSeq r1 = first" "br_bids r1 = diff_side bids (br_bids r)" "br_asks r1 = diff_side asks (br_asks r)"
      by (auto simp: Kraken_apply_def apply_diff_def ApplyDiff_def time_Now_def)
    with own that show ?thesis by blast
  qed (use assms(4) in simp)
  have "br_lastSeq r1 \<noteq> 0" "in64 (br_lastSeq r1)" "clock_avoids (br_lastSeq r1 + 1) e1 e'"
    using assms(6,7) parts(2) by (simp_all add: r1(3) time_UnixNano_def)
  from Kraken_handles_frozen [OF run r1(1) this] r1(2-5) show ?thesis
    by (auto simp: after_snapshots_def split: list.split)
qed

definition example_kraken_diff :: string where
  "example_kraken_diff = ''[1,[['' @ json_quote ''10'' @ '','' @ json_quote ''2'' @ '']],[],0]''"

definition example_kraken_snapshot :: string where
  "example_kraken_snapshot = ''[1,[['' @ json_quote ''7'' @ '','' @ json_quote ''1'' @ '']],[[''
     @ json_quote ''9'' @ '','' @ json_quote ''1'' @ '']],0]''"

text \<open>The witness: a diff, a snapshot, and a diff that is dropped.\<close>

theorem Kraken_book_freezes_witness:
  "\<exists>fd' e' r'. Kraken_handles rat_decimal id [example_kraken_diff, example_kraken_snapshot, example_kraken_diff]
       (\<lparr>kd_recons = [(''p'', NewBookReconstructor ''kraken'' ''p'')], kd_pairs = [(1, ''p'')], kd_out = []\<rparr>, fixed_env) = (fd', e')
    \<and> map_of (kd_recons fd') ''p'' = Some r' \<and> br_bids r' = [(''7'', ''1'')] \<and> br_asks r' = [(''9'', ''1'')]"
proof -
  let ?r = "NewBookReconstructor ''kraken'' ''p''"
  let ?fd = "\<lparr>kd_recons = [(''p'', ?r)], kd_pairs = [(1, ''p'')], kd_out = []\<rparr> :: rat Kraken_feed"
  let ?n = "time_UnixNano (env_clock fixed_env (env_ticks fixed_env))"
  have "Kraken_message example_kraken_diff = Some (1, [(''10'', ''2'')], [])"
    "Kraken_message example_kraken_snapshot = Some (1, [(''7'', ''1'')], [(''9'', ''1'')])" by code_simp+
  then have m: "pair_message [(1, ''p'')] ''p'' example_kraken_diff = Some ([(''10'', ''2'')], [])"
    "pair_message [(1, ''p'')] ''p'' example_kraken_snapshot = Some ([(''7'', ''1'')], [(''9'', ''1'')])"
    by (simp_all add: pair_message_def)
  obtain fd' e' where h: "Kraken_handles rat_decimal id [example_kraken_diff, example_kraken_snapshot, example_kraken_diff]
      (?fd, fixed_env) = (fd', e')" by (metis surj_pair)
  have n: "?n \<noteq> 0" by code_simp
  have "clock_avoids (?n + 1) fixed_env e'" by (simp add: clock_avoids_def fixed_env_def list_all_iff)
  from Kraken_book_freezes [OF h, of "''p''" ?r "[(''10'', ''2'')]" "[]" ?n] m n this h show ?thesis
    by (simp add: NewBookReconstructor_def) blast
qed

text \<open>
  C33. The subscription is written to a connection that is never read. The goroutine dials once
  and writes the subscription there; \<open>Run\<close> then dials anew. In every state it can reach, that
  subscription is the only message ever written and no message given to the handler came from
  the connection it was written to.
\<close>

theorem Kraken_subscription_not_read:
  assumes "Kraken_SubscribeBook wsBase pairs = Inr (client, fd)"
    and "Kraken_start True pairs client n ctxErr = Some s0" "run_reach s0 s"
  shows "nw_sent (rs_net s) = nw_sent n @ [(nw_dials n, Kraken_subs pairs)]
    \<and> list_all (\<lambda>(k, msg). k \<noteq> nw_dials n) (rs_delivered s)"
proof -
  have "own_dials (Suc (nw_dials n)) (nw_sent n @ [(nw_dials n, Kraken_subs pairs)]) s0"
    using assms(2) by (auto simp: Kraken_start_def connect_def WriteJSON_def Run_start_def own_dials_def)
  with run_reach_invariant [OF assms(3)] run_step_own_dials
  have "own_dials (Suc (nw_dials n)) (nw_sent n @ [(nw_dials n, Kraken_subs pairs)]) s" by metis
  then show ?thesis by (fastforce simp: own_dials_def list_all_iff)
qed

theorem Kraken_subscription_not_read_witness:
  "\<exists>s0 client. Kraken_SubscribeBook ''wss://k'' [''p''] =
       (Inr (client, \<lparr>kd_recons = [(''p'', NewBookReconstructor ''kraken'' ''p'')], kd_pairs = [(1, ''p'')], kd_out = []\<rparr>)
         :: string + Client \<times> rat Kraken_feed)
    \<and> Kraken_start True [''p''] client \<lparr>nw_dials = 0, nw_sent = [], nw_shut = []\<rparr> None = Some s0
    \<and> nw_sent (rs_net s0) = [(0, Kraken_subs [''p''])]"
proof -
  let ?n = "\<lparr>nw_dials = 0, nw_sent = [], nw_shut = []\<rparr> :: subscribe_message network"
  let ?c = "SetHandler (NewClient ''wss://k'' ''kraken'')"
  let ?fd = "\<lparr>kd_recons = [(''p'', NewBookReconstructor ''kraken'' ''p'')], kd_pairs = [(1, ''p'')], kd_out = []\<rparr> :: rat Kraken_feed"
  have s: "Kraken_SubscribeBook ''wss://k'' [''p''] = Inr (?c, ?fd)"
    by (simp add: Kraken_SubscribeBook_def pair_numbers_def)
  obtain s0 where s0: "Kraken_start True [''p''] ?c ?n None = Some s0"
    by (simp add: Kraken_start_def connect_def)
  from Kraken_subscription_not_read [OF s s0 run_reach.reach_start] s s0 show ?thesis by auto
qed

end
