(* ===== verification/GoTimeParse.thy ===== *)
theory GoTimeParse
  imports GoTime GoJson
begin

text \<open>
  The decoding of a time from JSON: \<open>time.Parse\<close> with the layout RFC3339, as lenient as the
  library is (an hour of one digit, a comma before the fraction, offsets up to 24:60).
\<close>

definition two_digits :: "string \<Rightarrow> (int \<times> string) option" where
  "two_digits s =
     (case s of a # b # t \<Rightarrow>
        if is_digit a \<and> is_digit b then Some (10 * int (byte a - 48) + int (byte b - 48), t) else None
      | _ \<Rightarrow> None)"

text \<open>One or two digits, as many as there are.\<close>

definition some_digits :: "string \<Rightarrow> (int \<times> string) option" where
  "some_digits s =
     (case two_digits s of Some r \<Rightarrow> Some r
      | None \<Rightarrow> (case s of a # t \<Rightarrow> if is_digit a then Some (int (byte a - 48), t) else None | [] \<Rightarrow> None))"

definition skip_char :: "char \<Rightarrow> string \<Rightarrow> string option" where
  "skip_char c s = (case s of d # t \<Rightarrow> if d = c then Some t else None | [] \<Rightarrow> None)"

text \<open>The digits after a period or comma, of which nine count, as nanoseconds.\<close>

definition fraction :: "string \<Rightarrow> int \<times> string" where
  "fraction s =
     (case s of c # d # t \<Rightarrow>
        if (c = CHR ''.'' \<or> c = CHR '','') \<and> is_digit d then
          (let (ds, r) = take_digits (d # t); k = take 9 ds
           in (case digits_int k 0 of Some n \<Rightarrow> n * 10 ^ (9 - length k) | None \<Rightarrow> 0, r))
        else (0, s)
      | _ \<Rightarrow> (0, s))"

text \<open>The offset in seconds; it must end the text.\<close>

definition zone_offset :: "string \<Rightarrow> int option" where
  "zone_offset s =
     (if s = ''Z'' then Some 0
      else case s of
        g # a # b # c # d # [m] \<Rightarrow>
          (case (two_digits [a, b], two_digits [d, m]) of
             (Some (hr, _), Some (mm, _)) \<Rightarrow>
               if c \<noteq> CHR '':'' \<or> hr > 24 \<or> mm > 60 then None
               else if g = CHR ''+'' then Some ((hr * 60 + mm) * 60)
               else if g = CHR ''-'' then Some (- ((hr * 60 + mm) * 60))
               else None
           | _ \<Rightarrow> None)
      | _ \<Rightarrow> None)"

definition civil_instant :: "int \<Rightarrow> int \<Rightarrow> int \<Rightarrow> int \<Rightarrow> int \<Rightarrow> instant" where
  "civil_instant y m d secs ns =
     ((year_start y + sum_list (take (nat (m - 1)) (month_lengths y)) + d - 1) * 86400 + secs) * Second + ns"

definition parse_date :: "string \<Rightarrow> ((int \<times> int \<times> int) \<times> string) option" where
  "parse_date s = Option.bind (two_digits s) (\<lambda>(y1, s). Option.bind (two_digits s) (\<lambda>(y2, s).
     Option.bind (skip_char (CHR ''-'') s) (\<lambda>s. Option.bind (two_digits s) (\<lambda>(m, s).
     Option.bind (skip_char (CHR ''-'') s) (\<lambda>s. Option.bind (two_digits s) (\<lambda>(d, s).
     let y = 100 * y1 + y2 in
     if m < 1 \<or> 12 < m \<or> d < 1 \<or> month_lengths y ! nat (m - 1) < d then None else Some ((y, m, d), s)))))))"

definition parse_clock :: "string \<Rightarrow> (int \<times> string) option" where
  "parse_clock s = Option.bind (some_digits s) (\<lambda>(h, s). Option.bind (skip_char (CHR '':'') s) (\<lambda>s.
     Option.bind (two_digits s) (\<lambda>(mi, s). Option.bind (skip_char (CHR '':'') s) (\<lambda>s.
     Option.bind (two_digits s) (\<lambda>(sec, s).
     if 23 < h \<or> 59 < mi \<or> 59 < sec then None else Some ((h * 60 + mi) * 60 + sec, s))))))"

definition parse_RFC3339 :: "string \<Rightarrow> instant option" where
  "parse_RFC3339 s = Option.bind (parse_date s) (\<lambda>((y, m, d), s). Option.bind (skip_char (CHR ''T'') s) (\<lambda>s.
     Option.bind (parse_clock s) (\<lambda>(secs, s).
     (let (ns, s) = fraction s in map_option (\<lambda>off. civil_instant y m d (secs - off) ns) (zone_offset s)))))"

fun dec_time :: "instant decoder" where
  "dec_time (JStr raw) old = (case parse_RFC3339 raw of Some t \<Rightarrow> (t, False) | None \<Rightarrow> (old, True))"
| "dec_time JNull old = (old, False)"
| "dec_time _ old = (old, True)"

lemma parse_examples:
  "parse_RFC3339 (format_RFC3339Nano unix_epoch) = Some unix_epoch"
  "parse_RFC3339 ''2024-02-29T23:59:59.5+01:00'' = parse_RFC3339 ''2024-02-29T22:59:59.500Z''"
  "parse_RFC3339 ''2023-02-29T00:00:00Z'' = None"
  by code_simp+

end
