(* ===== verification/Otc.thy ===== *)
theory Otc
  imports Adapter GoTimeParse
begin

text \<open>
  The adapter for an OTC desk, \<open>internal/adapters/otc\<close>: orders are placed in two steps (a quote is
  requested, then accepted), behind the requests-per-second limiter; the connector remembers the
  orders and fills it made. There is no order book. Settlement files are read from a directory.
\<close>

abbreviation ErrUnsupported :: string where
  "ErrUnsupported \<equiv> ''otc: SubscribeOrderBook unsupported''"

record 'd Otc_Connector =
  oc_cfg :: VenueConfig
  oc_apiKey :: string
  oc_limiter :: RPSLimiter
  oc_orders :: "string \<rightharpoonup> 'd OrderResponse"
  oc_fills :: "'d Fill list"
  oc_sftpPath :: string

definition Otc_NewConnector ::
    "(string \<Rightarrow> string) \<Rightarrow> string \<Rightarrow> RPSLimiter option \<Rightarrow> env \<Rightarrow> 'd Otc_Connector \<times> env" where
  "Otc_NewConnector getenv apiKey limiter e0 =
     (let rest = (if getenv ''OTC_DESK_URL'' = [] then ''http://localhost:9000'' else getenv ''OTC_DESK_URL'');
          v = getenv ''RATE_LIMIT_WEIGHT_BUDGET'';
          rps = (if v = [] then 10 else case ParseInt v of None \<Rightarrow> 10 | Some n \<Rightarrow> n);
          (lim, e1) = (case limiter of Some l \<Rightarrow> (l, e0)
                       | None \<Rightarrow> (let (now, e) = time_Now e0 in (NewRPSLimiter ''otc'' rps now, e)))
      in (\<lparr>oc_cfg = \<lparr>vc_Name = ''otc'', vc_RESTBase = rest, vc_WSBase = []\<rparr>, oc_apiKey = apiKey, oc_limiter = lim,
           oc_orders = Map.empty, oc_fills = [], oc_sftpPath = getenv ''OTC_SFTP_PATH''\<rparr>, e1))"

section \<open>Requests\<close>

text \<open>The payloads are made of strings and decimals, which can always be encoded.\<close>

definition otc_request ::
    "'d decimal_ops \<Rightarrow> string \<Rightarrow> string \<Rightarrow> 'd jdoc option \<Rightarrow> 'd Otc_Connector \<Rightarrow> http_request" where
  "otc_request D method path payload c =
     \<lparr>rq_method = method, rq_url = vc_RESTBase (oc_cfg c) @ path,
      rq_headers = (if oc_apiKey c \<noteq> [] then [(''Authorization'', ''Bearer '' @ oc_apiKey c)] else [])
                   @ [(''Content-Type'', ''application/json'')],
      rq_body = (case payload of None \<Rightarrow> [] | Some d \<Rightarrow> jdoc_text D d)\<rparr>"

definition Otc_do ::
    "'d decimal_ops \<Rightarrow> string \<Rightarrow> string \<Rightarrow> 'd jdoc option \<Rightarrow> 'd Otc_Connector \<times> env
      \<Rightarrow> (string + string) \<times> 'd Otc_Connector \<times> env" where
  "Otc_do D method path payload = (\<lambda>(c, e0).
     (case wait_rps (oc_limiter c, e0) of
        (Some err, l, e1) \<Rightarrow> (Inl err, c\<lparr>oc_limiter := l\<rparr>, e1)
      | (None, l, e1) \<Rightarrow>
          (let rq = otc_request D method path payload c in
           case env_urlErr e1 (rq_url rq) of
             Some err \<Rightarrow> (Inl err, c\<lparr>oc_limiter := l\<rparr>, e1)
           | None \<Rightarrow>
               (let (resp, e2) = http_Do rq e1 in
                case read_response resp of
                  Inl err \<Rightarrow> (Inl err, c\<lparr>oc_limiter := l\<rparr>, e2)
                | Inr (status, hdr, body) \<Rightarrow>
                    if status = 429 then
                      (let (now, e3) = time_Now e2
                       in (Inl ''otc: rate limited'',
                           c\<lparr>oc_limiter := RPSLimiter_Backoff ''otc'' (5 * Second) now l\<rparr>, e3))
                    else if status \<ge> 400 then
                      (Inl (''otc: status '' @ status_text status @ '' body '' @ body), c\<lparr>oc_limiter := l\<rparr>, e2)
                    else (Inr body, c\<lparr>oc_limiter := l\<rparr>, e2)))))"

section \<open>Orders\<close>

definition doc_rfqRequest :: "'d OrderRequest \<Rightarrow> 'd jdoc" where
  "doc_rfqRequest req = DObj
     [(''client_order_id'', DStr (or_ClientOrderID req)), (''symbol'', DStr (or_Symbol req)),
      (''side'', DStr (or_Side req)), (''quantity'', DDec (or_Quantity req))]"

record 'd quoteResp =
  qr_QuoteID :: string
  qr_Price :: 'd
  qr_ExpiresAt :: instant
  qr_Status :: string

definition dec_quoteResp :: "'d decimal_ops \<Rightarrow> 'd quoteResp decoder" where
  "dec_quoteResp D = dec_struct (\<lambda>k v s.
     if field_matches ''quote_id'' k then into_field dec_string qr_QuoteID qr_QuoteID_update v s
     else if field_matches ''price'' k then into_field (dec_decimal D) qr_Price qr_Price_update v s
     else if field_matches ''expires_at'' k then into_field dec_time qr_ExpiresAt qr_ExpiresAt_update v s
     else if field_matches ''status'' k then into_field dec_string qr_Status qr_Status_update v s
     else (s, False))"

record 'd acceptResp =
  ar_OrderID :: string
  ar_Status :: string
  ar_FilledQty :: 'd
  ar_Price :: 'd
  ar_Fee :: 'd
  ar_FeeAsset :: string
  ar_TradeID :: string

definition dec_acceptResp :: "'d decimal_ops \<Rightarrow> 'd acceptResp decoder" where
  "dec_acceptResp D = dec_struct (\<lambda>k v s.
     if field_matches ''order_id'' k then into_field dec_string ar_OrderID ar_OrderID_update v s
     else if field_matches ''status'' k then into_field dec_string ar_Status ar_Status_update v s
     else if field_matches ''filled_qty'' k then into_field (dec_decimal D) ar_FilledQty ar_FilledQty_update v s
     else if field_matches ''price'' k then into_field (dec_decimal D) ar_Price ar_Price_update v s
     else if field_matches ''fee'' k then into_field (dec_decimal D) ar_Fee ar_Fee_update v s
     else if field_matches ''fee_asset'' k then into_field dec_string ar_FeeAsset ar_FeeAsset_update v s
     else if field_matches ''trade_id'' k then into_field dec_string ar_TradeID ar_TradeID_update v s
     else (s, False))"

definition zero_quoteResp :: "'d decimal_ops \<Rightarrow> 'd quoteResp" where
  "zero_quoteResp D = \<lparr>qr_QuoteID = [], qr_Price = d_Zero D, qr_ExpiresAt = 0, qr_Status = []\<rparr>"

definition zero_acceptResp :: "'d decimal_ops \<Rightarrow> 'd acceptResp" where
  "zero_acceptResp D =
     \<lparr>ar_OrderID = [], ar_Status = [], ar_FilledQty = d_Zero D, ar_Price = d_Zero D, ar_Fee = d_Zero D,
      ar_FeeAsset = [], ar_TradeID = []\<rparr>"

definition Otc_mapStatus :: "string \<Rightarrow> OrderStatus" where
  "Otc_mapStatus s =
     (let l = ToLower s in
      if l = ''new'' \<or> l = ''pending'' \<or> l = ''open'' then OrderStatusNew
      else if l = ''partial'' \<or> l = ''partially_filled'' then OrderStatusPartial
      else if l = ''filled'' \<or> l = ''settled'' \<or> l = ''completed'' then OrderStatusFilled
      else if l = ''canceled'' \<or> l = ''cancelled'' \<or> l = ''rejected'' then OrderStatusCanceled
      else s)"

definition accept_fill :: "'d acceptResp \<Rightarrow> instant \<Rightarrow> 'd Fill" where
  "accept_fill a now =
     \<lparr>fl_VenueOrderID = ar_OrderID a, fl_TradeID = ar_TradeID a, fl_Price = ar_Price a,
      fl_Quantity = ar_FilledQty a, fl_Fee = ar_Fee a, fl_FeeAsset = ar_FeeAsset a, fl_Timestamp = now\<rparr>"

definition accept_order :: "string \<Rightarrow> 'd acceptResp \<Rightarrow> 'd Fill \<Rightarrow> 'd OrderResponse" where
  "accept_order clientID a fill =
     \<lparr>os_VenueOrderID = ar_OrderID a, os_ClientOrderID = clientID, os_Status = Otc_mapStatus (ar_Status a),
      os_FilledQty = ar_FilledQty a, os_AvgPrice = ar_Price a, os_Fills = [fill]\<rparr>"

text \<open>The second step: the quote is accepted and the order remembered.\<close>

definition Otc_accept ::
    "err_texts \<Rightarrow> 'd decimal_ops \<Rightarrow> string \<Rightarrow> string \<Rightarrow> 'd Otc_Connector \<times> env
      \<Rightarrow> (string + 'd OrderResponse) \<times> 'd Otc_Connector \<times> env" where
  "Otc_accept T D quoteID clientID ce =
     (case Otc_do D ''POST'' (''/v1/quotes/'' @ quoteID @ ''/accept'') (Some (DObj [(''client_order_id'', DStr clientID)])) ce of
        (Inl err, ce') \<Rightarrow> (Inl err, ce')
      | (Inr body, c, e) \<Rightarrow>
          (case unmarshal_or T (dec_acceptResp D) body (zero_acceptResp D) of
             Inl err \<Rightarrow> (Inl err, c, e)
           | Inr a \<Rightarrow>
               (let (now, e1) = time_Now e; fill = accept_fill a now; resp = accept_order clientID a fill
                in (Inr resp, c\<lparr>oc_orders := (oc_orders c)(ar_OrderID a \<mapsto> resp), oc_fills := oc_fills c @ [fill]\<rparr>, e1))))"

definition Otc_PlaceOrder ::
    "err_texts \<Rightarrow> 'd decimal_ops \<Rightarrow> 'd OrderRequest \<Rightarrow> 'd Otc_Connector \<times> env
      \<Rightarrow> (string + 'd OrderResponse) \<times> 'd Otc_Connector \<times> env" where
  "Otc_PlaceOrder T D req ce =
     (if or_ClientOrderID req = [] then (Inl ''otc: client_order_id required'', ce)
      else
        (case Otc_do D ''POST'' ''/v1/rfq'' (Some (doc_rfqRequest req)) ce of
           (Inl err, ce') \<Rightarrow> (Inl err, ce')
         | (Inr body, ce') \<Rightarrow>
             (case unmarshal_or T (dec_quoteResp D) body (zero_quoteResp D) of
                Inl err \<Rightarrow> (Inl err, ce')
              | Inr q \<Rightarrow>
                  if ToLower (qr_Status q) = ''rejected'' \<or> ToLower (qr_Status q) = ''expired''
                  then (Inl (''otc: quote '' @ qr_Status q), ce')
                  else Otc_accept T D (qr_QuoteID q) (or_ClientOrderID req) ce')))"

record 'd orderStatusResp =
  ost_OrderID :: string
  ost_Status :: string
  ost_FilledQty :: 'd
  ost_Price :: 'd
  ost_SettlementStatus :: string

definition dec_orderStatusResp :: "'d decimal_ops \<Rightarrow> 'd orderStatusResp decoder" where
  "dec_orderStatusResp D = dec_struct (\<lambda>k v s.
     if field_matches ''order_id'' k then into_field dec_string ost_OrderID ost_OrderID_update v s
     else if field_matches ''status'' k then into_field dec_string ost_Status ost_Status_update v s
     else if field_matches ''filled_qty'' k then into_field (dec_decimal D) ost_FilledQty ost_FilledQty_update v s
     else if field_matches ''price'' k then into_field (dec_decimal D) ost_Price ost_Price_update v s
     else if field_matches ''settlement_status'' k then
       into_field dec_string ost_SettlementStatus ost_SettlementStatus_update v s
     else (s, False))"

definition Otc_order_of :: "'d orderStatusResp \<Rightarrow> 'd decimal_ops \<Rightarrow> 'd OrderResponse" where
  "Otc_order_of r D =
     (let status = Otc_mapStatus (ost_Status r);
          status' = (if ost_SettlementStatus r \<noteq> [] \<and> ToLower (ost_SettlementStatus r) = ''settled'' \<and> status = OrderStatusNew
                     then OrderStatusFilled else status)
      in \<lparr>os_VenueOrderID = ost_OrderID r, os_ClientOrderID = [], os_Status = status', os_FilledQty = ost_FilledQty r,
          os_AvgPrice = ost_Price r, os_Fills = []\<rparr>)"

definition Otc_GetOrder ::
    "err_texts \<Rightarrow> 'd decimal_ops \<Rightarrow> string \<Rightarrow> 'd Otc_Connector \<times> env
      \<Rightarrow> (string + 'd OrderResponse) \<times> 'd Otc_Connector \<times> env" where
  "Otc_GetOrder T D venueOrderID ce =
     (case Otc_do D ''GET'' (''/v1/orders/'' @ venueOrderID) None ce of
        (Inl err, ce') \<Rightarrow> (Inl err, ce')
      | (Inr body, ce') \<Rightarrow>
          (case unmarshal_or T (dec_orderStatusResp D) body \<lparr>ost_OrderID = [], ost_Status = [], ost_FilledQty = d_Zero D,
                  ost_Price = d_Zero D, ost_SettlementStatus = []\<rparr> of
             Inl err \<Rightarrow> (Inl err, ce')
           | Inr r \<Rightarrow> (Inr (Otc_order_of r D), ce')))"

definition Otc_CancelOrder ::
    "'d decimal_ops \<Rightarrow> CancelRequest \<Rightarrow> 'd Otc_Connector \<times> env \<Rightarrow> string option \<times> 'd Otc_Connector \<times> env" where
  "Otc_CancelOrder D req ce =
     (let i = (if cr_VenueOrderID req = [] then cr_ClientOrderID req else cr_VenueOrderID req)
      in if i = [] then (Some ''otc: cancel requires order id'', ce)
         else (case Otc_do D ''POST'' (''/v1/orders/'' @ i @ ''/cancel'') None ce of
                 (Inl err, ce') \<Rightarrow> (Some err, ce')
               | (Inr _, ce') \<Rightarrow> (None, ce')))"

section \<open>Fills and balances\<close>

record 'd otcFill =
  of_TradeID :: string
  of_Price :: 'd
  of_Qty :: 'd
  of_Fee :: 'd
  of_FeeAsset :: string
  of_Time :: instant

definition dec_otcFill :: "'d decimal_ops \<Rightarrow> 'd otcFill decoder" where
  "dec_otcFill D = dec_struct (\<lambda>k v s.
     if field_matches ''trade_id'' k then into_field dec_string of_TradeID of_TradeID_update v s
     else if field_matches ''price'' k then into_field (dec_decimal D) of_Price of_Price_update v s
     else if field_matches ''qty'' k then into_field (dec_decimal D) of_Qty of_Qty_update v s
     else if field_matches ''fee'' k then into_field (dec_decimal D) of_Fee of_Fee_update v s
     else if field_matches ''fee_asset'' k then into_field dec_string of_FeeAsset of_FeeAsset_update v s
     else if field_matches ''time'' k then into_field dec_time of_Time of_Time_update v s
     else (s, False))"

definition Otc_dec_fills :: "'d decimal_ops \<Rightarrow> 'd otcFill list decoder" where
  "Otc_dec_fills D = dec_struct (\<lambda>k v s.
     if field_matches ''fills'' k then
       dec_slice (dec_otcFill D) \<lparr>of_TradeID = [], of_Price = d_Zero D, of_Qty = d_Zero D, of_Fee = d_Zero D,
         of_FeeAsset = [], of_Time = 0\<rparr> v s
     else (s, False))"

definition Otc_fill :: "string \<Rightarrow> 'd otcFill \<Rightarrow> 'd Fill" where
  "Otc_fill orderID f =
     \<lparr>fl_VenueOrderID = orderID, fl_TradeID = of_TradeID f, fl_Price = of_Price f, fl_Quantity = of_Qty f,
      fl_Fee = of_Fee f, fl_FeeAsset = of_FeeAsset f, fl_Timestamp = of_Time f\<rparr>"

definition Otc_GetFills ::
    "err_texts \<Rightarrow> 'd decimal_ops \<Rightarrow> FillQuery \<Rightarrow> 'd Otc_Connector \<times> env
      \<Rightarrow> (string + 'd Fill list) \<times> 'd Otc_Connector \<times> env" where
  "Otc_GetFills T D query ce =
     (case Otc_do D ''GET'' (''/v1/orders/'' @ fq_VenueOrderID query @ ''/fills'') None ce of
        (Inl err, ce') \<Rightarrow> (Inl err, ce')
      | (Inr body, ce') \<Rightarrow>
          (case unmarshal_or T (Otc_dec_fills D) body [] of
             Inl err \<Rightarrow> (Inl err, ce')
           | Inr fs \<Rightarrow>
               (let out = map (Otc_fill (fq_VenueOrderID query)) fs
                in (Inr (if fq_Limit query > 0 \<and> int (length out) > fq_Limit query
                         then take (nat (fq_Limit query)) out else out), ce'))))"

definition dec_otcBalance :: "'d decimal_ops \<Rightarrow> 'd Balance decoder" where
  "dec_otcBalance D = dec_struct (\<lambda>k v s.
     if field_matches ''asset'' k then into_field dec_string bal_Asset bal_Asset_update v s
     else if field_matches ''free'' k then into_field (dec_decimal D) bal_Free bal_Free_update v s
     else if field_matches ''locked'' k then into_field (dec_decimal D) bal_Locked bal_Locked_update v s
     else (s, False))"

definition dec_balancesResp :: "'d decimal_ops \<Rightarrow> 'd Balance list decoder" where
  "dec_balancesResp D = dec_struct (\<lambda>k v s.
     if field_matches ''balances'' k then
       dec_slice (dec_otcBalance D) \<lparr>bal_Asset = [], bal_Free = d_Zero D, bal_Locked = d_Zero D\<rparr> v s
     else (s, False))"

definition Otc_GetBalances ::
    "err_texts \<Rightarrow> 'd decimal_ops \<Rightarrow> 'd Otc_Connector \<times> env \<Rightarrow> (string + 'd Balances) \<times> 'd Otc_Connector \<times> env" where
  "Otc_GetBalances T D ce =
     (case Otc_do D ''GET'' ''/v1/balances'' None ce of
        (Inl err, ce') \<Rightarrow> (Inl err, ce')
      | (Inr body, ce') \<Rightarrow>
          (case unmarshal_or T (dec_balancesResp D) body [] of
             Inl err \<Rightarrow> (Inl err, ce')
           | Inr bs \<Rightarrow> (Inr (fold (\<lambda>b. AList.update (bal_Asset b) b) bs []), ce')))"

definition Otc_SubscribeBook :: "string list \<Rightarrow> 'd Otc_Connector \<times> env \<Rightarrow> string option \<times> 'd Otc_Connector \<times> env" where
  "Otc_SubscribeBook pairs ce = (Some ErrUnsupported, ce)"

definition Otc_Config :: "'d Otc_Connector \<Rightarrow> VenueConfig" where
  "Otc_Config c = oc_cfg c"

section \<open>Settlement files\<close>

definition fetchSFTP :: "string \<Rightarrow> string \<Rightarrow> env \<Rightarrow> string + string" where
  "fetchSFTP basePath orderID e =
     (if basePath = [] then Inl ''otc: sftp path not configured''
      else case env_file e (filepath_Join basePath (orderID @ ''.json'')) of
             Inl err \<Rightarrow> Inl (''otc: sftp read: '' @ err)
           | Inr data \<Rightarrow> Inr data)"

definition FetchSFTPConfirmation :: "string \<Rightarrow> 'd Otc_Connector \<times> env \<Rightarrow> string + string" where
  "FetchSFTPConfirmation orderID = (\<lambda>(c, e).
     if oc_sftpPath c = [] then Inl ''otc: sftp not configured'' else fetchSFTP (oc_sftpPath c) orderID e)"

definition Otc_connector :: "err_texts \<Rightarrow> 'd decimal_ops \<Rightarrow> ('d Otc_Connector, 'd) VenueConnector" where
  "Otc_connector T D =
     \<lparr>PlaceOrder = Otc_PlaceOrder T D, CancelOrder = Otc_CancelOrder D, GetOrder = Otc_GetOrder T D,
      GetFills = Otc_GetFills T D, GetBalances = Otc_GetBalances T D, SubscribeBook = Otc_SubscribeBook,
      LastFill = (\<lambda>_. None)\<rparr>"

section \<open>What the calls do to the connector and the environment\<close>

definition Otc_same :: "'d Otc_Connector \<Rightarrow> 'd Otc_Connector \<Rightarrow> bool" where
  "Otc_same c c' \<longleftrightarrow> c'\<lparr>oc_limiter := oc_limiter c\<rparr> = c"

lemma Otc_same_limiter [simp]: "Otc_same c (c\<lparr>oc_limiter := l\<rparr>)"
  by (simp add: Otc_same_def)

lemma Otc_sameD:
  "Otc_same c c' \<Longrightarrow> oc_orders c' = oc_orders c \<and> oc_fills c' = oc_fills c \<and> oc_cfg c' = oc_cfg c
    \<and> oc_apiKey c' = oc_apiKey c \<and> otc_request D m p pl c' = otc_request D m p pl c"
  by (cases c; cases c') (simp add: Otc_same_def otc_request_def)

lemma Otc_do_frame:
  assumes "Otc_do D m p pl (c, e) = (r, c', e')"
  shows "env_later e e' \<and> Otc_same c c'
    \<and> (env_sent e' = env_sent e \<and> (\<exists>x. r = Inl x) \<or> env_sent e' = env_sent e @ [otc_request D m p pl c])"
proof -
  obtain err l e1 where w: "wait_rps (oc_limiter c, e) = (err, l, e1)" by (metis surj_pair)
  note f = wait_frame(3) [OF w]
  show ?thesis
    using assms f
    by (cases err) (auto simp: Otc_do_def w http_Do_def env_later_def time_Now_def Let_def
        split: sum.splits prod.splits if_splits option.splits)
qed

text \<open>The answer of the desk to the \<open>n\<close>-th request, when it is a success with a body.\<close>

definition desk_answer :: "env \<Rightarrow> nat \<Rightarrow> http_request \<Rightarrow> string \<Rightarrow> bool" where
  "desk_answer e n rq body \<longleftrightarrow>
     (case env_http e n rq of Inl _ \<Rightarrow> False | Inr resp \<Rightarrow> rp_status resp < 400 \<and> rp_body resp = Inr body)"

lemma Otc_do_silent:
  assumes "Otc_do D m p pl (c, e) = (r, c', e')"
    and "rps_backoff (oc_limiter c) \<noteq> 0" "clock_before (rps_backoff (oc_limiter c)) e e'"
  shows "env_sent e' = env_sent e \<and> rps_backoff (oc_limiter c') = rps_backoff (oc_limiter c) \<and> (\<exists>x. r = Inl x)"
proof -
  obtain err l e1 where w: "wait_rps (oc_limiter c, e) = (err, l, e1)" by (metis surj_pair)
  have "env_later e1 e'"
    using assms(1) by (auto simp: Otc_do_def w time_Now_def http_Do_def env_later_def Let_def
        split: sum.splits option.splits prod.splits if_splits)
  then have "clock_before (rps_backoff (oc_limiter c)) e e1"
    using assms(3) clock_before_parts wait_frame(3) [OF w] by blast
  from wait_rps_backoff [OF w assms(2) this] assms(1) show ?thesis by (auto simp: Otc_do_def w)
qed

lemma Otc_do_refused:
  assumes "Otc_do D m p pl (c, e) = (r, c', e')" "env_sent e' \<noteq> env_sent e"
    and "env_http e (length (env_sent e)) (otc_request D m p pl c) = Inr resp" "rp_body resp = Inr body"
    and "rp_status resp = 429"
  shows "rps_backoff (oc_limiter c') = time_Add (env_clock e (env_ticks e' - 1)) (5 * Second) \<and> (\<exists>x. r = Inl x)"
proof -
  obtain err l e1 where w: "wait_rps (oc_limiter c, e) = (err, l, e1)" by (metis surj_pair)
  note f = wait_frame(3) [OF w]
  have "err = None" using assms(1,2) f by (cases err) (auto simp: Otc_do_def w)
  then show ?thesis using assms f
    by (auto simp: Otc_do_def w http_Do_def read_response_def env_later_def time_Now_def
        RPSLimiter_Backoff_def Let_def split: option.splits)
qed

text \<open>What comes back is the body of the desk's answer to the request, which was not an error.\<close>

lemma Otc_do_answered:
  assumes "Otc_do D m p pl (c, e) = (Inr body, c', e')"
  shows "desk_answer e (length (env_sent e)) (otc_request D m p pl c) body"
    and "env_sent e' = env_sent e @ [otc_request D m p pl c]"
    and "env_http e' = env_http e" "env_clock e' = env_clock e" "Otc_same c c'"
proof -
  obtain err l e1 where w: "wait_rps (oc_limiter c, e) = (err, l, e1)" by (metis surj_pair)
  note f = wait_frame(3) [OF w]
  show "desk_answer e (length (env_sent e)) (otc_request D m p pl c) body"
    using assms f
    by (cases err) (auto simp: Otc_do_def w desk_answer_def http_Do_def read_response_def env_later_def Let_def
        split: sum.splits prod.splits if_splits option.splits)
qed (use Otc_do_frame [OF assms] in \<open>auto simp: env_later_def\<close>)

text \<open>Placing an order is one exchange, or two when the first one gave a quote.\<close>

definition quoted :: "err_texts \<Rightarrow> 'd decimal_ops \<Rightarrow> string \<Rightarrow> string \<Rightarrow> bool" where
  "quoted T D body i \<longleftrightarrow>
     (case unmarshal_or T (dec_quoteResp D) body (zero_quoteResp D) of
        Inl _ \<Rightarrow> False
      | Inr q \<Rightarrow> qr_QuoteID q = i \<and> ToLower (qr_Status q) \<noteq> ''rejected'' \<and> ToLower (qr_Status q) \<noteq> ''expired'')"

lemma Otc_place_cases:
  assumes "Otc_PlaceOrder T D req (c, e) = (res, c', e')"
  obtains (refused) "or_ClientOrderID req = []" "c' = c" "e' = e" "\<exists>x. res = Inl x"
  | (no_quote) r where "Otc_do D ''POST'' ''/v1/rfq'' (Some (doc_rfqRequest req)) (c, e) = (r, c', e')" "\<exists>x. res = Inl x"
  | (quote) body c1 e1 i where "Otc_do D ''POST'' ''/v1/rfq'' (Some (doc_rfqRequest req)) (c, e) = (Inr body, c1, e1)"
      "Otc_accept T D i (or_ClientOrderID req) (c1, e1) = (res, c', e')" "or_ClientOrderID req \<noteq> []"
      "quoted T D body i"
proof -
  obtain r c1 e1 where d: "Otc_do D ''POST'' ''/v1/rfq'' (Some (doc_rfqRequest req)) (c, e) = (r, c1, e1)" by (metis surj_pair)
  show ?thesis
    using assms that d
    by (auto simp: Otc_PlaceOrder_def quoted_def d split: if_splits sum.splits)
qed

lemma Otc_accept_cases:
  assumes "Otc_accept T D i clientID (c, e) = (res, c', e')"
  obtains (failed) r where "Otc_do D ''POST'' (''/v1/quotes/'' @ i @ ''/accept'')
      (Some (DObj [(''client_order_id'', DStr clientID)])) (c, e) = (r, c', e')" "\<exists>x. res = Inl x"
  | (accepted) body c1 e1 a fill where "Otc_do D ''POST'' (''/v1/quotes/'' @ i @ ''/accept'')
      (Some (DObj [(''client_order_id'', DStr clientID)])) (c, e) = (Inr body, c1, e1)"
      "fill = accept_fill a (env_clock e1 (env_ticks e1))" "res = Inr (accept_order clientID a fill)"
      "c' = c1\<lparr>oc_orders := (oc_orders c1)(ar_OrderID a \<mapsto> accept_order clientID a fill), oc_fills := oc_fills c1 @ [fill]\<rparr>"
      "e' = e1\<lparr>env_ticks := Suc (env_ticks e1)\<rparr>"
      "unmarshal_or T (dec_acceptResp D) body (zero_acceptResp D) = Inr a"
proof -
  obtain r c1 e1 where d: "Otc_do D ''POST'' (''/v1/quotes/'' @ i @ ''/accept'')
      (Some (DObj [(''client_order_id'', DStr clientID)])) (c, e) = (r, c1, e1)" by (metis surj_pair)
  show ?thesis
  proof (cases r)
    case (Inl x)
    then have "c' = c1" "e' = e1" "res = Inl x" using assms by (simp_all only: Otc_accept_def d) auto
    with d failed show ?thesis by blast
  next
    case (Inr body)
    show ?thesis
    proof (cases "unmarshal_or T (dec_acceptResp D) body (zero_acceptResp D)")
      case (Inl x)
      then have "c' = c1" "e' = e1" "res = Inl x"
        using assms Inr by (simp_all only: Otc_accept_def d sum.case prod.case) auto
      with d failed show ?thesis by blast
    next
      case a: (Inr a)
      let ?fill = "accept_fill a (env_clock e1 (env_ticks e1))"
      have "res = Inr (accept_order clientID a ?fill)" "e' = e1\<lparr>env_ticks := Suc (env_ticks e1)\<rparr>"
        "c' = c1\<lparr>oc_orders := (oc_orders c1)(ar_OrderID a \<mapsto> accept_order clientID a ?fill), oc_fills := oc_fills c1 @ [?fill]\<rparr>"
        using assms Inr a by (simp_all only: Otc_accept_def d sum.case prod.case time_Now_def Let_def) auto
      with accepted d Inr a show ?thesis by blast
    qed
  qed
qed

text \<open>Any operation: no exchange, one, or two of which the first was answered.\<close>

lemma Otc_call_cases:
  assumes "connector_call (Otc_connector T D) q (c, e) = (err, c', e')"
  obtains (none) "c' = c" "e' = e"
  | (one) m p pl r where "Otc_do D m p pl (c, e) = (r, c', e')"
  | (two) m p pl body c1 e1 m2 p2 pl2 r c2 e2 where "Otc_do D m p pl (c, e) = (Inr body, c1, e1)"
      "Otc_do D m2 p2 pl2 (c1, e1) = (r, c2, e2)" "oc_limiter c' = oc_limiter c2" "env_later e2 e'"
      "env_sent e' = env_sent e2" "\<And>x. r = Inl x \<Longrightarrow> e' = e2"
proof (cases q)
  case (OpPlace req)
  with assms obtain res where p: "Otc_PlaceOrder T D req (c, e) = (res, c', e')"
    by (auto simp: Otc_connector_def split: prod.splits)
  then show ?thesis
  proof (cases rule: Otc_place_cases)
    case (quote body c1 e1 i)
    from quote(2) show ?thesis
    proof (cases rule: Otc_accept_cases)
      case (failed r)
      with two [OF quote(1) failed(1)] show ?thesis by simp
    next
      case (accepted body2 c2 e2 a fill)
      with two [OF quote(1) accepted(1)] show ?thesis by simp
    qed
  qed (use that in auto)
next
  case (OpCancel req)
  with assms that show ?thesis
    by (auto simp: Otc_connector_def Otc_CancelOrder_def Let_def split: if_splits sum.splits prod.splits)
next
  case (OpGet i)
  with assms that show ?thesis
    by (auto simp: Otc_connector_def Otc_GetOrder_def split: sum.splits prod.splits)
next
  case (OpFills fq)
  with assms that show ?thesis
    by (auto simp: Otc_connector_def Otc_GetFills_def Let_def split: sum.splits prod.splits)
next
  case OpBalances
  with assms that show ?thesis
    by (auto simp: Otc_connector_def Otc_GetBalances_def split: sum.splits prod.splits)
qed

text \<open>The adapter refuses subscriptions, so it has no feeds.\<close>

definition Otc_feed_ops :: "('d Otc_Connector, unit) feed_ops" where
  "Otc_feed_ops = \<lparr>feed_open = (\<lambda>pairs c. None), feed_snapshot = (\<lambda>c p fe. fe), feed_message = (\<lambda>c msg fe. fe)\<rparr>"

definition Otc_call ::
    "err_texts \<Rightarrow> 'd decimal_ops \<Rightarrow> 'd adapter_op \<Rightarrow> ('d Otc_Connector \<times> unit list) \<times> env
      \<Rightarrow> string option \<times> ('d Otc_Connector \<times> unit list) \<times> env" where
  "Otc_call T D = adapter_call (Otc_connector T D) Otc_feed_ops"

interpretation oc: polite_adapter "Otc_connector T D" Otc_feed_ops "\<lambda>_. True" "\<lambda>_ _. True"
  "\<lambda>c. rps_backoff (oc_limiter c)" "\<lambda>s. s = 429" "5 * Second"
proof unfold_locales
  fix c e p msg fd fd' e' pairs err c'
  show "SubscribeBook (Otc_connector T D) pairs (c, e) = (err, c', e') \<Longrightarrow> c' = c \<and> e' = e"
    by (simp add: Otc_connector_def Otc_SubscribeBook_def)
  show "feed_snapshot Otc_feed_ops c p (fd, e) = (fd', e') \<Longrightarrow> sends_only (\<lambda>rq. \<not> True \<and> True) e e'"
    "feed_message Otc_feed_ops c msg (fd, e) = (fd', e') \<Longrightarrow> sends_only (\<lambda>rq. \<not> True \<and> True) e e'"
    for c :: "'a Otc_Connector"
    by (simp_all add: Otc_feed_ops_def)
next
  fix q c e r c' e'
  assume call: "connector_call (Otc_connector T D) q (c, e) = (r, c', e')"
  show "env_later e e'"
    using call by (cases rule: Otc_call_cases) (auto dest!: Otc_do_frame intro: env_later_trans)
  show "filter (\<lambda>_. True) (env_sent e') = filter (\<lambda>_. True) (env_sent e) \<and> rps_backoff (oc_limiter c') = rps_backoff (oc_limiter c)"
    if b: "rps_backoff (oc_limiter c) \<noteq> 0" "clock_before (rps_backoff (oc_limiter c)) e e'"
    using call
  proof (cases rule: Otc_call_cases)
    case (two m p pl body c1 e1 m2 p2 pl2 r c2 e2)
    have "env_later e e1" "env_later e1 e'"
      using two Otc_do_frame [OF two(1)] Otc_do_frame [OF two(2)] by (auto intro: env_later_trans)
    with b(2) have "clock_before (rps_backoff (oc_limiter c)) e e1" using clock_before_parts by blast
    with Otc_do_silent [OF two(1) b(1)] show ?thesis by auto
  qed (use b in \<open>auto dest: Otc_do_silent\<close>)
  show "rps_backoff (oc_limiter c') = time_Add (env_clock e (env_ticks e' - 1)) (5 * Second)"
    if a: "env_sent e' = env_sent e @ rqs @ [rq]" "env_http e (length (env_sent e @ rqs)) rq = Inr resp"
      "rp_body resp = Inr body" "rp_status resp = 429" for rqs rq resp body
    using call
  proof (cases rule: Otc_call_cases)
    case (one m p pl r)
    have "rqs = []" "rq = otc_request D m p pl c" using Otc_do_frame [OF one] a(1) by auto
    with Otc_do_refused [OF one] a show ?thesis by auto
  next
    case (two m p pl body' c1 e1 m2 p2 pl2 r c2 e2)
    note f1 = Otc_do_frame [OF two(1)] and f2 = Otc_do_frame [OF two(2)]
    have s1: "env_sent e1 = env_sent e @ [otc_request D m p pl c]" using f1 by auto
    show ?thesis
    proof (cases "env_sent e2 = env_sent e1")
      case True
      then have "rqs = []" "rq = otc_request D m p pl c" using s1 a(1) two(5) by auto
      with Otc_do_refused [OF two(1)] a s1 show ?thesis by auto
    next
      case False
      then have "env_sent e2 = env_sent e @ [otc_request D m p pl c, otc_request D m2 p2 pl2 c1]" using f2 s1 by auto
      then have "rqs = [otc_request D m p pl c]" "rq = otc_request D m2 p2 pl2 c1" using a(1) two(5) by auto
      with Otc_do_refused [OF two(2) False] a s1 f1 two(3,6) show ?thesis by (auto simp: env_later_def)
    qed
  qed (use a(1) in simp)
qed

interpretation oc_id: client_id_required "Otc_PlaceOrder T D" "''otc''"
  by unfold_locales (simp add: Otc_PlaceOrder_def)

section \<open>The remembered orders\<close>

text \<open>
  Every remembered order is kept under its own identifier, with one fill of its quantity and
  price, which is among the remembered fills; every fill belongs to a remembered order.
\<close>

definition otc_ok :: "'d Otc_Connector \<Rightarrow> bool" where
  "otc_ok c \<longleftrightarrow>
     (\<forall>i o'. oc_orders c i = Some o' \<longrightarrow> os_VenueOrderID o' = i
        \<and> (\<exists>f. os_Fills o' = [f] \<and> f \<in> set (oc_fills c) \<and> fl_VenueOrderID f = i
              \<and> fl_Quantity f = os_FilledQty o' \<and> fl_Price f = os_AvgPrice o'))
     \<and> (\<forall>f \<in> set (oc_fills c). fl_VenueOrderID f \<in> dom (oc_orders c))"

lemma otc_ok_same: "Otc_same c c' \<Longrightarrow> otc_ok c \<Longrightarrow> otc_ok c'"
  by (simp add: otc_ok_def Otc_sameD)

lemma otc_ok_accept:
  assumes "Otc_accept T D i clientID (c, e) = (res, c', e')" "otc_ok c"
  shows "otc_ok c'"
  using assms(1)
proof (cases rule: Otc_accept_cases)
  case (failed r)
  with Otc_do_frame [OF failed(1)] assms(2) otc_ok_same show ?thesis by blast
next
  case (accepted body c1 e1 a fill)
  have "otc_ok c1" using Otc_do_frame [OF accepted(1)] assms(2) otc_ok_same by blast
  then show ?thesis
    by (fastforce simp: otc_ok_def accepted(2,4) accept_fill_def accept_order_def)
qed

lemma otc_ok_call:
  assumes "connector_call (Otc_connector T D) q (c, e) = (err, c', e')" "otc_ok c"
  shows "otc_ok c'"
proof (cases "\<exists>req. q = OpPlace req")
  case True
  with assms(1) obtain req res where p: "Otc_PlaceOrder T D req (c, e) = (res, c', e')"
    by (auto simp: Otc_connector_def split: prod.splits)
  then show ?thesis
    by (cases rule: Otc_place_cases) (use assms(2) Otc_do_frame otc_ok_same otc_ok_accept in blast)+
next
  case False
  have "c' = c \<or> (\<exists>m p pl r e1. Otc_do D m p pl (c, e) = (r, c', e1))"
    using assms(1) False
    by (cases q) (auto simp: Otc_connector_def Otc_CancelOrder_def Otc_GetOrder_def Otc_GetFills_def
        Otc_GetBalances_def Let_def split: if_splits sum.splits prod.splits)
  with assms(2) Otc_do_frame otc_ok_same show ?thesis by metis
qed

lemma otc_ok_calls:
  "venue_calls (connector_call (Otc_connector T D)) ops (c, e) = ((c', e'), rs) \<Longrightarrow> otc_ok c \<Longrightarrow> otc_ok c'"
proof (induction ops arbitrary: c e rs)
  case (Cons q qs)
  obtain r c1 e1 where q: "connector_call (Otc_connector T D) q (c, e) = (r, c1, e1)" by (metis surj_pair)
  from Cons.prems(1) obtain rs' where "venue_calls (connector_call (Otc_connector T D)) qs (c1, e1) = ((c', e'), rs')"
    by (auto simp: venue_calls_Cons q split: prod.splits)
  from Cons.IH [OF this otc_ok_call [OF q Cons.prems(2)]] show ?case .
qed simp

section \<open>Properties\<close>

text \<open>
  C17. The books of the OTC connector are consistent after any sequence of operations on a new
  connector, whatever the desk answers: every remembered order stands under its own identifier
  and has exactly one fill, with the order's quantity and price, which is also in the list of
  fills, and every fill in that list belongs to a remembered order.
\<close>

theorem Otc_books_consistent:
  assumes "Otc_NewConnector getenv apiKey limiter e0 = (c, e)"
    and "venue_calls (connector_call (Otc_connector T D)) ops (c, e) = ((c', e'), rs)"
  shows "(\<forall>i o'. oc_orders c' i = Some o' \<longrightarrow> os_VenueOrderID o' = i
        \<and> (\<exists>f. os_Fills o' = [f] \<and> f \<in> set (oc_fills c') \<and> fl_VenueOrderID f = i
              \<and> fl_Quantity f = os_FilledQty o' \<and> fl_Price f = os_AvgPrice o'))
     \<and> (\<forall>f \<in> set (oc_fills c'). fl_VenueOrderID f \<in> dom (oc_orders c'))"
proof -
  have "otc_ok c"
    using assms(1) by (auto simp: Otc_NewConnector_def otc_ok_def Let_def split: option.splits prod.splits)
  from otc_ok_calls [OF assms(2) this] show ?thesis by (simp add: otc_ok_def)
qed

text \<open>An environment whose desk answers every request with the same text, and a new connector in it.\<close>

definition desk_env :: "string \<Rightarrow> env" where
  "desk_env body = fixed_env\<lparr>env_http := (\<lambda>_ _. Inr \<lparr>rp_status = 200, rp_headers = [], rp_body = Inr body\<rparr>)\<rparr>"

lemma desk_exchange:
  assumes "env_http e = (\<lambda>_ _. Inr \<lparr>rp_status = 200, rp_headers = [], rp_body = Inr body\<rparr>)"
    and "env_clock e = (\<lambda>_. rps_start (oc_limiter c))" "env_urlErr e = (\<lambda>_. None)" "rps_backoff (oc_limiter c) = 0"
    and "0 < rps_window (oc_limiter c)" "rps_count (oc_limiter c) < rps_limit (oc_limiter c)"
  shows "\<exists>e'. Otc_do D m p pl (c, e) = (Inr body, c\<lparr>oc_limiter :=
        (oc_limiter c)\<lparr>rps_count := wrap64 (rps_count (oc_limiter c) + 1)\<rparr>\<rparr>, e')
      \<and> env_http e' = env_http e \<and> env_clock e' = env_clock e \<and> env_urlErr e' = env_urlErr e"
proof -
  obtain ms where "wait_rps (oc_limiter c, e) = (None, (oc_limiter c)\<lparr>rps_count := wrap64 (rps_count (oc_limiter c) + 1)\<rparr>,
      update_metrics ms (e\<lparr>env_ticks := Suc (env_ticks e)\<rparr>))"
    using wait_open(3) [of "oc_limiter c" e] assms by auto
  with assms show ?thesis
    by (simp add: Otc_do_def http_Do_def read_response_def update_metrics_def Let_def)
qed

definition example_desk :: string where
  "example_desk = json_object [(''quote_id'', json_quote ''q''), (''order_id'', json_quote ''o''),
     (''status'', json_quote ''filled'')]"

definition example_otc :: "rat Otc_Connector" where
  "example_otc =
     \<lparr>oc_cfg = \<lparr>vc_Name = ''otc'', vc_RESTBase = ''http://localhost:9000'', vc_WSBase = []\<rparr>, oc_apiKey = ''key'',
      oc_limiter = NewRPSLimiter ''otc'' 10 5, oc_orders = Map.empty, oc_fills = [], oc_sftpPath = []\<rparr>"

definition example_otc_env :: env where
  "example_otc_env = (desk_env example_desk)\<lparr>env_ticks := 1\<rparr>"

lemma example_otc_new: "Otc_NewConnector (\<lambda>_. []) ''key'' None (desk_env example_desk) = (example_otc, example_otc_env)"
  by (simp add: Otc_NewConnector_def example_otc_def example_otc_env_def desk_env_def fixed_env_def time_Now_def Let_def)

definition example_otc_request :: "rat OrderRequest" where
  "example_otc_request =
     \<lparr>or_ClientOrderID = ''me'', or_Symbol = ''BTC'', or_Side = SideBuy, or_Type = OrderTypeMarket,
      or_Quantity = 2, or_Price = 0\<rparr>"

lemma example_quote:
  "unmarshal_or T (dec_quoteResp D) example_desk (zero_quoteResp D)
    = Inr \<lparr>qr_QuoteID = ''q'', qr_Price = d_Zero D, qr_ExpiresAt = 0, qr_Status = ''filled''\<rparr>"
  for D :: "'a :: equal decimal_ops"
  by code_simp

lemma example_accept:
  "unmarshal_or T (dec_acceptResp D) example_desk (zero_acceptResp D)
    = Inr \<lparr>ar_OrderID = ''o'', ar_Status = ''filled'', ar_FilledQty = d_Zero D, ar_Price = d_Zero D, ar_Fee = d_Zero D,
        ar_FeeAsset = [], ar_TradeID = []\<rparr>"
  for D :: "'a :: equal decimal_ops"
  by code_simp

lemma example_otc_places:
  "\<exists>c' e' resp. Otc_PlaceOrder \<lparr>et_base64 = id, et_json = id\<rparr> rat_decimal example_otc_request
      (example_otc, example_otc_env) = (Inr resp, c', e') \<and> os_VenueOrderID resp = ''o''"
proof -
  let ?T = "\<lparr>et_base64 = id, et_json = id\<rparr>" and ?D = rat_decimal
  have l: "ToLower ''filled'' \<noteq> ''rejected''" "ToLower ''filled'' \<noteq> ''expired''" by code_simp+
  note ex = example_otc_def example_otc_env_def desk_env_def fixed_env_def NewRPSLimiter_def
  let ?c1 = "example_otc\<lparr>oc_limiter := (oc_limiter example_otc)\<lparr>rps_count := 1\<rparr>\<rparr>"
  obtain e1 where d1: "Otc_do ?D ''POST'' ''/v1/rfq'' (Some (doc_rfqRequest example_otc_request)) (example_otc, example_otc_env)
      = (Inr example_desk, ?c1, e1)"
    and e1: "env_http e1 = env_http example_otc_env" "env_clock e1 = env_clock example_otc_env" "env_urlErr e1 = env_urlErr example_otc_env"
    using desk_exchange [of example_otc_env example_desk example_otc ?D "''POST''" "''/v1/rfq''"
        "Some (doc_rfqRequest example_otc_request)"] by (auto simp: ex wrap64_def)
  let ?p = "''/v1/quotes/'' @ ''q'' @ ''/accept''" and ?pl = "Some (DObj [(''client_order_id'', DStr ''me'')]) :: rat jdoc option"
  obtain e2 where d2: "Otc_do ?D ''POST'' ?p ?pl (?c1, e1)
      = (Inr example_desk, ?c1\<lparr>oc_limiter := (oc_limiter ?c1)\<lparr>rps_count := 2\<rparr>\<rparr>, e2)"
    using desk_exchange [of e1 example_desk ?c1 ?D "''POST''" ?p ?pl] e1 by (auto simp: ex wrap64_def)
  show ?thesis
    using d1 d2 l by (simp add: Otc_PlaceOrder_def Otc_accept_def example_otc_request_def example_quote example_accept time_Now_def
        accept_order_def Let_def)
qed

theorem Otc_books_consistent_witness:
  "\<exists>c' e' rs. venue_calls (connector_call (Otc_connector \<lparr>et_base64 = id, et_json = id\<rparr> rat_decimal))
      [OpPlace example_otc_request] (Otc_NewConnector (\<lambda>_. []) ''key'' None (desk_env example_desk)) = ((c', e'), rs)
    \<and> rs = [None] \<and> (\<forall>f \<in> set (oc_fills c'). fl_VenueOrderID f \<in> dom (oc_orders c'))"
proof -
  let ?T = "\<lparr>et_base64 = id, et_json = id\<rparr>"
  obtain c' e' resp where p: "Otc_PlaceOrder ?T rat_decimal example_otc_request (example_otc, example_otc_env) = (Inr resp, c', e')"
    using example_otc_places by blast
  have v: "venue_calls (connector_call (Otc_connector ?T rat_decimal)) [OpPlace example_otc_request]
      (example_otc, example_otc_env) = ((c', e'), [None])"
    by (simp add: venue_calls_Cons Otc_connector_def p error_of_def)
  from Otc_books_consistent [OF example_otc_new v] v show ?thesis by (simp add: example_otc_new)
qed

text \<open>
  C20. A placed order is two exchanges and one entry. When \<open>PlaceOrder\<close> succeeds it has sent
  exactly two requests, both with the API key if there is one: the request for a quote with the order's
  identifier, symbol, side and quantity, and the acceptance of the quote whose identifier the
  desk gave in its answer to the first one, which was neither rejected nor expired. The order that
  is returned consists of what the desk says in its answer to the second one, under the client's
  identifier, with one fill stamped by the last reading of the clock; it is remembered under the
  desk's identifier, the fill is appended, and nothing else of the connector's books changes.
\<close>

theorem Otc_PlaceOrder_two_steps:
  assumes "Otc_PlaceOrder T D req (c, e) = (Inr resp, c', e')"
  defines "post \<equiv> (\<lambda>path doc. \<lparr>rq_method = ''POST'', rq_url = vc_RESTBase (oc_cfg c) @ path,
      rq_headers = (if oc_apiKey c = [] then [] else [(''Authorization'', ''Bearer '' @ oc_apiKey c)])
        @ [(''Content-Type'', ''application/json'')], rq_body = jdoc_text D doc\<rparr>)"
  defines "rfq \<equiv> post ''/v1/rfq'' (DObj [(''client_order_id'', DStr (or_ClientOrderID req)),
      (''symbol'', DStr (or_Symbol req)), (''side'', DStr (or_Side req)), (''quantity'', DDec (or_Quantity req))])"
  shows "or_ClientOrderID req \<noteq> []
    \<and> (\<exists>body1 q accept body2 a f. env_sent e' = env_sent e @ [rfq, accept]
      \<and> desk_answer e (length (env_sent e)) rfq body1
      \<and> unmarshal_or T (dec_quoteResp D) body1 (zero_quoteResp D) = Inr q
      \<and> ToLower (qr_Status q) \<noteq> ''rejected'' \<and> ToLower (qr_Status q) \<noteq> ''expired''
      \<and> accept = post (''/v1/quotes/'' @ qr_QuoteID q @ ''/accept'') (DObj [(''client_order_id'', DStr (or_ClientOrderID req))])
      \<and> desk_answer e (Suc (length (env_sent e))) accept body2
      \<and> unmarshal_or T (dec_acceptResp D) body2 (zero_acceptResp D) = Inr a
      \<and> f = \<lparr>fl_VenueOrderID = ar_OrderID a, fl_TradeID = ar_TradeID a, fl_Price = ar_Price a, fl_Quantity = ar_FilledQty a,
             fl_Fee = ar_Fee a, fl_FeeAsset = ar_FeeAsset a, fl_Timestamp = env_clock e (env_ticks e' - 1)\<rparr>
      \<and> resp = \<lparr>os_VenueOrderID = ar_OrderID a, os_ClientOrderID = or_ClientOrderID req,
             os_Status = Otc_mapStatus (ar_Status a), os_FilledQty = ar_FilledQty a, os_AvgPrice = ar_Price a, os_Fills = [f]\<rparr>
      \<and> oc_orders c' = (oc_orders c)(ar_OrderID a \<mapsto> resp) \<and> oc_fills c' = oc_fills c @ [f])"
  using assms(1)
proof (cases rule: Otc_place_cases)
  case (quote body c1 e1 i)
  note d1 = Otc_do_answered [OF quote(1)]
  from quote(2) show ?thesis
  proof (cases rule: Otc_accept_cases)
    case (accepted body2 c2 e2 a fill)
    note d2 = Otc_do_answered [OF accepted(1)]
    have s: "oc_orders c2 = oc_orders c" "oc_fills c2 = oc_fills c"
        "otc_request D m p pl c1 = otc_request D m p pl c" for m p pl
      using d1(5) d2(5) Otc_sameD [of c c1] Otc_sameD [of c1 c2] by auto
    have post: "post p doc = otc_request D ''POST'' p (Some doc) c" for p doc
      by (simp add: post_def otc_request_def)
    obtain q where q: "unmarshal_or T (dec_quoteResp D) body (zero_quoteResp D) = Inr q" "qr_QuoteID q = i"
        "ToLower (qr_Status q) \<noteq> ''rejected''" "ToLower (qr_Status q) \<noteq> ''expired''"
      using quote(4) by (auto simp: quoted_def split: sum.splits)
    have sent: "env_sent e' = env_sent e @ [otc_request D ''POST'' ''/v1/rfq'' (Some (doc_rfqRequest req)) c,
        otc_request D ''POST'' (''/v1/quotes/'' @ qr_QuoteID q @ ''/accept'')
          (Some (DObj [(''client_order_id'', DStr (or_ClientOrderID req))])) c]"
      using d1(2) d2(2) accepted(5) by (simp add: s q(2))
    have answer: "desk_answer e (Suc (length (env_sent e))) (otc_request D ''POST'' (''/v1/quotes/'' @ qr_QuoteID q @ ''/accept'')
          (Some (DObj [(''client_order_id'', DStr (or_ClientOrderID req))])) c) body2"
      using d2(1) d1(2,3) by (simp add: desk_answer_def s q(2))
    have now: "env_clock e2 (env_ticks e2) = env_clock e (env_ticks e' - 1)"
      using d1(4) d2(4) accepted(5) by simp
    show ?thesis
      unfolding rfq_def post doc_rfqRequest_def [symmetric]
      using d1(1) quote(3) q(1,3,4) accepted(2,3,4,6) sent answer s(1,2) now
      by (intro conjI exI [of _ body] exI [of _ q] exI [of _ "otc_request D ''POST'' (''/v1/quotes/'' @ qr_QuoteID q @ ''/accept'')
          (Some (DObj [(''client_order_id'', DStr (or_ClientOrderID req))])) c"] exI [of _ body2] exI [of _ a] exI [of _ fill])
        (simp_all add: accept_order_def accept_fill_def)
  qed simp
qed simp_all

theorem Otc_PlaceOrder_two_steps_witness:
  "\<exists>c' e' resp. Otc_PlaceOrder \<lparr>et_base64 = id, et_json = id\<rparr> rat_decimal example_otc_request
      (example_otc, example_otc_env) = (Inr resp, c', e')
    \<and> map rq_url (env_sent e') = [''http://localhost:9000/v1/rfq'', ''http://localhost:9000/v1/quotes/q/accept'']
    \<and> os_VenueOrderID resp = ''o'' \<and> os_Status resp = OrderStatusFilled \<and> oc_orders c' ''o'' = Some resp"
proof -
  let ?T = "\<lparr>et_base64 = id, et_json = id\<rparr>"
  obtain c' e' resp where p: "Otc_PlaceOrder ?T rat_decimal example_otc_request (example_otc, example_otc_env) = (Inr resp, c', e')"
    using example_otc_places by blast
  have desk: "env_http example_otc_env = (\<lambda>_ _. Inr \<lparr>rp_status = 200, rp_headers = [], rp_body = Inr example_desk\<rparr>)"
      "env_sent example_otc_env = []"
    by (simp_all add: example_otc_env_def desk_env_def fixed_env_def)
  have status: "Otc_mapStatus ''filled'' = OrderStatusFilled" by code_simp
  from Otc_PlaceOrder_two_steps [OF p] p show ?thesis
    by (auto simp: desk desk_answer_def example_quote example_accept example_otc_def status)
qed

text \<open>
  A limit order is not limited: the type and the price of an order make no difference to
  what the OTC connector does, neither to the requests nor to the order it reports.
\<close>

theorem Otc_ignores_type_and_price:
  "Otc_PlaceOrder T D (req\<lparr>or_Type := t, or_Price := p\<rparr>) ce = Otc_PlaceOrder T D req ce"
proof -
  have "or_ClientOrderID (req\<lparr>or_Type := t, or_Price := p\<rparr>) = or_ClientOrderID req"
    "doc_rfqRequest (req\<lparr>or_Type := t, or_Price := p\<rparr>) = doc_rfqRequest req"
    by (simp_all add: doc_rfqRequest_def)
  then show ?thesis by (simp only: Otc_PlaceOrder_def)
qed

text \<open>
  Settlement files are looked up outside the configured directory when the order identifier
  says so: an identifier of the form \<open>../x\<close> reads the file \<open>x.json\<close> beside the directory, for
  every directory \<open>/d\<close> of one segment.
\<close>

theorem Otc_sftp_escapes:
  assumes "d \<noteq> []" "d \<noteq> ''.''" "d \<noteq> ''..''" "CHR ''/'' \<notin> set d" "CHR ''/'' \<notin> set x"
  shows "fetchSFTP (''/'' @ d) (''../'' @ x) e =
    (case env_file e (''/'' @ x @ ''.json'') of Inl err \<Rightarrow> Inl (''otc: sftp read: '' @ err) | Inr data \<Rightarrow> Inr data)"
proof -
  have n: "CHR ''/'' \<notin> set (x @ ''.json'')" using assms(5) by simp
  have "Split (CHR ''/'') ([] @ CHR ''/'' # d @ CHR ''/'' # ''..'' @ CHR ''/'' # x @ ''.json'') = [[], d, ''..'', x @ ''.json'']"
    using assms(4) n by (subst Split_sep, simp, subst Split_sep, simp, subst Split_sep, simp, simp add: Split_no_sep)
  moreover have "x @ ''.json'' \<noteq> [] \<and> x @ ''.json'' \<noteq> ''.'' \<and> x @ ''.json'' \<noteq> ''..''"
    by (cases x) (auto simp: append_eq_Cons_conv)
  ultimately show ?thesis
    using assms(1-3) by (simp add: fetchSFTP_def filepath_Join_def filepath_Clean_def Let_def)
qed

end
