(* ===== verification/Secrets.thy ===== *)
theory Secrets
  imports GoEnv "HOL-Library.AList"
begin

text \<open>
  The credentials of \<open>internal/secrets\<close>: the manager that loads and rotates them, their redaction,
  the record of rotations, and the vault that reads the process environment.

  The vault is an interface: a record of its two operations over a state of its own. A failed
  call returns the error's text. A probe of new credentials sees them and the surroundings, not
  the manager or the vault.
\<close>

record Credentials =
  cd_APIKey :: string
  cd_APISecret :: string
  cd_Version :: string
  cd_LeaseID :: string
  cd_LoadedAt :: instant

record Secret =
  sc_Data :: "(string \<times> string) list"
  sc_Version :: string
  sc_LeaseID :: string
  sc_Renewable :: bool

record 'v VaultClient =
  Vault_Read :: "string \<Rightarrow> 'v \<times> env \<Rightarrow> (string + Secret) \<times> 'v \<times> env"
  Vault_Revoke :: "string \<Rightarrow> 'v \<times> env \<Rightarrow> string option \<times> 'v \<times> env"

abbreviation ErrSecretNotFound :: string where
  "ErrSecretNotFound \<equiv> ''secrets: secret not found''"

section \<open>The manager\<close>

record 'v Manager =
  mg_venue :: string
  mg_client :: "'v VaultClient"
  mg_current :: "Credentials option"

type_synonym 'v manager_state = "'v Manager \<times> 'v \<times> env"

definition NewManager :: "string \<Rightarrow> 'v VaultClient \<Rightarrow> 'v Manager" where
  "NewManager venue client = \<lparr>mg_venue = venue, mg_client = client, mg_current = None\<rparr>"

text \<open>The index of a Go map gives the zero value for an absent key.\<close>

definition secret_value :: "Secret \<Rightarrow> string" where
  "secret_value s = (case map_of (sc_Data s) ''value'' of None \<Rightarrow> [] | Some v \<Rightarrow> v)"

definition keyPath :: "string \<Rightarrow> string" where
  "keyPath venue = ''secret/exchange-connectors/'' @ venue @ ''/api-key''"

definition secretPath :: "string \<Rightarrow> string" where
  "secretPath venue = ''secret/exchange-connectors/'' @ venue @ ''/api-secret''"

definition Load :: "'v manager_state \<Rightarrow> (string + Credentials) \<times> 'v manager_state" where
  "Load = (\<lambda>(m, v0, e0).
     (case Vault_Read (mg_client m) (keyPath (mg_venue m)) (v0, e0) of
        (Inl err, v1, e1) \<Rightarrow> (Inl (''load api-key: '' @ err), m, v1, e1)
      | (Inr keySecret, v1, e1) \<Rightarrow>
          (case Vault_Read (mg_client m) (secretPath (mg_venue m)) (v1, e1) of
             (Inl err, v2, e2) \<Rightarrow> (Inl (''load api-secret: '' @ err), m, v2, e2)
           | (Inr secretSecret, v2, e2) \<Rightarrow>
               (let (now, e3) = time_Now e2;
                    creds = \<lparr>cd_APIKey = secret_value keySecret, cd_APISecret = secret_value secretSecret,
                             cd_Version = sc_Version keySecret, cd_LeaseID = sc_LeaseID keySecret,
                             cd_LoadedAt = now\<rparr>
                in (Inr creds, m\<lparr>mg_current := Some creds\<rparr>, v2, e3)))))"

definition Current :: "'v Manager \<Rightarrow> Credentials option" where
  "Current m = mg_current m"

text \<open>The probe of \<open>Rotate\<close> may be nil; the error of the revocation is ignored.\<close>

type_synonym probe = "(Credentials \<Rightarrow> env \<Rightarrow> string option \<times> env) option"

definition run_probe :: "probe \<Rightarrow> Credentials \<Rightarrow> env \<Rightarrow> string option \<times> env" where
  "run_probe probe c e = (case probe of None \<Rightarrow> (None, e) | Some f \<Rightarrow> f c e)"

definition Rotate :: "probe \<Rightarrow> 'v manager_state \<Rightarrow> (string + Credentials) \<times> 'v manager_state" where
  "Rotate probe = (\<lambda>(m0, v0, e0).
     (case Load (m0, v0, e0) of
        (Inl err, st) \<Rightarrow> (Inl err, st)
      | (Inr newCreds, m, v1, e1) \<Rightarrow>
          (case run_probe probe newCreds e1 of
             (Some err, e2) \<Rightarrow> (Inl (''probe failed: '' @ err), m, v1, e2)
           | (None, e2) \<Rightarrow>
               (case Current m0 of
                  None \<Rightarrow> (Inr newCreds, m, v1, e2)
                | Some old \<Rightarrow>
                    if cd_LeaseID old \<noteq> [] \<and> cd_LeaseID old \<noteq> cd_LeaseID newCreds
                    then (let (_, v2, e3) = Vault_Revoke (mg_client m) (cd_LeaseID old) (v1, e2)
                          in (Inr newCreds, m, v2, e3))
                    else (Inr newCreds, m, v1, e2)))))"

definition RevokeOld :: "'v manager_state \<Rightarrow> string option \<times> 'v manager_state" where
  "RevokeOld = (\<lambda>(m, v0, e0).
     (case mg_current m of
        None \<Rightarrow> (None, m, v0, e0)
      | Some c \<Rightarrow>
          if cd_LeaseID c = [] then (None, m, v0, e0)
          else (let (err, v1, e1) = Vault_Revoke (mg_client m) (cd_LeaseID c) (v0, e0) in (err, m, v1, e1))))"

section \<open>Redaction\<close>

definition Redact :: "string \<Rightarrow> string" where
  "Redact s =
     (if length s = 0 then []
      else if length s \<le> 4 then replicate (length s) (CHR ''*'')
      else take 2 s @ replicate (length s - 4) (CHR ''*'') @ drop (length s - 2) s)"

definition RedactCreds :: "Credentials option \<Rightarrow> Credentials option" where
  "RedactCreds c = map_option (\<lambda>c. \<lparr>cd_APIKey = Redact (cd_APIKey c), cd_APISecret = Redact (cd_APISecret c),
     cd_Version = cd_Version c, cd_LeaseID = cd_LeaseID c, cd_LoadedAt = cd_LoadedAt c\<rparr>) c"

section \<open>The record of rotations\<close>

record CredentialRecord =
  rec_Venue :: string
  rec_KeyID :: string
  rec_VaultPath :: string
  rec_Version :: string
  rec_RotatedAt :: instant

record CredentialStore =
  cs_rows :: "CredentialRecord list"

definition NewCredentialStore :: CredentialStore where
  "NewCredentialStore = \<lparr>cs_rows = []\<rparr>"

definition Record_row :: "CredentialRecord \<Rightarrow> CredentialStore \<Rightarrow> CredentialStore" where
  "Record_row row s = s\<lparr>cs_rows := cs_rows s @ [row]\<rparr>"

definition Rows :: "CredentialStore \<Rightarrow> CredentialRecord list" where
  "Rows s = cs_rows s"

text \<open>The loop of \<open>Latest\<close>, from the index \<open>i - 1\<close> down to 0.\<close>

fun latest_from :: "CredentialRecord list \<Rightarrow> string \<Rightarrow> nat \<Rightarrow> CredentialRecord option" where
  "latest_from rows venue 0 = None"
| "latest_from rows venue (Suc i) =
     (if rec_Venue (rows ! i) = venue then Some (rows ! i) else latest_from rows venue i)"

definition Latest :: "string \<Rightarrow> CredentialStore \<Rightarrow> CredentialRecord option" where
  "Latest venue s = latest_from (cs_rows s) venue (length (cs_rows s))"

definition RecordCredentials ::
    "string \<Rightarrow> Credentials option \<Rightarrow> CredentialStore option \<Rightarrow> CredentialStore option" where
  "RecordCredentials venue c store =
     (case (store, c) of
        (Some s, Some cr) \<Rightarrow>
          Some (Record_row \<lparr>rec_Venue = venue, rec_KeyID = Redact (cd_APIKey cr),
            rec_VaultPath = ''secret/exchange-connectors/'' @ venue @ ''/api-key'',
            rec_Version = cd_Version cr, rec_RotatedAt = cd_LoadedAt cr\<rparr> s)
      | _ \<Rightarrow> store)"

section \<open>The vault over the process environment\<close>

record EnvVault =
  ev_secrets :: "(string \<times> Secret) list"

fun IndexByte :: "string \<Rightarrow> char \<Rightarrow> nat option" where
  "IndexByte [] c = None"
| "IndexByte (x # xs) c = (if x = c then Some 0 else map_option Suc (IndexByte xs c))"

text \<open>
  One entry of \<open>os.Environ\<close>. The slice of the name panics when the equals sign lies within the
  prefix, which takes a prefix with an equals sign: \<open>None\<close>.
\<close>

definition env_entry :: "string \<Rightarrow> string \<Rightarrow> (string \<times> Secret) list \<Rightarrow> (string \<times> Secret) list option" where
  "env_entry pfx kv m =
     (if \<not> HasPrefix kv pfx then Some m
      else case IndexByte kv (CHR ''='') of
        None \<Rightarrow> Some m
      | Some eq \<Rightarrow>
          if eq < length pfx then None
          else Some (AList.update (drop (length pfx) (take eq kv))
            \<lparr>sc_Data = [(''value'', drop (eq + 1) kv)], sc_Version = ''env'', sc_LeaseID = [], sc_Renewable = False\<rparr> m))"

fun env_entries :: "string \<Rightarrow> string list \<Rightarrow> (string \<times> Secret) list \<Rightarrow> (string \<times> Secret) list option" where
  "env_entries pfx [] m = Some m"
| "env_entries pfx (kv # kvs) m = Option.bind (env_entry pfx kv m) (env_entries pfx kvs)"

definition NewEnvVaultFromEnv :: "string list \<Rightarrow> string \<Rightarrow> EnvVault option" where
  "NewEnvVaultFromEnv environ prefix0 =
     map_option (\<lambda>m. \<lparr>ev_secrets = m\<rparr>) (env_entries ((if prefix0 = [] then ''SECRETS'' else prefix0) @ ''_'') environ [])"

definition EnvVault_Read :: "string \<Rightarrow> EnvVault \<times> env \<Rightarrow> (string + Secret) \<times> EnvVault \<times> env" where
  "EnvVault_Read path = (\<lambda>(v, e).
     ((case map_of (ev_secrets v) path of None \<Rightarrow> Inl ErrSecretNotFound | Some s \<Rightarrow> Inr s), v, e))"

definition EnvVault_Revoke :: "string \<Rightarrow> EnvVault \<times> env \<Rightarrow> string option \<times> EnvVault \<times> env" where
  "EnvVault_Revoke leaseID = (\<lambda>ve. (None, ve))"

definition EnvVault_client :: "EnvVault VaultClient" where
  "EnvVault_client = \<lparr>Vault_Read = EnvVault_Read, Vault_Revoke = EnvVault_Revoke\<rparr>"

section \<open>What the manager asks of the vault\<close>

datatype vault_call = ReadCall string | RevokeCall string

definition loaded_credentials :: "Secret \<Rightarrow> Secret \<Rightarrow> env \<Rightarrow> Credentials" where
  "loaded_credentials ks ss e =
     \<lparr>cd_APIKey = secret_value ks, cd_APISecret = secret_value ss, cd_Version = sc_Version ks,
      cd_LeaseID = sc_LeaseID ks, cd_LoadedAt = env_clock e (env_ticks e)\<rparr>"

definition owed_revocation :: "Credentials option \<Rightarrow> Secret \<Rightarrow> vault_call list" where
  "owed_revocation current ks =
     (case current of None \<Rightarrow> []
      | Some old \<Rightarrow> if cd_LeaseID old \<noteq> [] \<and> cd_LeaseID old \<noteq> sc_LeaseID ks then [RevokeCall (cd_LeaseID old)] else [])"

text \<open>A vault whose calls are observed.\<close>

locale observed_vault =
  fixes client :: "'v VaultClient" and calls :: "'v \<Rightarrow> vault_call list"
  assumes read: "Vault_Read client p (v, e) = (r, v', e') \<Longrightarrow> calls v' = calls v @ [ReadCall p]"
    and revoke: "Vault_Revoke client l (v, e) = (x, v', e') \<Longrightarrow> calls v' = calls v @ [RevokeCall l]"
begin

lemma load_run:
  assumes "mg_client m = client"
    and "Vault_Read client (keyPath (mg_venue m)) (v, e) = (rk, v1, e1)"
    and "Vault_Read client (secretPath (mg_venue m)) (v1, e1) = (rs, v2, e2)"
  shows "Load (m, v, e) =
    (case rk of Inl err \<Rightarrow> (Inl (''load api-key: '' @ err), m, v1, e1)
     | Inr ks \<Rightarrow> (case rs of Inl err \<Rightarrow> (Inl (''load api-secret: '' @ err), m, v2, e2)
        | Inr ss \<Rightarrow> (let c = loaded_credentials ks ss e2
                      in (Inr c, m\<lparr>mg_current := Some c\<rparr>, v2, e2\<lparr>env_ticks := Suc (env_ticks e2)\<rparr>))))"
  using assms by (simp add: Load_def loaded_credentials_def time_Now_def Let_def split: sum.split)

text \<open>
  A rotation in full: what it returns, what is current after it, and what it asks of the vault.
  The revocation it owes is the lease of the credentials it replaced, unless there is none or the
  new credentials still live on it.
\<close>

lemma rotate_run:
  assumes "mg_client m = client" "Rotate probe (m, v, e) = (r, m', v', e')"
    and "Vault_Read client (keyPath (mg_venue m)) (v, e) = (rk, v1, e1)"
    and "Vault_Read client (secretPath (mg_venue m)) (v1, e1) = (rs, v2, e2)"
  shows "case rk of
      Inl err \<Rightarrow> r = Inl (''load api-key: '' @ err) \<and> m' = m \<and> calls v' = calls v @ [ReadCall (keyPath (mg_venue m))]
    | Inr ks \<Rightarrow> (case rs of
        Inl err \<Rightarrow> r = Inl (''load api-secret: '' @ err) \<and> m' = m
          \<and> calls v' = calls v @ [ReadCall (keyPath (mg_venue m)), ReadCall (secretPath (mg_venue m))]
      | Inr ss \<Rightarrow> (let c = loaded_credentials ks ss e2
          in m' = m\<lparr>mg_current := Some c\<rparr>
           \<and> (case fst (run_probe probe c (e2\<lparr>env_ticks := Suc (env_ticks e2)\<rparr>)) of
                Some err \<Rightarrow> r = Inl (''probe failed: '' @ err)
                  \<and> calls v' = calls v @ [ReadCall (keyPath (mg_venue m)), ReadCall (secretPath (mg_venue m))]
              | None \<Rightarrow> r = Inr c
                  \<and> calls v' = calls v @ [ReadCall (keyPath (mg_venue m)), ReadCall (secretPath (mg_venue m))]
                      @ owed_revocation (mg_current m) ks)))"
proof (cases rk)
  case (Inl err)
  with assms(2) read [OF assms(3)] show ?thesis by (auto simp: Rotate_def load_run [OF assms(1,3,4)])
next
  case k: (Inr ks)
  have reads: "calls v2 = calls v @ [ReadCall (keyPath (mg_venue m)), ReadCall (secretPath (mg_venue m))]"
    using read [OF assms(3)] read [OF assms(4)] by simp
  show ?thesis
  proof (cases rs)
    case (Inl err)
    with assms(2) k reads show ?thesis by (auto simp: Rotate_def load_run [OF assms(1,3,4)])
  next
    case (Inr ss)
    let ?c = "loaded_credentials ks ss e2"
    obtain x e3 where p: "run_probe probe ?c (e2\<lparr>env_ticks := Suc (env_ticks e2)\<rparr>) = (x, e3)" by (metis surj_pair)
    obtain y v3 e4 where q: "Vault_Revoke client (cd_LeaseID (the (mg_current m))) (v2, e3) = (y, v3, e4)"
      by (metis surj_pair)
    have lease: "cd_LeaseID ?c = sc_LeaseID ks" by (simp add: loaded_credentials_def)
    show ?thesis using assms(1,2) k Inr reads p q revoke [OF q] lease
      by (auto simp: Rotate_def load_run [OF assms(1,3,4)] Current_def owed_revocation_def Let_def
          split: option.splits if_splits)
  qed
qed

end

text \<open>Any vault, with its calls written down.\<close>

definition logged :: "'v VaultClient \<Rightarrow> ('v \<times> vault_call list) VaultClient" where
  "logged C =
     \<lparr>Vault_Read = (\<lambda>p ((v, asked), e). let (r, v', e') = Vault_Read C p (v, e) in (r, (v', asked @ [ReadCall p]), e')),
      Vault_Revoke = (\<lambda>l ((v, asked), e). let (x, v', e') = Vault_Revoke C l (v, e) in (x, (v', asked @ [RevokeCall l]), e'))\<rparr>"

interpretation lv: observed_vault "logged C" snd
  by unfold_locales (auto simp: logged_def split: prod.splits)

section \<open>Facts about the rest\<close>

lemma latest_from_find:
  "i \<le> length rows \<Longrightarrow> latest_from rows venue i = find (\<lambda>r. rec_Venue r = venue) (rev (take i rows))"
  by (induction i) (auto simp: take_Suc_conv_app_nth)

lemma Latest_find: "Latest venue s = find (\<lambda>r. rec_Venue r = venue) (rev (Rows s))"
  by (simp add: Latest_def Rows_def latest_from_find)

text \<open>The row recorded last for a venue is the one \<open>Latest\<close> returns, whatever is recorded for others.\<close>

lemma Latest_Record:
  "Latest venue (Record_row row s) = (if rec_Venue row = venue then Some row else Latest venue s)"
  by (simp add: Latest_find Rows_def Record_row_def)

lemma length_Redact [simp]: "length (Redact s) = length s"
  by (auto simp: Redact_def)

section \<open>Properties\<close>

text \<open>
  C16. Rotation, for every vault and every probe, with everything the vault is asked. The key is
  read first; when that fails the secret is not read, and when either reading fails the rotation
  fails with that error and the credentials stay as they are. Otherwise the new credentials are
  exactly the values, the version and the lease that the vault gave, and they are current. When
  the probe refuses them the rotation fails with its error and revokes nothing. When there is no
  probe, or it accepts them, the rotation returns them and revokes exactly the lease of the
  credentials it replaced, and only when there was one and the new credentials do not share it.
\<close>

theorem Rotate_protocol:
  assumes "mg_client m = logged C" "Rotate probe (m, (v, asked), e) = (r, m', (v', asked'), e')"
    and "Vault_Read C (''secret/exchange-connectors/'' @ mg_venue m @ ''/api-key'') (v, e) = (rk, v1, e1)"
    and "Vault_Read C (''secret/exchange-connectors/'' @ mg_venue m @ ''/api-secret'') (v1, e1) = (rs, v2, e2)"
  defines "value \<equiv> (\<lambda>s. case map_of (sc_Data s) ''value'' of Some x \<Rightarrow> x | None \<Rightarrow> [])"
    and "key_read \<equiv> ReadCall (''secret/exchange-connectors/'' @ mg_venue m @ ''/api-key'')"
    and "secret_read \<equiv> ReadCall (''secret/exchange-connectors/'' @ mg_venue m @ ''/api-secret'')"
  shows "case rk of
      Inl err \<Rightarrow> r = Inl (''load api-key: '' @ err) \<and> asked' = asked @ [key_read] \<and> Current m' = Current m
    | Inr ks \<Rightarrow>
        (case rs of
          Inl err \<Rightarrow> r = Inl (''load api-secret: '' @ err) \<and> asked' = asked @ [key_read, secret_read] \<and> Current m' = Current m
        | Inr ss \<Rightarrow>
            (let c = \<lparr>cd_APIKey = value ks, cd_APISecret = value ss, cd_Version = sc_Version ks,
                   cd_LeaseID = sc_LeaseID ks, cd_LoadedAt = env_clock e2 (env_ticks e2)\<rparr>;
                 refusal = (case probe of None \<Rightarrow> None | Some f \<Rightarrow> fst (f c (e2\<lparr>env_ticks := Suc (env_ticks e2)\<rparr>)));
                 owed = (case Current m of None \<Rightarrow> []
                   | Some old \<Rightarrow> if cd_LeaseID old \<noteq> [] \<and> cd_LeaseID old \<noteq> sc_LeaseID ks then [RevokeCall (cd_LeaseID old)] else [])
             in Current m' = Some c
               \<and> (case refusal of
                    Some err \<Rightarrow> r = Inl (''probe failed: '' @ err) \<and> asked' = asked @ [key_read, secret_read]
                  | None \<Rightarrow> r = Inr c \<and> asked' = asked @ [key_read, secret_read] @ owed)))"
proof -
  have k: "Vault_Read (logged C) (keyPath (mg_venue m)) ((v, asked), e) = (rk, (v1, asked @ [key_read]), e1)"
    using assms(3) by (simp add: logged_def keyPath_def key_read_def)
  have s: "Vault_Read (logged C) (secretPath (mg_venue m)) ((v1, asked @ [key_read]), e1) = (rs, (v2, asked @ [key_read, secret_read]), e2)"
    using assms(4) by (simp add: logged_def secretPath_def secret_read_def)
  show ?thesis
    using lv.rotate_run [OF assms(1,2) k s]
    by (auto simp: Current_def loaded_credentials_def owed_revocation_def run_probe_def secret_value_def value_def
        keyPath_def secretPath_def key_read_def secret_read_def Let_def split: sum.splits option.splits)
qed

text \<open>Two rotations against a vault that gives out a new lease at every reading.\<close>

definition counting_vault :: "nat VaultClient" where
  "counting_vault =
     \<lparr>Vault_Read = (\<lambda>p (n, e). (Inr \<lparr>sc_Data = [(''value'', ''k'')], sc_Version = ''1'',
                     sc_LeaseID = replicate (Suc n) (CHR ''l''), sc_Renewable = True\<rparr>, Suc n, e)),
      Vault_Revoke = (\<lambda>l (n, e). (None, n, e))\<rparr>"

definition counting_manager :: "(nat \<times> vault_call list) Manager" where
  "counting_manager = (NewManager ''kraken'' (logged counting_vault))\<lparr>mg_current :=
     Some \<lparr>cd_APIKey = ''k'', cd_APISecret = ''k'', cd_Version = ''0'', cd_LeaseID = ''old'', cd_LoadedAt = 0\<rparr>\<rparr>"

theorem Rotate_protocol_witness:
  "(\<exists>c m' st. Rotate None (counting_manager, (0, []), fixed_env) = (Inr c, m', st) \<and> Current m' = Some c
      \<and> cd_LeaseID c = ''l'' \<and> snd (fst st) = [ReadCall ''secret/exchange-connectors/kraken/api-key'',
        ReadCall ''secret/exchange-connectors/kraken/api-secret'', RevokeCall ''old''])
   \<and> (\<exists>m' st. Rotate (Some (\<lambda>c e. (Some ''no'', e))) (counting_manager, (0, []), fixed_env)
        = (Inl ''probe failed: no'', m', st)
      \<and> snd (fst st) = [ReadCall ''secret/exchange-connectors/kraken/api-key'',
        ReadCall ''secret/exchange-connectors/kraken/api-secret''])"
proof -
  let ?secret = "\<lambda>n. \<lparr>sc_Data = [(''value'', ''k'')], sc_Version = ''1'',
      sc_LeaseID = replicate (Suc n) (CHR ''l''), sc_Renewable = True\<rparr>"
  have m: "mg_client counting_manager = logged counting_vault" "mg_venue counting_manager = ''kraken''"
    "Current counting_manager = Some \<lparr>cd_APIKey = ''k'', cd_APISecret = ''k'', cd_Version = ''0'', cd_LeaseID = ''old'', cd_LoadedAt = 0\<rparr>"
    by (simp_all add: counting_manager_def NewManager_def Current_def)
  have reads: "Vault_Read counting_vault p (n, e) = (Inr (?secret n), Suc n, e)" for p n e
    by (simp add: counting_vault_def)
  obtain r m1 v1 asked1 e1 where st1: "Rotate None (counting_manager, (0, []), fixed_env) = (r, m1, (v1, asked1), e1)"
    by (metis surj_pair)
  obtain r2 m2 v2 asked2 e2 where st2: "Rotate (Some (\<lambda>c e. (Some ''no'', e))) (counting_manager, (0, []), fixed_env)
      = (r2, m2, (v2, asked2), e2)" by (metis surj_pair)
  from Rotate_protocol [OF m(1) st1 reads reads] Rotate_protocol [OF m(1) st2 reads reads] st1 st2 show ?thesis
    by (auto simp: m Let_def)
qed

text \<open>
  C36. What redaction reveals. Two texts have the same redaction exactly when they have the same
  length and, if they are longer than four bytes, the same first two and last two bytes: nothing
  else of a key can be read from the record of rotations.
\<close>

theorem Redact_reveals:
  "Redact s = Redact t \<longleftrightarrow> length s = length t
     \<and> (if length s \<le> 4 then True else take 2 s = take 2 t \<and> drop (length s - 2) s = drop (length t - 2) t)"
proof (cases "length s = length t")
  case True
  then show ?thesis by (auto simp: Redact_def append_eq_append_conv min_def)
next
  case False
  then show ?thesis using length_Redact by metis
qed

text \<open>
  Probing comes after installation: when the probe refuses the new credentials, \<open>Rotate\<close> reports
  the failure and the refused credentials are the current ones.
\<close>

theorem Rotate_installs_before_probe:
  assumes "Load (m, v, e) = (Inr c, m1, v1, e1)" "f c e1 = (Some err, e2)"
  shows "Rotate (Some f) (m, v, e) = (Inl (''probe failed: '' @ err), m1, v1, e2) \<and> Current m1 = Some c"
  using assms by (auto simp: Rotate_def run_probe_def Load_def Current_def Let_def split: prod.splits sum.splits)

end
