(* ===== verification/Migrations.thy ===== *)
theory Migrations
  imports GoEnv "HOL-Library.AList"
begin

text \<open>
  The schema migrations of \<open>internal/store/migrations\<close>: the collection of the embedded files
  into versions, and the runner that applies and reverts them.

  The database is a parameter: the two functions a runner is made of. The embedded directory is
  an argument too, so that everything below holds for any set of migration files.
\<close>

section \<open>SQL values\<close>

text \<open>The arguments of a statement and the columns of a row, as the program passes and scans them.\<close>

datatype sql_val =
  is_VText: VText (val_text: string)
| is_VTime: VTime (val_time: instant)
| VBool bool

section \<open>The embedded files\<close>

text \<open>An entry of the directory; reading a file may fail.\<close>

record fs_entry =
  fe_name :: string
  fe_isDir :: bool
  fe_content :: "string + string"

record Migration =
  mi_Version :: string
  mi_Up :: string
  mi_Down :: string

text \<open>
  One turn of the loop over the entries: \<open>set\<close> stores the content in a migration, which is
  created when its version is new.
\<close>

definition put_file ::
    "(string \<Rightarrow> Migration \<Rightarrow> Migration) \<Rightarrow> string \<Rightarrow> fs_entry \<Rightarrow> (string \<times> Migration) list
      \<Rightarrow> string + (string \<times> Migration) list" where
  "put_file put version f byVersion =
     (case fe_content f of
        Inl err \<Rightarrow> Inl err
      | Inr b \<Rightarrow>
          (let m = (case map_of byVersion version of None \<Rightarrow> \<lparr>mi_Version = version, mi_Up = [], mi_Down = []\<rparr> | Some m \<Rightarrow> m)
           in Inr (AList.update version (put b m) byVersion)))"

definition add_file :: "fs_entry \<Rightarrow> (string \<times> Migration) list \<Rightarrow> string + (string \<times> Migration) list" where
  "add_file f byVersion =
     (if fe_isDir f then Inr byVersion
      else if HasSuffix (fe_name f) ''_up.sql'' then
        put_file (\<lambda>b m. m\<lparr>mi_Up := b\<rparr>) (TrimSuffix (fe_name f) ''_up.sql'') f byVersion
      else if HasSuffix (fe_name f) ''_down.sql'' then
        put_file (\<lambda>b m. m\<lparr>mi_Down := b\<rparr>) (TrimSuffix (fe_name f) ''_down.sql'') f byVersion
      else Inr byVersion)"

fun add_files :: "fs_entry list \<Rightarrow> (string \<times> Migration) list \<Rightarrow> string + (string \<times> Migration) list" where
  "add_files [] byVersion = Inr byVersion"
| "add_files (f # fs) byVersion = (case add_file f byVersion of Inl err \<Rightarrow> Inl err | Inr m \<Rightarrow> add_files fs m)"

fun complete_all :: "(string \<times> Migration) list \<Rightarrow> string list \<Rightarrow> string + Migration list" where
  "complete_all byVersion [] = Inr []"
| "complete_all byVersion (v # vs) =
     (case map_of byVersion v of
        None \<Rightarrow> complete_all byVersion vs
      | Some m \<Rightarrow>
          if mi_Up m = [] \<or> mi_Down m = [] then Inl (''migrations: version '' @ v @ '' missing up or down'')
          else (case complete_all byVersion vs of Inl err \<Rightarrow> Inl err | Inr ms \<Rightarrow> Inr (m # ms)))"

text \<open>\<open>dir\<close> is the result of reading the embedded directory. Every version of the loop is a key of the map.\<close>

definition All_migrations :: "string + fs_entry list \<Rightarrow> string + Migration list" where
  "All_migrations dir =
     (case dir of
        Inl err \<Rightarrow> Inl err
      | Inr entries \<Rightarrow>
          (case add_files entries [] of
             Inl err \<Rightarrow> Inl err
           | Inr byVersion \<Rightarrow> complete_all byVersion (sort (map fst byVersion))))"

section \<open>The runner\<close>

type_synonym 'p exec_func = "string \<Rightarrow> sql_val list \<Rightarrow> 'p \<times> env \<Rightarrow> string option \<times> 'p \<times> env"
type_synonym 'p query_func = "string \<Rightarrow> 'p \<Rightarrow> string + bool"

record 'p Runner =
  rn_exec :: "'p exec_func"
  rn_query :: "'p query_func option"

definition NewRunner :: "'p exec_func \<Rightarrow> 'p query_func option \<Rightarrow> 'p Runner" where
  "NewRunner exec query = \<lparr>rn_exec = exec, rn_query = query\<rparr>"

text \<open>The statements, with the line breaks and tabs of the source.\<close>

definition new_line :: "nat \<Rightarrow> string" where
  "new_line tabs = CHR 0x0A # replicate tabs (CHR 0x09)"

definition create_versions :: string where
  "create_versions = ''CREATE TABLE IF NOT EXISTS schema_migrations ('' @ new_line 2 @
     ''version TEXT PRIMARY KEY,'' @ new_line 2 @
     ''applied_at TIMESTAMPTZ NOT NULL DEFAULT now()'' @ new_line 1 @ '')''"

definition insert_version :: string where
  "insert_version = ''INSERT INTO schema_migrations(version, applied_at) VALUES ($1, $2) ON CONFLICT (version) DO NOTHING''"

definition delete_version :: string where
  "delete_version = ''DELETE FROM schema_migrations WHERE version=$1''"

text \<open>Without a query function nothing counts as applied when going up, everything when going down.\<close>

definition is_applied :: "'p Runner \<Rightarrow> bool \<Rightarrow> string \<Rightarrow> 'p \<Rightarrow> string + bool" where
  "is_applied r without version p = (case rn_query r of None \<Rightarrow> Inr without | Some f \<Rightarrow> f version p)"

fun up_all :: "'p Runner \<Rightarrow> Migration list \<Rightarrow> 'p \<times> env \<Rightarrow> string option \<times> 'p \<times> env" where
  "up_all r [] pe = (None, pe)"
| "up_all r (m # ms) (p0, e0) =
     (case is_applied r False (mi_Version m) p0 of
        Inl err \<Rightarrow> (Some err, p0, e0)
      | Inr True \<Rightarrow> up_all r ms (p0, e0)
      | Inr False \<Rightarrow>
          (case rn_exec r (mi_Up m) [] (p0, e0) of
             (Some err, pe) \<Rightarrow> (Some (''migrations: apply '' @ mi_Version m @ '': '' @ err), pe)
           | (None, p1, e1) \<Rightarrow>
               (let (now, e2) = time_Now e1 in
                case rn_exec r insert_version [VText (mi_Version m), VTime now] (p1, e2) of
                  (Some err, pe) \<Rightarrow> (Some (''migrations: record '' @ mi_Version m @ '': '' @ err), pe)
                | (None, pe) \<Rightarrow> up_all r ms pe)))"

definition Runner_Up :: "string + fs_entry list \<Rightarrow> 'p Runner \<Rightarrow> 'p \<times> env \<Rightarrow> string option \<times> 'p \<times> env" where
  "Runner_Up dir r pe0 =
     (case rn_exec r create_versions [] pe0 of
        (Some err, pe) \<Rightarrow> (Some (''migrations: create schema_migrations: '' @ err), pe)
      | (None, pe) \<Rightarrow>
          (case All_migrations dir of
             Inl err \<Rightarrow> (Some err, pe)
           | Inr migs \<Rightarrow> up_all r migs pe))"

text \<open>The loop of \<open>Down\<close> runs over the migrations from the last to the first.\<close>

fun down_all :: "'p Runner \<Rightarrow> Migration list \<Rightarrow> 'p \<times> env \<Rightarrow> string option \<times> 'p \<times> env" where
  "down_all r [] pe = (None, pe)"
| "down_all r (m # ms) (p0, e0) =
     (case is_applied r True (mi_Version m) p0 of
        Inl err \<Rightarrow> (Some err, p0, e0)
      | Inr False \<Rightarrow> down_all r ms (p0, e0)
      | Inr True \<Rightarrow>
          (case rn_exec r (mi_Down m) [] (p0, e0) of
             (Some err, pe) \<Rightarrow> (Some (''migrations: revert '' @ mi_Version m @ '': '' @ err), pe)
           | (None, pe) \<Rightarrow>
               (case rn_exec r delete_version [VText (mi_Version m)] pe of
                  (Some err, pe') \<Rightarrow> (Some err, pe')
                | (None, pe') \<Rightarrow> down_all r ms pe')))"

definition Runner_Down :: "string + fs_entry list \<Rightarrow> 'p Runner \<Rightarrow> 'p \<times> env \<Rightarrow> string option \<times> 'p \<times> env" where
  "Runner_Down dir r pe0 =
     (case All_migrations dir of
        Inl err \<Rightarrow> (Some err, pe0)
      | Inr migs \<Rightarrow> down_all r (rev migs) pe0)"

section \<open>The collected migrations\<close>

definition has_file :: "fs_entry list \<Rightarrow> string \<Rightarrow> string \<Rightarrow> bool" where
  "has_file fs name b \<longleftrightarrow> list_ex (\<lambda>f. \<not> fe_isDir f \<and> fe_name f = name \<and> fe_content f = Inr b) fs"

text \<open>What holds of the map while the files are read: every migration is filed under its version and has the contents of its files.\<close>

definition collected :: "fs_entry list \<Rightarrow> (string \<times> Migration) list \<Rightarrow> bool" where
  "collected fs bv \<longleftrightarrow> distinct (map fst bv) \<and> (\<forall>v m. map_of bv v = Some m \<longrightarrow> mi_Version m = v
     \<and> (mi_Up m \<noteq> [] \<longrightarrow> has_file fs (v @ ''_up.sql'') (mi_Up m))
     \<and> (mi_Down m \<noteq> [] \<longrightarrow> has_file fs (v @ ''_down.sql'') (mi_Down m)))"

lemma put_file_collected:
  assumes "collected fs bv" "put_file put v f bv = Inr bv'"
    and "\<And>m b. fe_content f = Inr b \<Longrightarrow> mi_Version (put b m) = mi_Version m"
    and "\<And>m b. fe_content f = Inr b \<Longrightarrow> mi_Up (put b m) = mi_Up m \<or> has_file fs (v @ ''_up.sql'') (mi_Up (put b m))"
    and "\<And>m b. fe_content f = Inr b \<Longrightarrow> mi_Down (put b m) = mi_Down m \<or> has_file fs (v @ ''_down.sql'') (mi_Down (put b m))"
  shows "collected fs bv'"
proof -
  obtain b where b: "fe_content f = Inr b" using assms(2) by (auto simp: put_file_def split: sum.splits)
  define m where "m = (case map_of bv v of None \<Rightarrow> \<lparr>mi_Version = v, mi_Up = [], mi_Down = []\<rparr> | Some m \<Rightarrow> m)"
  have m: "mi_Version m = v" "mi_Up m \<noteq> [] \<Longrightarrow> has_file fs (v @ ''_up.sql'') (mi_Up m)"
      "mi_Down m \<noteq> [] \<Longrightarrow> has_file fs (v @ ''_down.sql'') (mi_Down m)"
    using assms(1) by (cases "map_of bv v"; simp add: m_def collected_def)+
  have "bv' = AList.update v (put b m) bv" using assms(2) by (simp add: put_file_def b m_def Let_def)
  then show ?thesis using assms(1) m assms(3-5) [OF b, of m]
    by (auto simp: collected_def distinct_update update_conv')
qed

lemma add_file_collected:
  assumes "collected fs bv" "add_file f bv = Inr bv'" "f \<in> set fs"
  shows "collected fs bv'"
proof -
  have here: "\<not> fe_isDir f \<Longrightarrow> fe_name f = name \<Longrightarrow> fe_content f = Inr b \<Longrightarrow> has_file fs name b" for name b
    using assms(3) by (auto simp: has_file_def list_ex_iff)
  have "fe_name f = v @ suf" if "HasSuffix (fe_name f) suf" "v = TrimSuffix (fe_name f) suf" for v suf
    using that by (auto simp: HasSuffix_iff)
  with assms show ?thesis
    by (auto simp: add_file_def split: if_splits elim!: put_file_collected intro!: here)
qed

lemma add_files_collected:
  "collected fs bv \<Longrightarrow> add_files gs bv = Inr bv' \<Longrightarrow> set gs \<subseteq> set fs \<Longrightarrow> collected fs bv'"
  by (induction gs arbitrary: bv) (auto split: sum.splits dest: add_file_collected)

lemma complete_all_versions:
  assumes "collected fs bv" "complete_all bv vs = Inr ms" "set vs \<subseteq> fst ` set bv"
  shows "map mi_Version ms = vs \<and> list_all (\<lambda>m. mi_Up m \<noteq> [] \<and> mi_Down m \<noteq> []
    \<and> has_file fs (mi_Version m @ ''_up.sql'') (mi_Up m) \<and> has_file fs (mi_Version m @ ''_down.sql'') (mi_Down m)) ms"
  using assms(2,3)
proof (induction vs arbitrary: ms)
  case Nil
  then show ?case by simp
next
  case (Cons v vs)
  then obtain m where m: "map_of bv v = Some m" by (cases "map_of bv v") (auto simp: map_of_eq_None_iff)
  with Cons.prems obtain ms' where ms: "ms = m # ms'" "complete_all bv vs = Inr ms'" "mi_Up m \<noteq> []" "mi_Down m \<noteq> []"
    by (auto split: if_splits sum.splits)
  with Cons.IH [OF ms(2)] Cons.prems(2) m assms(1) show ?case by (auto simp: collected_def)
qed

text \<open>The migrations come in strictly ascending order of their versions, each with the contents of its two files.\<close>

lemma All_migrations_sorted:
  assumes "All_migrations dir = Inr migs"
  obtains fs where "dir = Inr fs" "sorted_wrt (<) (map mi_Version migs)"
    "list_all (\<lambda>m. mi_Up m \<noteq> [] \<and> mi_Down m \<noteq> []
       \<and> has_file fs (mi_Version m @ ''_up.sql'') (mi_Up m) \<and> has_file fs (mi_Version m @ ''_down.sql'') (mi_Down m)) migs"
proof -
  from assms obtain fs bv where fs: "dir = Inr fs" "add_files fs [] = Inr bv"
      "complete_all bv (sort (map fst bv)) = Inr migs"
    by (auto simp: All_migrations_def split: sum.splits)
  have "collected fs []" by (simp add: collected_def)
  then have c: "collected fs bv" by (rule add_files_collected [OF _ fs(2)]) simp
  note v = complete_all_versions [OF c fs(3)]
  have "sorted_wrt (<) (sort (map fst bv))"
    using c by (simp add: strict_sorted_iff collected_def)
  with v fs(1) show thesis by (intro that [of fs]) simp_all
qed

section \<open>Running them\<close>

text \<open>
  What the program relies on of the database: statements do not fail, the query answers from the
  table of versions, and only the two bookkeeping statements change that table. \<open>stmts\<close> is the list of
  statements run, \<open>applied\<close> the table.
\<close>

definition version_effect :: "string \<Rightarrow> sql_val list \<Rightarrow> string set \<Rightarrow> string set" where
  "version_effect q args S =
     (case args of
        [VText v, VTime t] \<Rightarrow> if q = insert_version then insert v S else S
      | [VText v] \<Rightarrow> if q = delete_version then S - {v} else S
      | _ \<Rightarrow> S)"

definition version_db :: "'p Runner \<Rightarrow> ('p \<Rightarrow> string list) \<Rightarrow> ('p \<Rightarrow> string set) \<Rightarrow> bool" where
  "version_db r stmts applied \<longleftrightarrow>
     rn_query r = Some (\<lambda>v p. Inr (v \<in> applied p))
     \<and> (\<forall>q args p e. \<exists>p' e'. rn_exec r q args (p, e) = (None, p', e')
          \<and> stmts p' = stmts p @ [q] \<and> applied p' = version_effect q args (applied p))"

lemma version_dbE:
  assumes "version_db r stmts applied"
  obtains p' e' where "rn_exec r q args (p, e) = (None, p', e')" "stmts p' = stmts p @ [q]"
    "applied p' = version_effect q args (applied p)"
  using assms unfolding version_db_def by blast

lemma version_db_query [simp]: "version_db r stmts applied \<Longrightarrow> is_applied r w v p = Inr (v \<in> applied p)"
  by (simp add: version_db_def is_applied_def)

lemma up_all_runs:
  assumes "version_db r stmts applied" "distinct (map mi_Version ms)"
  shows "\<exists>p' e'. up_all r ms (p, e) = (None, p', e') \<and> applied p' = applied p \<union> mi_Version ` set ms
    \<and> stmts p' = stmts p @ concat (map (\<lambda>m. [mi_Up m, insert_version]) (filter (\<lambda>m. mi_Version m \<notin> applied p) ms))"
  using assms(2)
proof (induction ms arbitrary: p e)
  case Nil
  then show ?case by simp
next
  case (Cons m ms)
  show ?case
  proof (cases "mi_Version m \<in> applied p")
    case True
    with Cons assms(1) show ?thesis by (fastforce simp: insert_absorb)
  next
    case False
    obtain p1 e1 where 1: "rn_exec r (mi_Up m) [] (p, e) = (None, p1, e1)" "stmts p1 = stmts p @ [mi_Up m]" "applied p1 = applied p"
      using version_dbE [OF assms(1), of "mi_Up m" "[]" p e] by (auto simp: version_effect_def)
    obtain now e2 where now: "time_Now e1 = (now, e2)" by (metis surj_pair)
    obtain p3 e3 where 3: "rn_exec r insert_version [VText (mi_Version m), VTime now] (p1, e2) = (None, p3, e3)"
        "stmts p3 = stmts p1 @ [insert_version]" "applied p3 = insert (mi_Version m) (applied p1)"
      using version_dbE [OF assms(1), of insert_version "[VText (mi_Version m), VTime now]" p1 e2]
      by (auto simp: version_effect_def)
    have "mi_Version k \<noteq> mi_Version m" if "k \<in> set ms" for k
      using Cons.prems imageI [OF that, of mi_Version] by auto
    then have rest: "filter (\<lambda>k. mi_Version k \<notin> applied p3) ms = filter (\<lambda>k. mi_Version k \<notin> applied p) ms"
      by (intro filter_cong) (auto simp: 1 3)
    from Cons.IH [of p3 e3] Cons.prems show ?thesis unfolding rest
      using assms(1) False 1 3 now by auto
  qed
qed

lemma down_all_runs:
  assumes "version_db r stmts applied" "distinct (map mi_Version ms)"
  shows "\<exists>p' e'. down_all r ms (p, e) = (None, p', e') \<and> applied p' = applied p - mi_Version ` set ms
    \<and> stmts p' = stmts p @ concat (map (\<lambda>m. [mi_Down m, delete_version]) (filter (\<lambda>m. mi_Version m \<in> applied p) ms))"
  using assms(2)
proof (induction ms arbitrary: p e)
  case Nil
  then show ?case by simp
next
  case (Cons m ms)
  show ?case
  proof (cases "mi_Version m \<in> applied p")
    case False
    with Cons assms(1) show ?thesis by fastforce
  next
    case True
    obtain p1 e1 where 1: "rn_exec r (mi_Down m) [] (p, e) = (None, p1, e1)" "stmts p1 = stmts p @ [mi_Down m]" "applied p1 = applied p"
      using version_dbE [OF assms(1), of "mi_Down m" "[]" p e] by (auto simp: version_effect_def)
    obtain p3 e3 where 3: "rn_exec r delete_version [VText (mi_Version m)] (p1, e1) = (None, p3, e3)"
        "stmts p3 = stmts p1 @ [delete_version]" "applied p3 = applied p1 - {mi_Version m}"
      using version_dbE [OF assms(1), of delete_version "[VText (mi_Version m)]" p1 e1]
      by (auto simp: version_effect_def)
    have "mi_Version k \<noteq> mi_Version m" if "k \<in> set ms" for k
      using Cons.prems imageI [OF that, of mi_Version] by auto
    then have rest: "filter (\<lambda>k. mi_Version k \<in> applied p3) ms = filter (\<lambda>k. mi_Version k \<in> applied p) ms"
      by (intro filter_cong) (auto simp: 1 3)
    from Cons.IH [of p3 e3] Cons.prems show ?thesis unfolding rest
      using assms(1) True 1 3 by auto
  qed
qed

section \<open>Properties\<close>

text \<open>
  C18. Migrations up and down. On a database that keeps the table of versions, for every
  set of migration files that is complete: \<open>Up\<close> succeeds and runs the scripts of exactly those
  migrations that were not yet applied, in ascending order of their versions, each followed by
  its record; a second \<open>Up\<close> runs no script; and \<open>Down\<close> then runs the reverting scripts of all
  migrations in the opposite order and leaves none of them applied.
\<close>

theorem migrations_up_down:
  fixes p :: 'p
  assumes "version_db r stmts applied" "All_migrations dir = Inr migs"
  shows "sorted_wrt (<) (map mi_Version migs)
    \<and> (\<exists>p1 e1 p2 e2 p3 e3.
        Runner_Up dir r (p, e) = (None, p1, e1)
        \<and> applied p1 = applied p \<union> mi_Version ` set migs
        \<and> stmts p1 = stmts p @ create_versions #
             concat (map (\<lambda>m. [mi_Up m, insert_version]) (filter (\<lambda>m. mi_Version m \<notin> applied p) migs))
        \<and> Runner_Up dir r (p1, e1) = (None, p2, e2)
        \<and> applied p2 = applied p1 \<and> stmts p2 = stmts p1 @ [create_versions]
        \<and> Runner_Down dir r (p2, e2) = (None, p3, e3)
        \<and> applied p3 = applied p - mi_Version ` set migs
        \<and> stmts p3 = stmts p2 @ concat (map (\<lambda>m. [mi_Down m, delete_version]) (rev migs)))"
proof -
  from assms(2) have sorted: "sorted_wrt (<) (map mi_Version migs)" by (rule All_migrations_sorted)
  then have d: "distinct (map mi_Version migs)" "distinct (map mi_Version (rev migs))"
    by (simp_all add: strict_sorted_iff rev_map [symmetric])
  have up: "\<exists>p1 e1. Runner_Up dir r (p, e) = (None, p1, e1) \<and> applied p1 = applied p \<union> mi_Version ` set migs
      \<and> stmts p1 = stmts p @ create_versions #
          concat (map (\<lambda>m. [mi_Up m, insert_version]) (filter (\<lambda>m. mi_Version m \<notin> applied p) migs))" for p :: 'p and e
  proof -
    obtain p' e' where c: "rn_exec r create_versions [] (p, e) = (None, p', e')" "stmts p' = stmts p @ [create_versions]"
        "applied p' = applied p"
      using version_dbE [OF assms(1), of create_versions "[]" p e] by (auto simp: version_effect_def)
    from up_all_runs [OF assms(1) d(1), of p' e'] c show ?thesis by (auto simp: Runner_Up_def assms(2))
  qed
  obtain p1 e1 where 1: "Runner_Up dir r (p, e) = (None, p1, e1)" "applied p1 = applied p \<union> mi_Version ` set migs"
      "stmts p1 = stmts p @ create_versions #
          concat (map (\<lambda>m. [mi_Up m, insert_version]) (filter (\<lambda>m. mi_Version m \<notin> applied p) migs))"
    using up by blast
  have none: "filter (\<lambda>m. mi_Version m \<notin> applied p1) migs = []" by (auto simp: 1 filter_empty_conv)
  obtain p2 e2 where 2: "Runner_Up dir r (p1, e1) = (None, p2, e2)" "applied p2 = applied p1" "stmts p2 = stmts p1 @ [create_versions]"
    using up [of p1 e1] unfolding none by (auto simp: 1)
  have every: "filter (\<lambda>m. mi_Version m \<in> applied p2) (rev migs) = rev migs" by (auto simp: 1 2 filter_id_conv)
  obtain p3 e3 where "Runner_Down dir r (p2, e2) = (None, p3, e3)" "applied p3 = applied p - mi_Version ` set migs"
      "stmts p3 = stmts p2 @ concat (map (\<lambda>m. [mi_Down m, delete_version]) (rev migs))"
    using down_all_runs [OF assms(1) d(2), of p2 e2] unfolding every by (auto simp: Runner_Down_def assms(2) 1 2)
  with sorted 1 2 show ?thesis by blast
qed

text \<open>The two files of the repository with short contents, and a database that is its own log.\<close>

definition example_dir :: "string + fs_entry list" where
  "example_dir = Inr
     [\<lparr>fe_name = ''0001_init_down.sql'', fe_isDir = False, fe_content = Inr ''DROP TABLE orders''\<rparr>,
      \<lparr>fe_name = ''0001_init_up.sql'', fe_isDir = False, fe_content = Inr ''CREATE TABLE orders''\<rparr>]"

definition log_runner :: "(string list \<times> string set) Runner" where
  "log_runner = NewRunner (\<lambda>q args ((ss, S), e). (None, (ss @ [q], version_effect q args S), e))
     (Some (\<lambda>v p. Inr (v \<in> snd p)))"

lemma example_dir_migrations:
  "All_migrations example_dir =
     Inr [\<lparr>mi_Version = ''0001_init'', mi_Up = ''CREATE TABLE orders'', mi_Down = ''DROP TABLE orders''\<rparr>]"
  by code_simp

theorem migrations_up_down_witness:
  "\<exists>p1 e1. Runner_Up example_dir log_runner (([], {}), fixed_env) = (None, p1, e1)
     \<and> p1 = ([create_versions, ''CREATE TABLE orders'', insert_version], {''0001_init''})"
proof -
  have "version_db log_runner fst snd" by (auto simp: version_db_def log_runner_def NewRunner_def)
  from migrations_up_down [OF this example_dir_migrations, of "([], {})" fixed_env] show ?thesis
    by (auto simp: prod_eq_iff)
qed

end
