(* ===== verification/Postgres.thy ===== *)
theory Postgres
  imports Store Migrations "HOL-Library.Multiset"
begin

text \<open>
  The PostgreSQL store of \<open>internal/store/postgres/postgres.go\<close>. The connection pool is the
  library \<open>pgx\<close>, which is not part of the program, and the server behind it neither: the record
  of the pool's operations is an argument, over a state \<open>'p\<close>. The program's side is modelled down to the
  text of its statements and the order of their arguments and columns.
\<close>

section \<open>The pool\<close>

text \<open>
  \<open>pool_Exec\<close> returns the number of affected rows; \<open>pool_Query\<close> the rows it delivered and the error
  that ended the delivery; \<open>pool_QueryRow\<close> the one row it scans; \<open>pool_ScanErr\<close> is the wording of
  a failed scan.
\<close>

record 'p pgxpool =
  pool_New :: "string \<Rightarrow> env \<Rightarrow> (string + 'p) \<times> env"
  pool_Ping :: "'p \<times> env \<Rightarrow> string option \<times> 'p \<times> env"
  pool_Close :: "'p \<times> env \<Rightarrow> 'p \<times> env"
  pool_Exec :: "string \<Rightarrow> sql_val list \<Rightarrow> 'p \<times> env \<Rightarrow> (string + int) \<times> 'p \<times> env"
  pool_Query :: "string \<Rightarrow> sql_val list \<Rightarrow> 'p \<Rightarrow> string + sql_val list list \<times> string option"
  pool_QueryRow :: "string \<Rightarrow> sql_val list \<Rightarrow> 'p \<Rightarrow> string + sql_val list"
  pool_ScanErr :: "sql_val list \<Rightarrow> string"

section \<open>Opening the store\<close>

definition exists_version :: string where
  "exists_version = ''SELECT EXISTS(SELECT 1 FROM schema_migrations WHERE version=$1)''"

definition migration_runner :: "'p pgxpool \<Rightarrow> 'p Runner" where
  "migration_runner P = NewRunner
     (\<lambda>q args pe. case pool_Exec P q args pe of (Inl err, pe') \<Rightarrow> (Some err, pe') | (Inr n, pe') \<Rightarrow> (None, pe'))
     (Some (\<lambda>version p.
        case pool_QueryRow P exists_version [VText version] p of
          Inl err \<Rightarrow> Inl err
        | Inr row \<Rightarrow> (case row of [VBool b] \<Rightarrow> Inr b | _ \<Rightarrow> Inl (pool_ScanErr P row))))"

definition Postgres_Open :: "string + fs_entry list \<Rightarrow> 'p pgxpool \<Rightarrow> string \<Rightarrow> env \<Rightarrow> (string + 'p) \<times> env" where
  "Postgres_Open dir P dsn e0 =
     (case pool_New P dsn e0 of
        (Inl err, e1) \<Rightarrow> (Inl err, e1)
      | (Inr p, e1) \<Rightarrow>
          (case pool_Ping P (p, e1) of
             (Some err, pe) \<Rightarrow> (Inl err, snd (pool_Close P pe))
           | (None, pe) \<Rightarrow>
               (case Runner_Up dir (migration_runner P) pe of
                  (Some err, pe') \<Rightarrow> (Inl (''migrate: '' @ err), snd (pool_Close P pe'))
                | (None, p', e') \<Rightarrow> (Inr p', e'))))"

definition Postgres_Close :: "'p pgxpool \<Rightarrow> 'p \<times> env \<Rightarrow> string option \<times> 'p \<times> env" where
  "Postgres_Close P pe = (None, pool_Close P pe)"

definition Postgres_Ping :: "'p pgxpool \<Rightarrow> 'p \<times> env \<Rightarrow> string option \<times> 'p \<times> env" where
  "Postgres_Ping P pe = pool_Ping P pe"

section \<open>Orders\<close>

definition insert_order :: string where
  "insert_order = ''INSERT INTO orders'' @ new_line 1 @
     ''(venue_order_id, client_order_id, venue, pair, side, order_type, status, filled_qty, avg_price, quantity, price, created_at, updated_at)'' @
     new_line 1 @ ''VALUES ($1,$2,$3,$4,$5,$6,$7,$8,$9,$10,$11,$12,$13)'' @ new_line 1 @
     ''ON CONFLICT (venue, client_order_id) DO NOTHING''"

definition order_args :: "'d decimal_ops \<Rightarrow> 'd store_Order \<Rightarrow> sql_val list" where
  "order_args D x =
     [VText (so_VenueOrderID x), VText (so_ClientOrderID x), VText (so_Venue x), VText (so_Pair x),
      VText (so_Side x), VText (so_OrderType x), VText (so_Status x),
      VText (d_String D (so_FilledQty x)), VText (d_String D (so_AvgPrice x)),
      VText (d_String D (so_Quantity x)), VText (d_String D (so_Price x)),
      VTime (so_CreatedAt x), VTime (so_UpdatedAt x)]"

definition Postgres_RecordOrder ::
    "'p pgxpool \<Rightarrow> 'd decimal_ops \<Rightarrow> 'd store_Order \<Rightarrow> 'p \<times> env \<Rightarrow> (string + bool) \<times> 'p \<times> env" where
  "Postgres_RecordOrder P D o0 = (\<lambda>(p0, e0).
     (let (o1, e1) = (if time_IsZero (so_CreatedAt o0)
                      then (let (now, e') = time_Now e0 in (o0\<lparr>so_CreatedAt := now\<rparr>, e'))
                      else (o0, e0));
          (now2, e2) = time_Now e1;
          o2 = o1\<lparr>so_UpdatedAt := now2\<rparr>
      in case pool_Exec P insert_order (order_args D o2) (p0, e2) of
           (Inl err, pe) \<Rightarrow> (Inl err, pe)
         | (Inr n, pe) \<Rightarrow> (Inr (n > 0), pe)))"

definition orderSelectSQL :: string where
  "orderSelectSQL = ''SELECT venue_order_id, client_order_id, venue, pair, side, order_type, status, filled_qty, avg_price, quantity, price, created_at, updated_at FROM orders''"

text \<open>\<open>decimal.NewFromString\<close> with its error ignored.\<close>

definition scan_decimal :: "'d decimal_ops \<Rightarrow> sql_val \<Rightarrow> 'd" where
  "scan_decimal D v = fst (d_NewFromString D (val_text v))"

text \<open>A scan needs a column of the right kind for each variable.\<close>

definition scanOrder :: "'p pgxpool \<Rightarrow> 'd decimal_ops \<Rightarrow> string + sql_val list \<Rightarrow> string + 'd store_Order" where
  "scanOrder P D r =
     (case r of
        Inl err \<Rightarrow> Inl err
      | Inr row \<Rightarrow>
          if length row = 13 \<and> list_all is_VText (take 11 row) \<and> list_all is_VTime (drop 11 row) then
            Inr \<lparr>so_VenueOrderID = val_text (row ! 0), so_ClientOrderID = val_text (row ! 1), so_Venue = val_text (row ! 2),
                 so_Pair = val_text (row ! 3), so_Side = val_text (row ! 4), so_OrderType = val_text (row ! 5),
                 so_Status = val_text (row ! 6), so_FilledQty = scan_decimal D (row ! 7),
                 so_AvgPrice = scan_decimal D (row ! 8), so_Quantity = scan_decimal D (row ! 9),
                 so_Price = scan_decimal D (row ! 10), so_CreatedAt = val_time (row ! 11), so_UpdatedAt = val_time (row ! 12)\<rparr>
          else Inl (pool_ScanErr P row))"

definition select_order :: string where
  "select_order = orderSelectSQL @ '' WHERE client_order_id=$1''"

definition Postgres_GetOrderByClientID ::
    "'p pgxpool \<Rightarrow> 'd decimal_ops \<Rightarrow> string \<Rightarrow> 'p \<Rightarrow> 'd store_Order option" where
  "Postgres_GetOrderByClientID P D clientOrderID p =
     (case scanOrder P D (pool_QueryRow P select_order [VText clientOrderID] p) of Inl err \<Rightarrow> None | Inr x \<Rightarrow> Some x)"

section \<open>Fills\<close>

definition insert_fill :: string where
  "insert_fill = ''INSERT INTO fills'' @ new_line 1 @
     ''(venue_order_id, trade_id, venue, pair, price, quantity, fee, fee_asset, ts)'' @ new_line 1 @
     ''VALUES ($1,$2,$3,$4,$5,$6,$7,$8,$9)'' @ new_line 1 @ ''ON CONFLICT (venue, trade_id) DO NOTHING''"

definition fill_args :: "'d decimal_ops \<Rightarrow> 'd store_Fill \<Rightarrow> sql_val list" where
  "fill_args D f =
     [VText (sf_VenueOrderID f), VText (sf_TradeID f), VText (sf_Venue f), VText (sf_Pair f),
      VText (d_String D (sf_Price f)), VText (d_String D (sf_Quantity f)), VText (d_String D (sf_Fee f)),
      VText (sf_FeeAsset f), VTime (sf_Timestamp f)]"

definition Postgres_RecordFill ::
    "'p pgxpool \<Rightarrow> 'd decimal_ops \<Rightarrow> 'd store_Fill \<Rightarrow> 'p \<times> env \<Rightarrow> (string + bool) \<times> 'p \<times> env" where
  "Postgres_RecordFill P D f0 = (\<lambda>(p0, e0).
     (let (f1, e1) = (if time_IsZero (sf_Timestamp f0)
                      then (let (now, e') = time_Now e0 in (f0\<lparr>sf_Timestamp := now\<rparr>, e'))
                      else (f0, e0))
      in case pool_Exec P insert_fill (fill_args D f1) (p0, e1) of
           (Inl err, pe) \<Rightarrow> (Inl err, pe)
         | (Inr n, pe) \<Rightarrow> (Inr (n > 0), pe)))"

definition select_fills :: string where
  "select_fills = ''SELECT venue_order_id, trade_id, venue, pair, price, quantity, fee, fee_asset, ts FROM fills WHERE venue_order_id=$1 ORDER BY ts ASC''"

definition scanFill :: "'p pgxpool \<Rightarrow> 'd decimal_ops \<Rightarrow> sql_val list \<Rightarrow> string + 'd store_Fill" where
  "scanFill P D row =
     (if length row = 9 \<and> list_all is_VText (take 8 row) \<and> list_all is_VTime (drop 8 row) then
        Inr \<lparr>sf_VenueOrderID = val_text (row ! 0), sf_TradeID = val_text (row ! 1), sf_Venue = val_text (row ! 2),
             sf_Pair = val_text (row ! 3), sf_Price = scan_decimal D (row ! 4), sf_Quantity = scan_decimal D (row ! 5),
             sf_Fee = scan_decimal D (row ! 6), sf_FeeAsset = val_text (row ! 7), sf_Timestamp = val_time (row ! 8)\<rparr>
      else Inl (pool_ScanErr P row))"

fun scan_fills :: "'p pgxpool \<Rightarrow> 'd decimal_ops \<Rightarrow> sql_val list list \<Rightarrow> string + 'd store_Fill list" where
  "scan_fills P D [] = Inr []"
| "scan_fills P D (row # rows) =
     (case scanFill P D row of
        Inl err \<Rightarrow> Inl err
      | Inr f \<Rightarrow> (case scan_fills P D rows of Inl err \<Rightarrow> Inl err | Inr fs \<Rightarrow> Inr (f # fs)))"

text \<open>An error that ends the rows is returned together with the fills read so far; a caller sees the error.\<close>

definition Postgres_FillsForOrder ::
    "'p pgxpool \<Rightarrow> 'd decimal_ops \<Rightarrow> string \<Rightarrow> 'p \<Rightarrow> string + 'd store_Fill list" where
  "Postgres_FillsForOrder P D venueOrderID p =
     (case pool_Query P select_fills [VText venueOrderID] p of
        Inl err \<Rightarrow> Inl err
      | Inr (rows, rowsErr) \<Rightarrow>
          (case scan_fills P D rows of
             Inl err \<Rightarrow> Inl err
           | Inr out \<Rightarrow> (case rowsErr of None \<Rightarrow> Inr out | Some err \<Rightarrow> Inl err)))"

definition Postgres_ops :: "'p pgxpool \<Rightarrow> 'd decimal_ops \<Rightarrow> ('p, 'd) Store_ops" where
  "Postgres_ops P D =
     \<lparr>RecordOrder = Postgres_RecordOrder P D, GetOrderByClientID = Postgres_GetOrderByClientID P D,
      RecordFill = Postgres_RecordFill P D, FillsForOrder = Postgres_FillsForOrder P D\<rparr>"

section \<open>What the server does with the two tables\<close>

text \<open>
  The documented behaviour of PostgreSQL the store relies on, for the schema of
  \<open>0001_init_up.sql\<close>. \<open>orders\<close> and \<open>fills\<close> give the rows of the two tables, as the program's
  statements order their columns. An insertion that meets its conflict target does nothing;
  one that repeats a primary key fails; timestamps are kept to the microsecond; a selection
  delivers the rows that match, sorted when it asks for it.
\<close>

fun stored_val :: "sql_val \<Rightarrow> sql_val" where
  "stored_val (VTime t) = VTime (1000 * (t div 1000))"
| "stored_val v = v"

definition has_columns :: "(nat \<times> sql_val) list \<Rightarrow> sql_val list list \<Rightarrow> bool" where
  "has_columns cs rows \<longleftrightarrow> list_ex (\<lambda>row. list_all (\<lambda>(i, v). row ! i = v) cs) rows"

definition orders_table :: "'p pgxpool \<Rightarrow> ('p \<Rightarrow> sql_val list list) \<Rightarrow> bool" where
  "orders_table P orders \<longleftrightarrow>
     (\<forall>args p e. length args = 13 \<longrightarrow> (\<exists>r p' e'. pool_Exec P insert_order args (p, e) = (r, p', e') \<and>
        (if has_columns [(2, args ! 2), (1, args ! 1)] (orders p) then r = Inr 0 \<and> orders p' = orders p
         else if has_columns [(0, args ! 0)] (orders p) then (\<exists>err. r = Inl err) \<and> orders p' = orders p
         else r = Inr 1 \<and> orders p' = orders p @ [map stored_val args])))
     \<and> (\<forall>c p. if has_columns [(1, VText c)] (orders p)
        then \<exists>row. pool_QueryRow P select_order [VText c] p = Inr row \<and> row \<in> set (orders p) \<and> row ! 1 = VText c
        else \<exists>err. pool_QueryRow P select_order [VText c] p = Inl err)"

definition fills_table :: "'p pgxpool \<Rightarrow> ('p \<Rightarrow> sql_val list list) \<Rightarrow> bool" where
  "fills_table P fills \<longleftrightarrow>
     (\<forall>args p e. length args = 9 \<longrightarrow> (\<exists>r p' e'. pool_Exec P insert_fill args (p, e) = (r, p', e') \<and>
        (if has_columns [(2, args ! 2), (1, args ! 1)] (fills p) then r = Inr 0 \<and> fills p' = fills p
         else r = Inr 1 \<and> fills p' = fills p @ [map stored_val args])))
     \<and> (\<forall>v p. \<exists>rows. pool_Query P select_fills [VText v] p = Inr (rows, None)
        \<and> mset rows = mset (filter (\<lambda>row. row ! 0 = VText v) (fills p))
        \<and> sorted (map (\<lambda>row. val_time (row ! 8)) rows))"

text \<open>Decimals survive being written and read back.\<close>

definition decimal_text :: "'d decimal_ops \<Rightarrow> bool" where
  "decimal_text D \<longleftrightarrow> (\<forall>x. fst (d_NewFromString D (d_String D x)) = x)"

section \<open>Rows and records\<close>

definition order_row :: "'d decimal_ops \<Rightarrow> 'd store_Order \<Rightarrow> sql_val list \<Rightarrow> bool" where
  "order_row D x row \<longleftrightarrow> (\<exists>y. same_order x y \<and> row = map stored_val (order_args D y))"

definition fill_row :: "'d decimal_ops \<Rightarrow> 'd store_Fill \<Rightarrow> sql_val list \<Rightarrow> bool" where
  "fill_row D f row \<longleftrightarrow> (\<exists>g. same_fill f g \<and> row = map stored_val (fill_args D g))"

lemma same_order_fields:
  "same_order x y \<Longrightarrow> so_VenueOrderID y = so_VenueOrderID x \<and> so_ClientOrderID y = so_ClientOrderID x \<and> so_Venue y = so_Venue x"
  by (cases x; cases y) (simp add: same_order_def)

lemma same_order_refl [simp]: "same_order x x" by (simp add: same_order_def)

lemma same_order_sym: "same_order x y \<Longrightarrow> same_order y x" by (simp add: same_order_def)

lemma same_order_trans [trans]: "same_order x y \<Longrightarrow> same_order y z \<Longrightarrow> same_order x z" by (simp add: same_order_def)

lemma same_order_stamps [simp]:
  "same_order x (y\<lparr>so_CreatedAt := t\<rparr>) = same_order x y"
  "same_order x (y\<lparr>so_UpdatedAt := u\<rparr>) = same_order x y"
  by (cases y; simp add: same_order_def)+

lemma same_fill_fields:
  "same_fill f g \<Longrightarrow> sf_VenueOrderID g = sf_VenueOrderID f \<and> fill_key g = fill_key f"
  by (cases f; cases g) (simp add: same_fill_def fill_key_def)

lemma order_row_columns:
  assumes "order_row D x row"
  shows "row ! 0 = VText (so_VenueOrderID x)" "row ! 1 = VText (so_ClientOrderID x)" "row ! 2 = VText (so_Venue x)"
  using assms by (auto simp: order_row_def order_args_def dest: same_order_fields)

lemma scanOrder_row:
  assumes "order_row D x row" "decimal_text D"
  shows "\<exists>z. scanOrder P D (Inr row) = Inr z \<and> same_order x z"
proof -
  obtain y where y: "same_order x y" "row = map stored_val (order_args D y)" using assms(1) by (auto simp: order_row_def)
  have "scanOrder P D (Inr row) = Inr (y\<lparr>so_CreatedAt := 1000 * (so_CreatedAt y div 1000), so_UpdatedAt := 1000 * (so_UpdatedAt y div 1000)\<rparr>)"
    using assms(2) by (cases y) (simp add: y scanOrder_def order_args_def scan_decimal_def decimal_text_def)
  then show ?thesis using y(1) by simp
qed

lemma fill_row_columns:
  assumes "fill_row D f row"
  shows "row ! 0 = VText (sf_VenueOrderID f)" "row ! 1 = VText (snd (fill_key f))" "row ! 2 = VText (fst (fill_key f))"
  using assms by (auto simp: fill_row_def fill_args_def fill_key_def dest: same_fill_fields)

lemma scanFill_row:
  assumes "fill_row D f row" "decimal_text D"
  shows "\<exists>t. scanFill P D row = Inr (f\<lparr>sf_Timestamp := t\<rparr>) \<and> row ! 8 = VTime t"
proof -
  obtain g where g: "same_fill f g" "row = map stored_val (fill_args D g)" using assms(1) by (auto simp: fill_row_def)
  have "scanFill P D row = Inr (g\<lparr>sf_Timestamp := 1000 * (sf_Timestamp g div 1000)\<rparr>)"
    using assms(2) by (cases g) (simp add: g scanFill_def fill_args_def scan_decimal_def decimal_text_def)
  moreover have "f\<lparr>sf_Timestamp := t\<rparr> = g\<lparr>sf_Timestamp := t\<rparr>" for t
    using g(1) by (cases f; cases g) (simp add: same_fill_def)
  ultimately show ?thesis by (simp add: g(2) fill_args_def)
qed

section \<open>The two stores side by side: orders\<close>

lemma has_columns_orders:
  assumes "list_all2 (order_row D) ys rows"
  shows "has_columns [(2, VText v), (1, VText c)] rows \<longleftrightarrow> list_ex (\<lambda>y. so_Venue y = v \<and> so_ClientOrderID y = c) ys"
    and "has_columns [(0, VText i)] rows \<longleftrightarrow> list_ex (\<lambda>y. so_VenueOrderID y = i) ys"
    and "has_columns [(1, VText c)] rows \<longleftrightarrow> list_ex (\<lambda>y. so_ClientOrderID y = c) ys"
  using assms by (induction rule: list_all2_induct) (auto simp: has_columns_def order_row_columns [simplified])

text \<open>
  The rows of the table are the orders of the map, in some order \<open>ys\<close>, up to the timestamps; all of one
  venue \<open>V\<close> and each one of the set \<open>X\<close> of orders that occur.
\<close>

definition order_sim :: "'d decimal_ops \<Rightarrow> string \<Rightarrow> 'd store_Order set \<Rightarrow> sql_val list list \<Rightarrow> 'd MemStore \<Rightarrow> bool" where
  "order_sim D V X rows s \<longleftrightarrow>
     (\<exists>ys. list_all2 (order_row D) ys rows \<and> distinct (map so_ClientOrderID ys)
        \<and> ms_orders s = map_of (map (\<lambda>y. (so_ClientOrderID y, y)) ys)
        \<and> list_all (\<lambda>y. so_Venue y = V \<and> (\<exists>x \<in> X. same_order x y)) ys)"

text \<open>Two orders with one venue order id are the same order.\<close>

definition venue_ids :: "string \<Rightarrow> 'd store_Order set \<Rightarrow> bool" where
  "venue_ids V X \<longleftrightarrow> (\<forall>x \<in> X. so_Venue x = V \<and> (\<forall>y \<in> X. so_VenueOrderID x = so_VenueOrderID y \<longrightarrow> so_ClientOrderID x = so_ClientOrderID y))"

lemma Postgres_RecordOrder_exec:
  assumes "Postgres_RecordOrder P D x (p, e) = (r, p', e')"
  obtains y e1 n where "same_order x y" "pool_Exec P insert_order (order_args D y) (p, e1) = (n, p', e')"
    "r = (case n of Inl err \<Rightarrow> Inl err | Inr k \<Rightarrow> Inr (k > 0))"
proof -
  define y where "y = (if time_IsZero (so_CreatedAt x)
    then x\<lparr>so_CreatedAt := env_clock e (env_ticks e), so_UpdatedAt := env_clock e (Suc (env_ticks e))\<rparr>
    else x\<lparr>so_UpdatedAt := env_clock e (env_ticks e)\<rparr>)"
  define e1 where "e1 = e\<lparr>env_ticks := Suc (if time_IsZero (so_CreatedAt x) then Suc (env_ticks e) else env_ticks e)\<rparr>"
  obtain n p1 e2 where n: "pool_Exec P insert_order (order_args D y) (p, e1) = (n, p1, e2)" by (metis surj_pair)
  have "(r, p', e') = (case n of Inl err \<Rightarrow> (Inl err, p1, e2) | Inr k \<Rightarrow> (Inr (k > 0), p1, e2))"
    using n unfolding assms [symmetric] by (auto simp: Postgres_RecordOrder_def y_def e1_def time_Now_def Let_def split: sum.splits)
  moreover have "same_order x y" by (simp add: y_def)
  ultimately show thesis using n by (intro that [of y e1 n]) (auto split: sum.splits)
qed

lemma MemStore_RecordOrder_new:
  assumes "ms_orders s (so_ClientOrderID x) = None" "MemStore_RecordOrder x (s, e) = (r, s', e')"
  obtains y where "r = Inr True" "same_order x y" "ms_orders s' = (ms_orders s)(so_ClientOrderID x \<mapsto> y)"
  using mem.record_new [OF assms(1), of e] assms(2) by (auto simp: MemStore_ops_def)

lemma record_order_sim:
  assumes db: "orders_table P orders" and sim: "order_sim D V X (orders p) s" and X: "venue_ids V X" "x \<in> X"
    and pg: "Postgres_RecordOrder P D x (p, e) = (r, p', e')" and mem: "MemStore_RecordOrder x (s, f) = (q, s', f')"
  shows "r = q \<and> order_sim D V X (orders p') s'"
proof -
  obtain ys where ys: "list_all2 (order_row D) ys (orders p)" "distinct (map so_ClientOrderID ys)"
      "ms_orders s = map_of (map (\<lambda>y. (so_ClientOrderID y, y)) ys)" "list_all (\<lambda>y. so_Venue y = V \<and> (\<exists>x \<in> X. same_order x y)) ys"
    using sim by (auto simp: order_sim_def)
  obtain y e1 n where y: "same_order x y" "pool_Exec P insert_order (order_args D y) (p, e1) = (n, p', e')"
      "r = (case n of Inl err \<Rightarrow> Inl err | Inr k \<Rightarrow> Inr (k > 0))"
    using pg by (rule Postgres_RecordOrder_exec)
  have V: "so_Venue x = V" using X unfolding venue_ids_def by blast
  have args: "order_args D y ! 0 = VText (so_VenueOrderID x)" "order_args D y ! 1 = VText (so_ClientOrderID x)"
      "order_args D y ! 2 = VText V" "length (order_args D y) = 13"
    using same_order_fields [OF y(1)] V by (simp_all add: order_args_def)
  note exec = db [unfolded orders_table_def, THEN conjunct1, rule_format, OF args(4), of p e1, unfolded args y(2)]
  have known: "has_columns [(2, VText V), (1, VText (so_ClientOrderID x))] (orders p) \<longleftrightarrow> ms_orders s (so_ClientOrderID x) \<noteq> None"
    using ys(4) unfolding has_columns_orders(1) [OF ys(1)] ys(3) map_of_eq_None_iff
    by (auto simp: list_ex_iff list_all_iff image_image) (metis image_eqI)
  show ?thesis
  proof (cases "ms_orders s (so_ClientOrderID x)")
    case (Some z)
    with known exec y(3) mem sim show ?thesis by (auto simp: MemStore_RecordOrder_def)
  next
    case None
    have "\<not> has_columns [(0, VText (so_VenueOrderID x))] (orders p)"
    proof
      assume "has_columns [(0, VText (so_VenueOrderID x))] (orders p)"
      then obtain z where z: "z \<in> set ys" "so_VenueOrderID z = so_VenueOrderID x"
        unfolding has_columns_orders(2) [OF ys(1)] by (auto simp: list_ex_iff)
      with ys(4) obtain x' where "x' \<in> X" "same_order x' z" by (auto simp: list_all_iff)
      with z X have "so_ClientOrderID z = so_ClientOrderID x" 
        unfolding venue_ids_def by (metis same_order_fields)
      with z None ys(3) show False by (auto simp: map_of_eq_None_iff image_iff)
    qed
    with known exec None have row: "n = Inr 1" "orders p' = orders p @ [map stored_val (order_args D y)]" by auto
    from None mem obtain w where w: "q = Inr True" "same_order x w" "ms_orders s' = (ms_orders s)(so_ClientOrderID x \<mapsto> w)"
      by (rule MemStore_RecordOrder_new)
    have "order_row D w (map stored_val (order_args D y))"
      using w(2) y(1) by (auto simp: order_row_def intro: same_order_sym same_order_trans)
    moreover have "so_ClientOrderID x \<notin> so_ClientOrderID ` set ys" "so_ClientOrderID w = so_ClientOrderID x" "so_Venue w = V"
      using None ys(3) V same_order_fields [OF w(2)] by (auto simp: map_of_eq_None_iff image_iff)
    moreover have "ms_orders s' = map_of (map (\<lambda>y. (so_ClientOrderID y, y)) (ys @ [w]))"
      using calculation(2,3) by (simp add: w(3) ys(3) map_add_upd_left dom_map_of_conv_image_fst image_image)
    ultimately have "order_sim D V X (orders p') s'"
      using ys(1,2,4) w(2) X(2) unfolding order_sim_def row(2)
      by (intro exI [of _ "ys @ [w]"]) (auto intro: list_all2_appendI)
    then show ?thesis using y(3) w(1) row(1) by simp
  qed
qed

lemma record_orders_sim:
  assumes db: "orders_table P orders" and X: "venue_ids V X"
  shows "order_sim D V X (orders p) s \<Longrightarrow> set xs \<subseteq> X
    \<Longrightarrow> run_calls (store_call (Postgres_RecordOrder P D)) xs (p, e) = ((p', e'), rs)
    \<Longrightarrow> run_calls (store_call MemStore_RecordOrder) xs (s, f) = ((s', f'), qs)
    \<Longrightarrow> rs = qs \<and> order_sim D V X (orders p') s'"
proof (induction xs arbitrary: p e s f rs qs)
  case Nil
  then show ?case by simp
next
  case (Cons x xs)
  obtain r p1 e1 where x: "Postgres_RecordOrder P D x (p, e) = (r, p1, e1)" by (metis surj_pair)
  obtain q s1 f1 where y: "MemStore_RecordOrder x (s, f) = (q, s1, f1)" by (metis surj_pair)
  obtain rs' where rs: "run_calls (store_call (Postgres_RecordOrder P D)) xs (p1, e1) = ((p', e'), rs')" "rs = r # rs'"
    using Cons.prems(3) by (elim run_calls_ConsE) (auto simp: x store_call_def [of _ x])
  obtain qs' where qs: "run_calls (store_call MemStore_RecordOrder) xs (s1, f1) = ((s', f'), qs')" "qs = q # qs'"
    using Cons.prems(4) by (elim run_calls_ConsE) (auto simp: y store_call_def [of _ x])
  have "r = q \<and> order_sim D V X (orders p1) s1"
    using record_order_sim [OF db Cons.prems(1) X _ x y] Cons.prems(2) by simp
  with Cons.IH [OF _ _ rs(1) qs(1)] Cons.prems(2) rs(2) qs(2) show ?case by simp
qed

lemma get_order_sim:
  assumes db: "orders_table P orders" and sim: "order_sim D V X (orders p) s" and D: "decimal_text D"
  shows "rel_option same_order (MemStore_GetOrderByClientID c s) (Postgres_GetOrderByClientID P D c p)"
proof -
  obtain ys where ys: "list_all2 (order_row D) ys (orders p)" "distinct (map so_ClientOrderID ys)"
      "ms_orders s = map_of (map (\<lambda>y. (so_ClientOrderID y, y)) ys)"
    using sim by (auto simp: order_sim_def)
  note query = db [unfolded orders_table_def, THEN conjunct2, rule_format, of c p]
  show ?thesis
  proof (cases "has_columns [(1, VText c)] (orders p)")
    case False
    then have "ms_orders s c = None" unfolding has_columns_orders(3) [OF ys(1)]
      by (auto simp: ys(3) map_of_eq_None_iff list_ex_iff image_image)
    with False query show ?thesis
      by (auto simp: Postgres_GetOrderByClientID_def MemStore_GetOrderByClientID_def scanOrder_def)
  next
    case True
    then obtain row where row: "pool_QueryRow P select_order [VText c] p = Inr row" "row \<in> set (orders p)" "row ! 1 = VText c"
      using query by auto
    then obtain i where i: "i < length ys" "row = orders p ! i" using list_all2_lengthD [OF ys(1)] by (auto simp: in_set_conv_nth)
    have r: "order_row D (ys ! i) row" using list_all2_nthD [OF ys(1) i(1)] i(2) by simp
    then have "so_ClientOrderID (ys ! i) = c" using order_row_columns(2) row(3) by fastforce
    then have "ms_orders s c = Some (ys ! i)"
      using ys(2) i(1) unfolding ys(3) by (intro map_of_is_SomeI) (auto simp: o_def image_iff)
    moreover obtain z where "scanOrder P D (Inr row) = Inr z" "same_order (ys ! i) z" using scanOrder_row [OF r D] by blast
    ultimately show ?thesis using row(1) by (simp add: Postgres_GetOrderByClientID_def MemStore_GetOrderByClientID_def)
  qed
qed

section \<open>The two stores side by side: fills\<close>

lemma has_columns_fills:
  assumes "list_all2 (fill_row D) fs rows"
  shows "has_columns [(2, VText v), (1, VText t)] rows \<longleftrightarrow> (v, t) \<in> fill_key ` set fs"
  using assms by (induction rule: list_all2_induct) (auto simp: has_columns_def fill_row_columns [simplified] prod_eq_iff)

lemma Postgres_RecordFill_exec:
  assumes "Postgres_RecordFill P D f (p, e) = (r, p', e')"
  obtains g e1 n where "same_fill f g" "pool_Exec P insert_fill (fill_args D g) (p, e1) = (n, p', e')"
    "r = (case n of Inl err \<Rightarrow> Inl err | Inr k \<Rightarrow> Inr (k > 0))"
proof -
  define g where "g = (if time_IsZero (sf_Timestamp f) then f\<lparr>sf_Timestamp := env_clock e (env_ticks e)\<rparr> else f)"
  define e1 where "e1 = e\<lparr>env_ticks := (if time_IsZero (sf_Timestamp f) then Suc (env_ticks e) else env_ticks e)\<rparr>"
  obtain n p1 e2 where n: "pool_Exec P insert_fill (fill_args D g) (p, e1) = (n, p1, e2)" by (metis surj_pair)
  have "(r, p', e') = (case n of Inl err \<Rightarrow> (Inl err, p1, e2) | Inr k \<Rightarrow> (Inr (k > 0), p1, e2))"
    using n unfolding assms [symmetric]
    by (cases e) (auto simp: Postgres_RecordFill_def g_def e1_def time_Now_def Let_def split: sum.splits)
  moreover have "same_fill f g" by (simp add: g_def same_fill_def)
  ultimately show thesis using n by (intro that [of g e1 n]) (auto split: sum.splits)
qed

lemma record_fill_sim:
  assumes db: "fills_table P fills" and sim: "list_all2 (fill_row D) (ms_fills s) (fills p)"
    and pg: "Postgres_RecordFill P D f (p, e) = (r, p', e')" and mem: "MemStore_RecordFill f (s, h) = (q, s', h')"
  shows "r = q \<and> list_all2 (fill_row D) (ms_fills s') (fills p')"
proof -
  obtain g e1 n where g: "same_fill f g" "pool_Exec P insert_fill (fill_args D g) (p, e1) = (n, p', e')"
      "r = (case n of Inl err \<Rightarrow> Inl err | Inr k \<Rightarrow> Inr (k > 0))"
    using pg by (rule Postgres_RecordFill_exec)
  have args: "fill_args D g ! 1 = VText (snd (fill_key f))" "fill_args D g ! 2 = VText (fst (fill_key f))" "length (fill_args D g) = 9"
    using same_fill_fields [OF g(1)] by (simp_all add: fill_args_def fill_key_def)
  note exec = db [unfolded fills_table_def, THEN conjunct1, rule_format, OF args(3), of p e1, unfolded args g(2)]
  show ?thesis
  proof (cases "fill_key f \<in> fill_key ` set (ms_fills s)")
    case True
    then have "has_columns [(2, VText (fst (fill_key f))), (1, VText (snd (fill_key f)))] (fills p)"
      unfolding has_columns_fills [OF sim] by simp
    with exec g(3) mem sim True show ?thesis by (auto simp: MemStore_RecordFill_def fill_recorded_iff)
  next
    case False
    then have "\<not> has_columns [(2, VText (fst (fill_key f))), (1, VText (snd (fill_key f)))] (fills p)"
      unfolding has_columns_fills [OF sim] by simp
    with exec have row: "n = Inr 1" "fills p' = fills p @ [map stored_val (fill_args D g)]" by auto
    obtain k where k: "q = Inr True" "same_fill f k" "ms_fills s' = ms_fills s @ [k]"
      using mem.fill_new [OF False, of h] mem by (auto simp: MemStore_ops_def kept_fill_def)
    have "fill_row D k (map stored_val (fill_args D g))" 
      using g(1) k(2) unfolding fill_row_def same_fill_def by (intro exI [of _ g]) simp
    with g(3) row k sim show ?thesis by (auto intro: list_all2_appendI)
  qed
qed

lemma record_fills_sim:
  assumes db: "fills_table P fills"
  shows "list_all2 (fill_row D) (ms_fills s) (fills p)
    \<Longrightarrow> run_calls (store_call (Postgres_RecordFill P D)) fs (p, e) = ((p', e'), rs)
    \<Longrightarrow> run_calls (store_call MemStore_RecordFill) fs (s, h) = ((s', h'), qs)
    \<Longrightarrow> rs = qs \<and> list_all2 (fill_row D) (ms_fills s') (fills p')"
proof (induction fs arbitrary: p e s h rs qs)
  case Nil
  then show ?case by simp
next
  case (Cons f fs)
  obtain r p1 e1 where x: "Postgres_RecordFill P D f (p, e) = (r, p1, e1)" by (metis surj_pair)
  obtain q s1 h1 where y: "MemStore_RecordFill f (s, h) = (q, s1, h1)" by (metis surj_pair)
  obtain rs' where rs: "run_calls (store_call (Postgres_RecordFill P D)) fs (p1, e1) = ((p', e'), rs')" "rs = r # rs'"
    using Cons.prems(2) by (elim run_calls_ConsE) (auto simp: x store_call_def [of _ f])
  obtain qs' where qs: "run_calls (store_call MemStore_RecordFill) fs (s1, h1) = ((s', h'), qs')" "qs = q # qs'"
    using Cons.prems(3) by (elim run_calls_ConsE) (auto simp: y store_call_def [of _ f])
  from record_fill_sim [OF db Cons.prems(1) x y] Cons.IH [OF _ rs(1) qs(1)] rs(2) qs(2) show ?case by simp
qed

abbreviation unstamped :: "'d store_Fill \<Rightarrow> 'd store_Fill" where
  "unstamped f \<equiv> f\<lparr>sf_Timestamp := 0\<rparr>"

text \<open>What a row is scanned to, as a function of the row, for rows of the table.\<close>

lemma scan_fills_rows:
  assumes "list_all (\<lambda>row. scanFill P D row = Inr (sc row)) rows"
  shows "scan_fills P D rows = Inr (map sc rows)"
  using assms by (induction rows) auto

lemma scanned_rows:
  fixes P :: "'p pgxpool"
  assumes "list_all2 (fill_row D) fs rows" "decimal_text D"
  defines "sc \<equiv> (\<lambda>row. projr (scanFill P D row))"
  shows "list_all (\<lambda>row. scanFill P D row = Inr (sc row) \<and> sf_Timestamp (sc row) = val_time (row ! 8)) rows
    \<and> map (\<lambda>row. unstamped (sc row)) (filter (\<lambda>row. row ! 0 = VText v) rows) = map unstamped (filter (\<lambda>f. sf_VenueOrderID f = v) fs)"
  using assms(1)
proof (induction rule: list_all2_induct)
  case Nil
  then show ?case by simp
next
  case (Cons f fs row rows)
  obtain t where "scanFill P D row = Inr (f\<lparr>sf_Timestamp := t\<rparr>)" "row ! 8 = VTime t"
    using scanFill_row [OF Cons.hyps(1) assms(2), of P] by blast
  with Cons fill_row_columns(1) [OF Cons.hyps(1)] show ?case by (simp add: sc_def)
qed

lemma fills_for_order_sim:
  assumes db: "fills_table P fills" and sim: "list_all2 (fill_row D) (ms_fills s) (fills p)" and D: "decimal_text D"
  shows "\<exists>out out'. Postgres_FillsForOrder P D v p = Inr out \<and> MemStore_FillsForOrder v s = Inr out'
    \<and> mset (map unstamped out) = mset (map unstamped out') \<and> sorted (map sf_Timestamp out)"
proof -
  let ?sc = "\<lambda>row. projr (scanFill P D row)"
  note all = scanned_rows [OF sim D, of P v]
  obtain rows where rows: "pool_Query P select_fills [VText v] p = Inr (rows, None)"
      "mset rows = mset (filter (\<lambda>row. row ! 0 = VText v) (fills p))" "sorted (map (\<lambda>row. val_time (row ! 8)) rows)"
    using db unfolding fills_table_def by blast
  from rows(2) have sub: "set rows \<subseteq> set (fills p)" by (metis mset_eq_setD filter_is_subset)
  have "list_all (\<lambda>row. scanFill P D row = Inr (?sc row)) rows" using all sub by (auto simp: list_all_iff)
  note scanned = scan_fills_rows [OF this]
  have times: "map sf_Timestamp (map ?sc rows) = map (\<lambda>row. val_time (row ! 8)) rows"
    using all sub by (auto simp: list_all_iff)
  have bag: "mset (map unstamped (map ?sc rows)) = mset (map (\<lambda>row. unstamped (?sc row)) (filter (\<lambda>row. row ! 0 = VText v) (fills p)))"
    by (simp only: mset_map map_map o_def rows(2))
  show ?thesis
  proof (intro exI conjI)
    show "Postgres_FillsForOrder P D v p = Inr (map ?sc rows)"
      by (simp add: Postgres_FillsForOrder_def rows(1) scanned)
    show "MemStore_FillsForOrder v s = Inr (filter (\<lambda>f. sf_VenueOrderID f = v) (ms_fills s))"
      by (simp add: MemStore_FillsForOrder_def fills_for_order_filter)
    show "mset (map unstamped (map ?sc rows)) = mset (map unstamped (filter (\<lambda>f. sf_VenueOrderID f = v) (ms_fills s)))"
      unfolding bag all [THEN conjunct2] ..
    show "sorted (map sf_Timestamp (map ?sc rows))" unfolding times by (fact rows(3))
  qed
qed

section \<open>A server for the examples\<close>

text \<open>Two tables as lists of rows, and decimals that are their own text.\<close>

definition table_pool :: "(sql_val list list \<times> sql_val list list) pgxpool" where
  "table_pool =
     \<lparr>pool_New = (\<lambda>dsn e. (Inr ([], []), e)), pool_Ping = (\<lambda>pe. (None, pe)), pool_Close = id,
      pool_Exec = (\<lambda>q args ((os, fs), e).
        if q = insert_order then
          (if has_columns [(2, args ! 2), (1, args ! 1)] os then (Inr 0, (os, fs), e)
           else if has_columns [(0, args ! 0)] os then (Inl ''duplicate key value'', (os, fs), e)
           else (Inr 1, (os @ [map stored_val args], fs), e))
        else if q = insert_fill then
          (if has_columns [(2, args ! 2), (1, args ! 1)] fs then (Inr 0, (os, fs), e)
           else (Inr 1, (os, fs @ [map stored_val args]), e))
        else (Inr 0, (os, fs), e)),
      pool_Query = (\<lambda>q args (os, fs). Inr (sort_key (\<lambda>row. val_time (row ! 8)) (filter (\<lambda>row. row ! 0 = hd args) fs), None)),
      pool_QueryRow = (\<lambda>q args (os, fs). case filter (\<lambda>row. row ! 1 = hd args) os of [] \<Rightarrow> Inl ''no rows in result set'' | row # _ \<Rightarrow> Inr row),
      pool_ScanErr = (\<lambda>row. ''can't scan'')\<rparr>"

definition text_decimal :: "string decimal_ops" where
  "text_decimal =
     \<lparr>d_Zero = ''0'', d_NewFromString = (\<lambda>s. (s, None)), d_NewFromFloat = (\<lambda>f. ''0''), d_NewFromInt = FormatInt,
      d_IsZero = (\<lambda>s. s = ''0''), d_Add = (\<lambda>a b. a), d_Sub = (\<lambda>a b. a), d_Mul = (\<lambda>a b. a), d_Div = (\<lambda>a b. a),
      d_Cmp = (\<lambda>a b. if a = b then 0 else 1), d_String = (\<lambda>s. s), d_Float64 = (\<lambda>s. F64 0),
      d_MarshalJSON = (\<lambda>s. s), d_UnmarshalJSON = (\<lambda>s old. (s, None))\<rparr>"

lemma insert_texts_differ: "insert_fill \<noteq> insert_order"
  by (simp add: insert_fill_def insert_order_def)

lemma text_decimal_text: "decimal_text text_decimal"
  by (simp add: decimal_text_def text_decimal_def)

lemma table_pool_orders: "orders_table table_pool fst"
  unfolding orders_table_def
  by (auto simp: table_pool_def has_columns_def list_ex_iff filter_eq_Cons_iff filter_empty_conv
      split: list.splits)

lemma table_pool_fills: "fills_table table_pool snd"
  unfolding fills_table_def by (auto simp: table_pool_def insert_texts_differ)

definition example_order :: "string store_Order" where
  "example_order =
     \<lparr>so_VenueOrderID = ''1'', so_ClientOrderID = ''c'', so_Venue = ''kraken'', so_Pair = ''XBT/USD'',
      so_Side = ''buy'', so_OrderType = ''market'', so_Status = ''new'', so_FilledQty = ''0'',
      so_AvgPrice = ''0'', so_Quantity = ''1.5'', so_Price = ''0'', so_CreatedAt = 0, so_UpdatedAt = 0\<rparr>"

definition example_fill :: "string store_Fill" where
  "example_fill =
     \<lparr>sf_VenueOrderID = ''1'', sf_TradeID = ''t'', sf_Venue = ''kraken'', sf_Pair = ''XBT/USD'', sf_Price = ''9'',
      sf_Quantity = ''1.5'', sf_Fee = ''0'', sf_FeeAsset = ''USD'', sf_Timestamp = 0\<rparr>"

section \<open>Properties\<close>

text \<open>
  C8. The PostgreSQL store refines the in-memory store for the orders of one venue. Against a
  server that keeps the table as documented and with decimals that survive being written, for
  every sequence of \<open>RecordOrder\<close> calls whose orders belong to one venue and in which no venue
  order id is used for two client order ids, both stores give the same answers, and afterwards
  \<open>GetOrderByClientID\<close> of both agree on every client order id, up to the two timestamps.
\<close>

theorem Postgres_refines_MemStore:
  assumes "orders_table P orders" "decimal_text D" "venue_ids V (set xs)" "orders p = []"
    and "run_calls (store_call (Postgres_RecordOrder P D)) xs (p, e) = ((p', e'), rs)"
    and "run_calls (store_call MemStore_RecordOrder) xs (MemStore_New, f) = ((s', f'), qs)"
  shows "rs = qs
    \<and> rel_option same_order (MemStore_GetOrderByClientID c s') (Postgres_GetOrderByClientID P D c p')"
proof -
  have "order_sim D V (set xs) (orders p) MemStore_New" by (simp add: order_sim_def assms(4) MemStore_New_def)
  from record_orders_sim [OF assms(1,3) this subset_refl assms(5,6)] get_order_sim [OF assms(1) _ assms(2)]
  show ?thesis by blast
qed

theorem Postgres_refines_MemStore_witness:
  "\<exists>p' e' rs s' f' qs.
     run_calls (store_call (Postgres_RecordOrder table_pool text_decimal)) [example_order, example_order] (([], []), fixed_env) = ((p', e'), rs)
     \<and> run_calls (store_call MemStore_RecordOrder) [example_order, example_order] (MemStore_New, fixed_env) = ((s', f'), qs)
     \<and> rs = qs
     \<and> rel_option same_order (MemStore_GetOrderByClientID ''c'' s') (Postgres_GetOrderByClientID table_pool text_decimal ''c'' p')"
proof -
  obtain p' e' rs s' f' qs where
      run: "run_calls (store_call (Postgres_RecordOrder table_pool text_decimal)) [example_order, example_order] (([], []), fixed_env) = ((p', e'), rs)"
        "run_calls (store_call MemStore_RecordOrder) [example_order, example_order] (MemStore_New, fixed_env) = ((s', f'), qs)"
    by (metis surj_pair)
  have ids: "venue_ids ''kraken'' (set [example_order, example_order])" by (simp add: venue_ids_def example_order_def)
  from Postgres_refines_MemStore [OF table_pool_orders text_decimal_text ids _ run] run show ?thesis by auto
qed

text \<open>
  C29. Fills agree in both stores without any restriction: for every sequence of \<open>RecordFill\<close> calls
  both stores give the same answers, and \<open>FillsForOrder\<close> returns the same fills for every order,
  up to the timestamps; PostgreSQL's sorted by time.
\<close>

theorem Postgres_fills_agree:
  assumes "fills_table P fills" "decimal_text D" "fills p = []"
    and "run_calls (store_call (Postgres_RecordFill P D)) fs (p, e) = ((p', e'), rs)"
    and "run_calls (store_call MemStore_RecordFill) fs (MemStore_New, h) = ((s', h'), qs)"
  shows "rs = qs \<and> (\<exists>out out'. Postgres_FillsForOrder P D v p' = Inr out \<and> MemStore_FillsForOrder v s' = Inr out'
    \<and> mset (map unstamped out) = mset (map unstamped out') \<and> sorted (map sf_Timestamp out))"
proof -
  have "list_all2 (fill_row D) (ms_fills MemStore_New) (fills p)" by (simp add: assms(3) MemStore_New_def)
  from record_fills_sim [OF assms(1) this assms(4,5)] fills_for_order_sim [OF assms(1) _ assms(2)]
  show ?thesis by blast
qed

theorem Postgres_fills_agree_witness:
  "\<exists>p' e' rs s' f' qs out out'.
     run_calls (store_call (Postgres_RecordFill table_pool text_decimal)) [example_fill, example_fill] (([], []), fixed_env) = ((p', e'), rs)
     \<and> run_calls (store_call MemStore_RecordFill) [example_fill, example_fill] (MemStore_New, fixed_env) = ((s', f'), qs)
     \<and> rs = qs \<and> Postgres_FillsForOrder table_pool text_decimal ''1'' p' = Inr out \<and> MemStore_FillsForOrder ''1'' s' = Inr out'
     \<and> mset (map unstamped out) = mset (map unstamped out')"
proof -
  obtain p' e' rs s' f' qs where
      run: "run_calls (store_call (Postgres_RecordFill table_pool text_decimal)) [example_fill, example_fill] (([], []), fixed_env) = ((p', e'), rs)"
        "run_calls (store_call MemStore_RecordFill) [example_fill, example_fill] (MemStore_New, fixed_env) = ((s', f'), qs)"
    by (metis surj_pair)
  from Postgres_fills_agree [OF table_pool_fills text_decimal_text _ run, of "''1''"] run show ?thesis by auto
qed

text \<open>
  The restriction to one venue is needed: for the same client order id at two venues the in-memory
  store refuses the second order and PostgreSQL records it.
\<close>

theorem stores_differ_across_venues:
  "snd (run_calls (store_call MemStore_RecordOrder)
      [example_order, example_order\<lparr>so_VenueOrderID := ''2'', so_Venue := ''binance''\<rparr>] (MemStore_New, fixed_env)) = [Inr True, Inr False]
   \<and> snd (run_calls (store_call (Postgres_RecordOrder table_pool text_decimal))
      [example_order, example_order\<lparr>so_VenueOrderID := ''2'', so_Venue := ''binance''\<rparr>] (([], []), fixed_env)) = [Inr True, Inr True]"
  by (simp add: store_call_def MemStore_RecordOrder_def MemStore_New_def Postgres_RecordOrder_def table_pool_def
      example_order_def text_decimal_def order_args_def has_columns_def time_Now_def time_IsZero_def Let_def fixed_env_def)

end
