(* ===== verification/Tracing.thy ===== *)
theory Tracing
  imports Events
begin

text \<open>
  The set-up of tracing in \<open>internal/otel/otel.go\<close>. The OpenTelemetry SDK is not part of the
  program: what it makes of a service name and of an endpoint is an argument, over a type \<open>'o\<close> of its
  objects. The global providers are the state; a set-up that fails leaves them as they are.
\<close>

record 'o otel_lib =
  ol_Resource :: "string \<Rightarrow> string + 'o"
  ol_TraceExporter :: "string \<Rightarrow> string + 'o"
  ol_MetricExporter :: "string \<Rightarrow> string + 'o"
  ol_TraceShutdown :: "'o \<Rightarrow> string option"
  ol_MetricShutdown :: "'o \<Rightarrow> string option"

text \<open>The providers in force: those of the library, those that do nothing, or exporters with their resource.\<close>

datatype 'o providers = DefaultProviders | NoopProviders | Exporting (pv_resource: 'o) (pv_spans: 'o) (pv_metrics: 'o)

definition otel_Init :: "'o otel_lib \<Rightarrow> (string \<Rightarrow> string) \<Rightarrow> string \<Rightarrow> 'o providers \<Rightarrow> string option \<times> 'o providers" where
  "otel_Init L getenv serviceName0 g =
     (let endpoint0 = TrimSpace (getenv ''OTEL_EXPORTER_OTLP_ENDPOINT'') in
      if endpoint0 = [] then (None, NoopProviders)
      else
        (let name = TrimSpace (getenv ''OTEL_SERVICE_NAME'');
             serviceName = (if name \<noteq> [] then name else serviceName0);
             endpoint = TrimPrefix (TrimPrefix endpoint0 ''http://'') ''grpc://''
         in case ol_Resource L serviceName of
              Inl err \<Rightarrow> (Some (''otel resource: '' @ err), g)
            | Inr res \<Rightarrow>
                (case ol_TraceExporter L endpoint of
                   Inl err \<Rightarrow> (Some (''otel trace exporter: '' @ err), g)
                 | Inr spanExp \<Rightarrow>
                     (case ol_MetricExporter L endpoint of
                        Inl err \<Rightarrow> (Some (''otel metric exporter: '' @ err), g)
                      | Inr metricExp \<Rightarrow> (None, Exporting res spanExp metricExp)))))"

text \<open>The function that \<open>Init\<close> returns: both providers are shut down, the error of the first is reported first.\<close>

fun otel_shutdown :: "'o otel_lib \<Rightarrow> 'o providers \<Rightarrow> string option" where
  "otel_shutdown L (Exporting res spans metrics) =
     (let traceErr = map_option (\<lambda>err. ''trace shutdown: '' @ err) (ol_TraceShutdown L spans);
          metricErr = map_option (\<lambda>err. ''metric shutdown: '' @ err) (ol_MetricShutdown L metrics)
      in if traceErr \<noteq> None then traceErr else metricErr)"
| "otel_shutdown L _ = None"

text \<open>Without an endpoint, or with one of only spaces, the set-up can not fail and nothing is exported.\<close>

lemma otel_Init_unset:
  assumes "list_all ascii_space (getenv ''OTEL_EXPORTER_OTLP_ENDPOINT'')"
  shows "otel_Init L getenv name g = (None, NoopProviders)"
proof -
  have "dropWhile ascii_space (getenv ''OTEL_EXPORTER_OTLP_ENDPOINT'') = []"
    using assms by (auto simp: list_all_iff dest: set_dropWhileD)
  then have "TrimSpace (getenv ''OTEL_EXPORTER_OTLP_ENDPOINT'') = []" 
    by (simp only: TrimSpace_def rev.simps dropWhile.simps)
  then show ?thesis by (simp add: otel_Init_def)
qed

lemma otel_Init_failed: "otel_Init L getenv name g = (Some err, g') \<Longrightarrow> g' = g"
  by (auto simp: otel_Init_def Let_def split: if_splits sum.splits)

end
