(* ===== verification/Gateway.thy ===== *)
theory Gateway
  imports Binance Kraken Otc Server Secrets Postgres Tracing
begin

text \<open>
  The program of \<open>cmd/gateway-exchange/main.go\<close>: reading the environment, choosing the connector,
  the store and the audit sink, loading the credentials, and putting the service together. An
  exit by \<open>log.Fatalf\<close> is a value of \<open>fatal\<close>; the log lines of a normal start are left out.

  Interface values of Go are sums here, with one constructor per implementation the program can
  put into them, and their methods dispatch on the constructor.
\<close>

section \<open>The process environment\<close>

text \<open>\<open>environ\<close> is what \<open>os.Environ\<close> returns; \<open>os.Getenv\<close> is the empty string for an absent name.\<close>

fun os_Getenv :: "string list \<Rightarrow> string \<Rightarrow> string" where
  "os_Getenv [] name = []"
| "os_Getenv (kv # kvs) name =
     (case SplitN2 (CHR ''='') kv of
        (n, Some v) \<Rightarrow> if n = name then v else os_Getenv kvs name
      | (n, None) \<Rightarrow> os_Getenv kvs name)"

definition getenv_or :: "string list \<Rightarrow> string \<Rightarrow> string \<Rightarrow> string" where
  "getenv_or environ name fallback = (if os_Getenv environ name = [] then fallback else os_Getenv environ name)"

datatype fatal =
    FatalOtel string
  | FatalNotAVenue string
  | FatalNoSecretsURL
  | FatalLoad string string
  | FatalEmptyCredentials string
  | FatalPostgres string
  | FatalNoDatabase
  | FatalNoBrokers
  | FatalKafka string
  | FatalServer string
  | FatalNoTokenSecret
  | Panic

section \<open>Lists in variables\<close>

text \<open>Ranging over a string: its runes as their bytes, a broken sequence as U+FFFD byte by byte.\<close>

function runes :: "string \<Rightarrow> string list" where
  "runes [] = []"
| "runes (c # s) =
     (if rune_len (c # s) = 0 then replacement # runes s
      else take (rune_len (c # s)) (c # s) # runes (drop (rune_len (c # s)) (c # s)))"
  by pat_completeness auto

termination runes
proof (relation "measure length")
  show "(drop (rune_len (c # s)) (c # s), c # s) \<in> measure length" if "rune_len (c # s) \<noteq> 0" for c s
    using that by (cases "rune_len (c # s)") auto
qed auto

fun splitCSV_loop :: "string list \<Rightarrow> string \<Rightarrow> string list \<Rightarrow> string list" where
  "splitCSV_loop [] cur out = (if cur \<noteq> [] then out @ [cur] else out)"
| "splitCSV_loop (c # cs) cur out =
     (if c = '','' then splitCSV_loop cs [] (if cur \<noteq> [] then out @ [cur] else out)
      else splitCSV_loop cs (cur @ c) out)"

definition splitCSV :: "string \<Rightarrow> string list" where
  "splitCSV s = splitCSV_loop (runes s) [] []"

section \<open>Credentials\<close>

definition newSecretsManager :: "string list \<Rightarrow> string \<Rightarrow> bool \<Rightarrow> fatal + EnvVault Manager \<times> EnvVault" where
  "newSecretsManager environ venue devMode =
     (if \<not> devMode \<and> os_Getenv environ ''SECRETS_MANAGER_URL'' = [] then Inl FatalNoSecretsURL
      else case NewEnvVaultFromEnv environ ''SECRETS'' of
        None \<Rightarrow> Inl Panic
      | Some v \<Rightarrow> Inr (NewManager venue EnvVault_client, v))"

definition loadExchangeCreds :: "string list \<Rightarrow> string \<Rightarrow> bool \<Rightarrow> env \<Rightarrow> (fatal + string \<times> string) \<times> env" where
  "loadExchangeCreds environ venue devMode e0 =
     (if devMode then
        (Inr (os_Getenv environ (ToUpper venue @ ''_API_KEY''), os_Getenv environ (ToUpper venue @ ''_API_SECRET'')), e0)
      else
        (case newSecretsManager environ venue devMode of
           Inl err \<Rightarrow> (Inl err, e0)
         | Inr (mgr, v) \<Rightarrow>
             (case Load (mgr, v, e0) of
                (Inl err, _, _, e1) \<Rightarrow> (Inl (FatalLoad venue err), e1)
              | (Inr creds, _, _, e1) \<Rightarrow>
                  if cd_APIKey creds = [] \<or> cd_APISecret creds = [] then (Inl (FatalEmptyCredentials venue), e1)
                  else (Inr (cd_APIKey creds, cd_APISecret creds), e1))))"

section \<open>The connector\<close>

datatype 'd any_connector =
    ConnBinance Binance_Connector
  | ConnKraken Kraken_Connector
  | ConnOtc "'d Otc_Connector"
  | ConnDummy "'d DummyVenueConnector"

definition wrapped :: "('c \<Rightarrow> 'a) \<Rightarrow> 'r \<times> 'c \<times> env \<Rightarrow> 'r \<times> 'a \<times> env" where
  "wrapped w = (\<lambda>(r, c, e). (r, w c, e))"

type_synonym trade_order = "(string \<times> tradeEntry) list \<Rightarrow> (string \<times> tradeEntry) list"

definition any_connector :: "err_texts \<Rightarrow> 'd decimal_ops \<Rightarrow> trade_order \<Rightarrow> ('d any_connector, 'd) VenueConnector" where
  "any_connector T D ord =
     (let bin = Binance_connector T D; krak = Kraken_connector T D ord; desk = Otc_connector T D; dummy = Dummy_connector D in
      \<lparr>PlaceOrder = (\<lambda>q (c, e). case c of
          ConnBinance x \<Rightarrow> wrapped ConnBinance (PlaceOrder bin q (x, e)) | ConnKraken x \<Rightarrow> wrapped ConnKraken (PlaceOrder krak q (x, e))
        | ConnOtc x \<Rightarrow> wrapped ConnOtc (PlaceOrder desk q (x, e)) | ConnDummy x \<Rightarrow> wrapped ConnDummy (PlaceOrder dummy q (x, e))),
       CancelOrder = (\<lambda>q (c, e). case c of
          ConnBinance x \<Rightarrow> wrapped ConnBinance (CancelOrder bin q (x, e)) | ConnKraken x \<Rightarrow> wrapped ConnKraken (CancelOrder krak q (x, e))
        | ConnOtc x \<Rightarrow> wrapped ConnOtc (CancelOrder desk q (x, e)) | ConnDummy x \<Rightarrow> wrapped ConnDummy (CancelOrder dummy q (x, e))),
       GetOrder = (\<lambda>q (c, e). case c of
          ConnBinance x \<Rightarrow> wrapped ConnBinance (GetOrder bin q (x, e)) | ConnKraken x \<Rightarrow> wrapped ConnKraken (GetOrder krak q (x, e))
        | ConnOtc x \<Rightarrow> wrapped ConnOtc (GetOrder desk q (x, e)) | ConnDummy x \<Rightarrow> wrapped ConnDummy (GetOrder dummy q (x, e))),
       GetFills = (\<lambda>q (c, e). case c of
          ConnBinance x \<Rightarrow> wrapped ConnBinance (GetFills bin q (x, e)) | ConnKraken x \<Rightarrow> wrapped ConnKraken (GetFills krak q (x, e))
        | ConnOtc x \<Rightarrow> wrapped ConnOtc (GetFills desk q (x, e)) | ConnDummy x \<Rightarrow> wrapped ConnDummy (GetFills dummy q (x, e))),
       GetBalances = (\<lambda>(c, e). case c of
          ConnBinance x \<Rightarrow> wrapped ConnBinance (GetBalances bin (x, e)) | ConnKraken x \<Rightarrow> wrapped ConnKraken (GetBalances krak (x, e))
        | ConnOtc x \<Rightarrow> wrapped ConnOtc (GetBalances desk (x, e)) | ConnDummy x \<Rightarrow> wrapped ConnDummy (GetBalances dummy (x, e))),
       SubscribeBook = (\<lambda>q (c, e). case c of
          ConnBinance x \<Rightarrow> wrapped ConnBinance (SubscribeBook bin q (x, e)) | ConnKraken x \<Rightarrow> wrapped ConnKraken (SubscribeBook krak q (x, e))
        | ConnOtc x \<Rightarrow> wrapped ConnOtc (SubscribeBook desk q (x, e)) | ConnDummy x \<Rightarrow> wrapped ConnDummy (SubscribeBook dummy q (x, e))),
       LastFill = (\<lambda>c. case c of
          ConnBinance x \<Rightarrow> LastFill bin x | ConnKraken x \<Rightarrow> LastFill krak x | ConnOtc x \<Rightarrow> LastFill desk x | ConnDummy x \<Rightarrow> LastFill dummy x)\<rparr>)"

definition selectConnector ::
    "'d decimal_ops \<Rightarrow> string list \<Rightarrow> string \<Rightarrow> bool \<Rightarrow> env \<Rightarrow> (fatal + 'd any_connector) \<times> env" where
  "selectConnector D environ name devMode e0 =
     (if name = ''binance'' then
        (case loadExchangeCreds environ ''binance'' devMode e0 of
           (Inl err, e1) \<Rightarrow> (Inl err, e1)
         | (Inr (key, secret), e1) \<Rightarrow>
             (let (c, e2) = Binance_NewConnector (os_Getenv environ) key secret None e1 in (Inr (ConnBinance c), e2)))
      else if name = ''kraken'' then
        (case loadExchangeCreds environ ''kraken'' devMode e0 of
           (Inl err, e1) \<Rightarrow> (Inl err, e1)
         | (Inr (key, secret), e1) \<Rightarrow>
             (let (c, e2) = Kraken_NewConnector (os_Getenv environ) key secret None e1 in (Inr (ConnKraken c), e2)))
      else if name = ''otc'' then
        (case loadExchangeCreds environ ''otc'' devMode e0 of
           (Inl err, e1) \<Rightarrow> (Inl err, e1)
         | (Inr (key, _), e1) \<Rightarrow>
             (let (c, e2) = Otc_NewConnector (os_Getenv environ) key None e1 in (Inr (ConnOtc c), e2)))
      else if \<not> devMode then (Inl (FatalNotAVenue name), e0)
      else (Inr (ConnDummy (NewDummyVenueConnector D (os_Getenv environ ''DUMMY_PRICE''))), e0))"

section \<open>The store and the audit sink\<close>

datatype ('p, 'd) any_store = StorePostgres 'p | StoreMemory "'d MemStore"

definition any_store :: "'p pgxpool \<Rightarrow> 'd decimal_ops \<Rightarrow> (('p, 'd) any_store, 'd) Store_ops" where
  "any_store P D =
     (let G = Postgres_ops P D; M = MemStore_ops in
      \<lparr>RecordOrder = (\<lambda>x (s, e). case s of
          StorePostgres p \<Rightarrow> wrapped StorePostgres (RecordOrder G x (p, e)) | StoreMemory m \<Rightarrow> wrapped StoreMemory (RecordOrder M x (m, e))),
       GetOrderByClientID = (\<lambda>c s. case s of
          StorePostgres p \<Rightarrow> GetOrderByClientID G c p | StoreMemory m \<Rightarrow> GetOrderByClientID M c m),
       RecordFill = (\<lambda>x (s, e). case s of
          StorePostgres p \<Rightarrow> wrapped StorePostgres (RecordFill G x (p, e)) | StoreMemory m \<Rightarrow> wrapped StoreMemory (RecordFill M x (m, e))),
       FillsForOrder = (\<lambda>v s. case s of
          StorePostgres p \<Rightarrow> FillsForOrder G v p | StoreMemory m \<Rightarrow> FillsForOrder M v m)\<rparr>)"

definition newStore ::
    "string + fs_entry list \<Rightarrow> 'p pgxpool \<Rightarrow> string list \<Rightarrow> bool \<Rightarrow> env \<Rightarrow> (fatal + ('p, 'd) any_store) \<times> env" where
  "newStore dir P environ devMode e0 =
     (let dsn = os_Getenv environ ''DB_URL'' in
      if dsn \<noteq> [] then
        (case Postgres_Open dir P dsn e0 of
           (Inl err, e1) \<Rightarrow> (Inl (FatalPostgres err), e1)
         | (Inr p, e1) \<Rightarrow> (Inr (StorePostgres p), e1))
      else if devMode then (Inr (StoreMemory MemStore_New), e0)
      else (Inl FatalNoDatabase, e0))"

datatype 'd any_sink = SinkKafka "'d broker \<times> KafkaSink" | SinkMemory "'d InMemorySink"

definition any_sink :: "'d decimal_ops \<Rightarrow> ('d any_sink, 'd) Sink" where
  "any_sink D ev = (\<lambda>(s, e). case s of
     SinkKafka k \<Rightarrow> (let (k', e') = KafkaSink_Emit D ev (k, e) in (SinkKafka k', e'))
   | SinkMemory m \<Rightarrow> (let (m', e') = InMemorySink_Emit ev (m, e) in (SinkMemory m', e')))"

text \<open>\<open>bk\<close> is the Kafka cluster that the sink writes to.\<close>

definition newAuditSink :: "'d broker \<Rightarrow> string list \<Rightarrow> string \<Rightarrow> bool \<Rightarrow> fatal + 'd any_sink" where
  "newAuditSink bk environ venue devMode =
     (let brokers = os_Getenv environ ''KAFKA_BROKERS'' in
      if brokers = [] then (if devMode then Inr (SinkMemory NewInMemorySink) else Inl FatalNoBrokers)
      else case NewKafkaSink (splitCSV brokers) venue of
        Inl err \<Rightarrow> if devMode then Inr (SinkMemory NewInMemorySink) else Inl (FatalKafka err)
      | Inr ks \<Rightarrow> Inr (SinkKafka (bk, ks)))"

section \<open>Starting up\<close>

text \<open>
  What the program needs of the outside: the wording of the library's errors, decimals, the order of
  a map, the pool, the embedded migrations, the Kafka cluster and the tracing library.
\<close>

record ('p, 'd, 'o) platform =
  pf_texts :: err_texts
  pf_decimal :: "'d decimal_ops"
  pf_order :: trade_order
  pf_pool :: "'p pgxpool"
  pf_migrations :: "string + fs_entry list"
  pf_broker :: "'d broker"
  pf_otel :: "'o otel_lib"

type_synonym ('p, 'd) gateway_service = "('d any_connector, ('p, 'd) any_store, 'd any_sink, 'd broker, unit, 'd) Service"
type_synonym ('p, 'd) gateway_world = "('d any_connector, ('p, 'd) any_store, 'd any_sink, 'd broker, unit) world"

record ('p, 'd) gateway =
  gw_addr :: string
  gw_service :: "('p, 'd) gateway_service"
  gw_world :: "('p, 'd) gateway_world"
  gw_auth :: "string \<times> bool"
  gw_publisher :: "KafkaPublisher option"

text \<open>A bus URL that cannot be used disables the events, it does not stop the program.\<close>

definition event_publisher :: "string list \<Rightarrow> KafkaPublisher option" where
  "event_publisher environ =
     (let busURL = os_Getenv environ ''EVENT_BUS_URL'' in
      if busURL = [] then None
      else case NewKafkaPublisherFromURL busURL of Inl err \<Rightarrow> None | Inr p \<Rightarrow> Some p)"

definition dev_mode :: "string list \<Rightarrow> bool" where
  "dev_mode environ \<longleftrightarrow> os_Getenv environ ''DEV_MODE'' = ''1''"

definition main_pairs :: "string list \<Rightarrow> string list" where
  "main_pairs environ =
     (let p = os_Getenv environ ''PAIRS'' in if p = [] then [''BTCUSDT'', ''ETHUSDT''] else splitCSV p)"

text \<open>The start of the program up to the listening socket.\<close>

definition gateway_main :: "('p, 'd, 'o) platform \<Rightarrow> string list \<Rightarrow> env \<Rightarrow> (fatal + ('p, 'd) gateway) \<times> env" where
  "gateway_main F environ e0 =
     (let devMode = dev_mode environ;
          addr = getenv_or environ ''ADDR'' '':8080'';
          venueName = getenv_or environ ''VENUE_FAMILY'' ''dummy'';
          T = pf_texts F; D = pf_decimal F; pub = event_publisher environ;
          bus = map_option (\<lambda>p. NewBus (KafkaPublisher_Publish (Some p)) ''recon'') pub
      in case otel_Init (pf_otel F) (os_Getenv environ) ''exchange-connectors'' DefaultProviders of
        (Some err, _) \<Rightarrow> (Inl (FatalOtel err), e0)
      | (None, _) \<Rightarrow>
      (case selectConnector D environ venueName devMode e0 of
         (Inl err, e1) \<Rightarrow> (Inl err, e1)
       | (Inr conn, e1) \<Rightarrow>
      (case newAuditSink (pf_broker F) environ venueName devMode of
         Inl err \<Rightarrow> (Inl err, e1)
       | Inr auditSink \<Rightarrow>
      (case newStore (pf_migrations F) (pf_pool F) environ devMode e1 of
         (Inl err, e2) \<Rightarrow> (Inl err, e2)
       | (Inr st, e2) \<Rightarrow>
      (case NewService (any_store (pf_pool F) D, StoreMemory MemStore_New) (any_connector T D (pf_order F)) (Some (any_sink D))
              \<lparr>cf_VenueName = venueName, cf_Pairs = main_pairs environ, cf_Store = Some (any_store (pf_pool F) D, st)\<rparr>
              bus auditSink (pf_broker F) () (conn, e2) of
         (Inl err, _, e3) \<Rightarrow> (Inl (FatalServer err), e3)
       | (Inr (svc, w), _, e3) \<Rightarrow>
      (case SecretFromEnv (os_Getenv environ) False of
         None \<Rightarrow> (Inl FatalNoTokenSecret, e3)
       | Some auth \<Rightarrow>
           (Inr \<lparr>gw_addr = addr, gw_service = svc, gw_world = w, gw_auth = auth, gw_publisher = pub\<rparr>, e3)))))))"

section \<open>Lists in variables are fields\<close>

lemma runes_ascii: "list_all (\<lambda>c. byte c < 128) s \<Longrightarrow> runes s = map (\<lambda>c. [c]) s"
  by (induction s) simp_all

lemma splitCSV_loop_Split:
  "splitCSV_loop (map (\<lambda>c. [c]) s) cur out =
     out @ filter (\<lambda>w. w \<noteq> []) (case Split (CHR '','') s of w # ws \<Rightarrow> (cur @ w) # ws | [] \<Rightarrow> [])"
  by (induction s arbitrary: cur out) (auto split: list.splits)

text \<open>On ASCII text \<open>splitCSV\<close> is the list of the non-empty fields between commas.\<close>

lemma splitCSV_fields:
  "list_all (\<lambda>c. byte c < 128) s \<Longrightarrow> splitCSV s = filter (\<lambda>w. w \<noteq> []) (Split (CHR '','') s)"
  by (simp add: splitCSV_def runes_ascii splitCSV_loop_Split split: list.splits)

section \<open>Where credentials come from\<close>

lemma IndexByte_take:
  "IndexByte s c = Some n \<Longrightarrow> s = take n s @ c # drop (Suc n) s \<and> n < length s"
  by (induction s arbitrary: n) (auto split: if_splits)

text \<open>Every secret of the vault stands in the environment as \<open>prefix_path=value\<close>.\<close>

definition from_environ :: "string \<Rightarrow> string list \<Rightarrow> (string \<times> Secret) list \<Rightarrow> bool" where
  "from_environ pfx environ m \<longleftrightarrow>
     (\<forall>name s. map_of m name = Some s \<longrightarrow> pfx @ name @ ''='' @ secret_value s \<in> set environ)"

lemma env_entry_from_environ:
  assumes "from_environ pfx environ m" "env_entry pfx kv m = Some m'" "kv \<in> set environ"
  shows "from_environ pfx environ m'"
proof (cases "HasPrefix kv pfx \<and> IndexByte kv (CHR ''='') \<noteq> None")
  case False
  then show ?thesis using assms(1,2) by (auto simp: env_entry_def split: if_splits option.splits)
next
  case True
  then obtain eq r where eq: "IndexByte kv (CHR ''='') = Some eq" and r: "kv = pfx @ r" by (auto simp: HasPrefix_iff)
  let ?name = "drop (length pfx) (take eq kv)"
  let ?s = "\<lparr>sc_Data = [(''value'', drop (eq + 1) kv)], sc_Version = ''env'', sc_LeaseID = [], sc_Renewable = False\<rparr>"
  from True assms(2) eq have le: "length pfx \<le> eq" and m': "m' = AList.update ?name ?s m"
    by (auto simp: env_entry_def split: if_splits)
  have "take eq kv = pfx @ ?name" using le r by simp
  then have "kv = pfx @ ?name @ ''='' @ secret_value ?s"
    using IndexByte_take [OF eq] by (metis (no_types, lifting) Suc_eq_plus1 append.assoc append_Cons append_Nil
        secret_value_def Secret.select_convs(1) map_of_Cons_code(2) option.simps(5))
  then show ?thesis using assms(1,3) m' by (auto simp: from_environ_def update_conv')
qed

lemma env_entries_from_environ:
  "from_environ pfx environ m \<Longrightarrow> env_entries pfx kvs m = Some m' \<Longrightarrow> set kvs \<subseteq> set environ
    \<Longrightarrow> from_environ pfx environ m'"
  by (induction kvs arbitrary: m) (auto simp: bind_eq_Some_conv intro: env_entry_from_environ)

text \<open>The variable that holds a credential of a venue.\<close>

definition provisioned :: "string list \<Rightarrow> string \<Rightarrow> string \<Rightarrow> bool" where
  "provisioned environ path val \<longleftrightarrow> ''SECRETS_'' @ path @ ''='' @ val \<in> set environ"

lemma loadExchangeCreds_production:
  assumes "loadExchangeCreds environ venue False e = (Inr (key, secret), e')"
  shows "key \<noteq> [] \<and> secret \<noteq> [] \<and> provisioned environ (keyPath venue) key \<and> provisioned environ (secretPath venue) secret"
proof -
  obtain v ks ss where v: "NewEnvVaultFromEnv environ ''SECRETS'' = Some v"
      and s: "map_of (ev_secrets v) (keyPath venue) = Some ks" "map_of (ev_secrets v) (secretPath venue) = Some ss"
      and c: "key = secret_value ks" "secret = secret_value ss" "key \<noteq> []" "secret \<noteq> []"
    using assms
    by (auto simp: loadExchangeCreds_def newSecretsManager_def Load_def NewManager_def EnvVault_client_def EnvVault_Read_def
        Let_def time_Now_def split: if_splits option.splits)
  obtain m where m: "env_entries ''SECRETS_'' environ [] = Some m" "ev_secrets v = m"
    using v by (auto simp: NewEnvVaultFromEnv_def)
  have "from_environ ''SECRETS_'' environ []" by (simp add: from_environ_def)
  then have "from_environ ''SECRETS_'' environ m" using m(1) by (rule env_entries_from_environ) simp
  then show ?thesis using s c m(2) unfolding provisioned_def from_environ_def by blast
qed

lemma selectConnector_production:
  assumes "selectConnector D environ name False e = (Inr conn, e')"
  obtains
    (binance) c where "conn = ConnBinance c" "bn_apiKey c \<noteq> []" "bn_apiSecret c \<noteq> []"
      "provisioned environ (keyPath ''binance'') (bn_apiKey c)" "provisioned environ (secretPath ''binance'') (bn_apiSecret c)"
  | (kraken) c where "conn = ConnKraken c" "kr_apiKey c \<noteq> []" "kr_apiSecret c \<noteq> []"
      "provisioned environ (keyPath ''kraken'') (kr_apiKey c)" "provisioned environ (secretPath ''kraken'') (kr_apiSecret c)"
  | (otc) c where "conn = ConnOtc c"
  using assms
  by (auto simp: selectConnector_def Binance_NewConnector_def Kraken_NewConnector_def Otc_NewConnector_def Let_def
      split: if_splits prod.splits sum.splits dest!: loadExchangeCreds_production)

text \<open>What a service was put together from.\<close>

lemma NewService_started:
  assumes "NewService fb conn audit \<lparr>cf_VenueName = name, cf_Pairs = ps, cf_Store = Some (ops, s)\<rparr> bus k p h (c, e)
    = (Inr (svc, w), ce)"
  shows "sv_connector svc = conn \<and> w_store w = s \<and> w_sink w = k \<and> (\<exists>e'. SubscribeBook conn ps (c, e) = (None, w_conn w, e'))"
  using assms by (auto simp: NewService_def NewBookAggregator_def Let_def split: prod.splits option.splits sum.splits)

lemma gateway_main_started:
  assumes "gateway_main F environ e = (Inr g, e')"
  obtains conn e1 k s e2 e3 where
    "selectConnector (pf_decimal F) environ (getenv_or environ ''VENUE_FAMILY'' ''dummy'') (dev_mode environ) e = (Inr conn, e1)"
    "newAuditSink (pf_broker F) environ (getenv_or environ ''VENUE_FAMILY'' ''dummy'') (dev_mode environ) = Inr k"
    "newStore (pf_migrations F) (pf_pool F) environ (dev_mode environ) e1 = (Inr s, e2)"
    "sv_connector (gw_service g) = any_connector (pf_texts F) (pf_decimal F) (pf_order F)"
    "w_store (gw_world g) = s" "w_sink (gw_world g) = k"
    "SubscribeBook (any_connector (pf_texts F) (pf_decimal F) (pf_order F)) (main_pairs environ) (conn, e2)
       = (None, w_conn (gw_world g), e3)"
    "SecretFromEnv (os_Getenv environ) False = Some (gw_auth g)"
  using assms
  by (auto simp: gateway_main_def Let_def split: option.splits prod.splits sum.splits dest!: NewService_started)

text \<open>The connector of a started program, and which one it is in production.\<close>

lemma gateway_main_connector:
  assumes "gateway_main F environ e = (Inr g, e')"
  shows "sv_connector (gw_service g) = any_connector (pf_texts F) (pf_decimal F) (pf_order F)"
  using assms by (rule gateway_main_started)

lemma production_connector:
  assumes "gateway_main F environ e = (Inr g, e')" "\<not> dev_mode environ"
  shows "(\<exists>c. w_conn (gw_world g) = ConnBinance c \<and> bn_apiKey c \<noteq> [] \<and> bn_apiSecret c \<noteq> []
            \<and> provisioned environ (keyPath ''binance'') (bn_apiKey c) \<and> provisioned environ (secretPath ''binance'') (bn_apiSecret c))
        \<or> (\<exists>c. w_conn (gw_world g) = ConnKraken c \<and> kr_apiKey c \<noteq> [] \<and> kr_apiSecret c \<noteq> []
            \<and> provisioned environ (keyPath ''kraken'') (kr_apiKey c) \<and> provisioned environ (secretPath ''kraken'') (kr_apiSecret c))"
proof -
  let ?conn = "any_connector (pf_texts F) (pf_decimal F) (pf_order F)"
  from assms(1) obtain conn e1 e2 e3 where m:
    "selectConnector (pf_decimal F) environ (getenv_or environ ''VENUE_FAMILY'' ''dummy'') (dev_mode environ) e = (Inr conn, e1)"
    "SubscribeBook ?conn (main_pairs environ) (conn, e2) = (None, w_conn (gw_world g), e3)" by (rule gateway_main_started)
  have "selectConnector (pf_decimal F) environ (getenv_or environ ''VENUE_FAMILY'' ''dummy'') False e = (Inr conn, e1)"
    using m(1) assms(2) by simp
  then show ?thesis
  proof (cases rule: selectConnector_production)
    case (binance c)
    with m(2) have "w_conn (gw_world g) = ConnBinance c"
      by (auto simp: any_connector_def Binance_connector_def wrapped_def Let_def split: sum.splits)
    with binance show ?thesis by simp
  next
    case (kraken c)
    with m(2) have "w_conn (gw_world g) = ConnKraken c"
      by (auto simp: any_connector_def Kraken_connector_def wrapped_def Let_def split: sum.splits)
    with kraken show ?thesis by simp
  next
    case (otc c)
    with m(2) have False by (auto simp: any_connector_def Otc_connector_def Otc_SubscribeBook_def wrapped_def Let_def)
    then show ?thesis ..
  qed
qed

section \<open>Properties\<close>

text \<open>
  C2. The production gate. When the program starts without \<open>DEV_MODE=1\<close>, then it runs against
  Binance or Kraken with a key and a secret that are not empty and that stand in the environment
  as the two \<open>SECRETS_\<close> variables of that venue, its orders go to PostgreSQL, its audit events
  to Kafka, and service tokens are checked with a secret that is not empty. In particular it
  never runs with the dummy connector, an in-memory store, an in-memory audit sink or the
  authentication bypass.
\<close>

theorem production_gate:
  assumes "gateway_main F environ e = (Inr g, e')" "\<not> dev_mode environ"
  shows "((\<exists>c. w_conn (gw_world g) = ConnBinance c \<and> bn_apiKey c \<noteq> [] \<and> bn_apiSecret c \<noteq> []
            \<and> provisioned environ (keyPath ''binance'') (bn_apiKey c) \<and> provisioned environ (secretPath ''binance'') (bn_apiSecret c))
        \<or> (\<exists>c. w_conn (gw_world g) = ConnKraken c \<and> kr_apiKey c \<noteq> [] \<and> kr_apiSecret c \<noteq> []
            \<and> provisioned environ (keyPath ''kraken'') (kr_apiKey c) \<and> provisioned environ (secretPath ''kraken'') (kr_apiSecret c)))
    \<and> (\<exists>p. w_store (gw_world g) = StorePostgres p) \<and> (\<exists>k. w_sink (gw_world g) = SinkKafka k)
    \<and> fst (gw_auth g) \<noteq> [] \<and> snd (gw_auth g) = False"
proof -
  from assms(1) obtain k s e1 e2 where m:
    "newAuditSink (pf_broker F) environ (getenv_or environ ''VENUE_FAMILY'' ''dummy'') (dev_mode environ) = Inr k"
    "newStore (pf_migrations F) (pf_pool F) environ (dev_mode environ) e1 = (Inr s, e2)"
    "w_store (gw_world g) = s" "w_sink (gw_world g) = k"
    "SecretFromEnv (os_Getenv environ) False = Some (gw_auth g)" by (rule gateway_main_started)
  have "\<exists>p. s = StorePostgres p" using m(2) assms(2) by (auto simp: newStore_def Let_def split: if_splits prod.splits sum.splits)
  moreover have "\<exists>x. k = SinkKafka x" using m(1) assms(2) by (auto simp: newAuditSink_def Let_def split: if_splits sum.splits)
  moreover have "fst (gw_auth g) \<noteq> [] \<and> snd (gw_auth g) = False"
    using m(5) assms(2) by (cases "gw_auth g") (auto simp: SecretFromEnv_def dev_mode_def Let_def split: if_splits)
  ultimately show ?thesis using production_connector [OF assms] m(3,4) by simp
qed

text \<open>A production environment for Kraken, and a platform on which it starts.\<close>

definition example_environ :: "string list" where
  "example_environ =
     [''VENUE_FAMILY=kraken'', ''SECRETS_MANAGER_URL=vault'', ''SECRETS_secret/exchange-connectors/kraken/api-key=k'',
      ''SECRETS_secret/exchange-connectors/kraken/api-secret=s'', ''DB_URL=db'', ''KAFKA_BROKERS=b:9092'',
      ''SERVICE_TOKEN_SECRET=t'']"

definition example_platform :: "(sql_val list list \<times> sql_val list list, string, unit) platform" where
  "example_platform =
     \<lparr>pf_texts = \<lparr>et_base64 = id, et_json = id\<rparr>, pf_decimal = text_decimal, pf_order = id,
      pf_pool = table_pool\<lparr>pool_QueryRow := (\<lambda>q args p. Inr [VBool True])\<rparr>,
      pf_migrations = example_dir, pf_broker = \<lparr>bk_answer = (\<lambda>n. None), bk_log = []\<rparr>, 
      pf_otel = \<lparr>ol_Resource = (\<lambda>_. Inr ()), ol_TraceExporter = (\<lambda>_. Inr ()), ol_MetricExporter = (\<lambda>_. Inr ()),
        ol_TraceShutdown = (\<lambda>_. None), ol_MetricShutdown = (\<lambda>_. None)\<rparr>\<rparr>"

lemma example_variables:
  "os_Getenv example_environ ''DEV_MODE'' = []" "os_Getenv example_environ ''VENUE_FAMILY'' = ''kraken''"
  "os_Getenv example_environ ''DB_URL'' = ''db''" "os_Getenv example_environ ''KAFKA_BROKERS'' = ''b:9092''"
  "os_Getenv example_environ ''SERVICE_TOKEN_SECRET'' = ''t''" "os_Getenv example_environ ''PAIRS'' = []"
  "os_Getenv example_environ ''EVENT_BUS_URL'' = []" "os_Getenv example_environ ''OTEL_EXPORTER_OTLP_ENDPOINT'' = []"
  by code_simp+

lemma example_credentials: "fst (loadExchangeCreds example_environ ''kraken'' False fixed_env) = Inr (''k'', ''s'')"
  by code_simp

lemma example_brokers: "splitCSV ''b:9092'' = [''b:9092'']"
  by (subst splitCSV_fields) simp_all

lemma example_database:
  "\<exists>p e'. Postgres_Open example_dir (table_pool\<lparr>pool_QueryRow := (\<lambda>q args p. Inr [VBool True])\<rparr>) ''db'' e = (Inr p, e')"
proof -
  have "create_versions \<noteq> insert_order" "create_versions \<noteq> insert_fill"
    by (simp_all add: create_versions_def insert_order_def insert_fill_def)
  then show ?thesis
    by (simp add: Postgres_Open_def table_pool_def Runner_Up_def migration_runner_def NewRunner_def example_dir_migrations is_applied_def)
qed

lemma example_starts: "\<exists>g e'. gateway_main example_platform example_environ fixed_env = (Inr g, e')"
proof -
  obtain e1 where c: "loadExchangeCreds example_environ ''kraken'' False fixed_env = (Inr (''k'', ''s''), e1)"
    using example_credentials by (metis prod.collapse)
  have db: "\<exists>p e'. Postgres_Open (pf_migrations example_platform) (pf_pool example_platform) ''db'' e = (Inr p, e')" for e
    using example_database [of e] by (simp add: example_platform_def)
  have otel: "otel_Init L (os_Getenv example_environ) name g = (None, NoopProviders)" for L :: "unit otel_lib" and name g
    by (rule otel_Init_unset) (simp add: example_variables)
  obtain conn e2 where n: "Kraken_NewConnector (os_Getenv example_environ) ''k'' ''s'' None e1 = (conn, e2)" by (metis surj_pair)
  have k: "selectConnector (pf_decimal example_platform) example_environ ''kraken'' False fixed_env = (Inr (ConnKraken conn), e2)"
    by (simp add: selectConnector_def c n)
  obtain p e3 where s: "newStore (pf_migrations example_platform) (pf_pool example_platform) example_environ False e2
      = (Inr (StorePostgres p :: (_, string) any_store), e3)"
    using db [of e2] by (auto simp: newStore_def example_variables)
  have venue: "getenv_or example_environ ''VENUE_FAMILY'' ''dummy'' = ''kraken''" by (simp add: getenv_or_def example_variables)
  show ?thesis
    by (simp add: gateway_main_def dev_mode_def venue example_variables otel k s newAuditSink_def example_brokers
        NewKafkaSink_def NewService_def NewBookAggregator_def any_connector_def Kraken_connector_def Kraken_SubscribeBook_def
        main_pairs_def wrapped_def SecretFromEnv_def Let_def)
qed

theorem production_gate_witness:
  "\<exists>g e'. gateway_main example_platform example_environ fixed_env = (Inr g, e') \<and> \<not> dev_mode example_environ
     \<and> (\<exists>p. w_store (gw_world g) = StorePostgres p) \<and> (\<exists>k. w_sink (gw_world g) = SinkKafka k) \<and> snd (gw_auth g) = False"
proof -
  obtain g e' where g: "gateway_main example_platform example_environ fixed_env = (Inr g, e')" using example_starts by blast
  have "\<not> dev_mode example_environ" by (simp add: dev_mode_def example_variables)
  with production_gate [OF g this] g show ?thesis by blast
qed

end
