(* ===== verification/Requests.thy ===== *)
theory Requests
  imports Gateway
begin

text \<open>
  The service over time: sequences of requests through the routes and the token check, and what
  they keep of the connector's state. A contract of the connector's operations
  becomes an invariant of the running service.
\<close>

section \<open>Which calls can change the connector\<close>

lemma conn_frame [simp]:
  "w_conn (fst (call_store f we)) = w_conn (fst we)"
  "w_conn (fst (call_sink emit ev we)) = w_conn (fst we)"
  "w_conn (fst (call_bus g we)) = w_conn (fst we)"
  by (cases we; simp add: call_store_def call_sink_def call_bus_def split: prod.splits)+

lemma record_fills_conn [simp]: "w_conn (fst (record_fills s req resp fs we)) = w_conn (fst we)"
  by (induction s req resp fs we rule: record_fills.induct) simp_all

lemma report_fills_conn [simp]: "w_conn (fst (report_fills D s ctx k emit req resp fs we)) = w_conn (fst we)"
  by (induction fs arbitrary: k we) (simp_all add: Let_def split: option.splits)

lemma report_balances_conn [simp]: "w_conn (fst (report_balances D s ctx k emit bs we)) = w_conn (fst we)"
proof (induction bs arbitrary: k we)
  case (Cons b bs)
  have "w_conn (fst (call_sink emit ev we)) = w_conn (fst we)" for ev by simp
  with Cons show ?case
    by (simp add: Let_def split_beta split: option.splits)
qed simp

lemma call_conn_fst: "call_conn f we = (fst (f (w_conn (fst we), snd we)),
    (fst we)\<lparr>w_conn := fst (snd (f (w_conn (fst we), snd we)))\<rparr>, snd (snd (f (w_conn (fst we), snd we))))"
  by (cases we) (simp add: call_conn_eq)

section \<open>Invariants of the connector\<close>

locale connector_invariant =
  fixes conn :: "('c, 'd) VenueConnector" and I :: "'c \<Rightarrow> bool"
  assumes kept: "connector_call conn q (c, e) = (r, c', e') \<Longrightarrow> I c \<Longrightarrow> I c'"
begin

lemma operations_keep:
  assumes "I c"
  shows "I (fst (snd (PlaceOrder conn oq (c, e))))" "I (fst (snd (CancelOrder conn cq (c, e))))"
    "I (fst (snd (GetOrder conn i (c, e))))" "I (fst (snd (GetFills conn fq (c, e))))" "I (fst (snd (GetBalances conn (c, e))))"
proof -
  have call: "I (fst (snd (connector_call conn q (c, e))))" for q using kept [OF _ assms] by (metis prod.collapse)
  show "I (fst (snd (PlaceOrder conn oq (c, e))))" "I (fst (snd (CancelOrder conn cq (c, e))))"
    "I (fst (snd (GetOrder conn i (c, e))))" "I (fst (snd (GetFills conn fq (c, e))))" "I (fst (snd (GetBalances conn (c, e))))"
    using call [of "OpPlace oq"] call [of "OpCancel cq"] call [of "OpGet i"] call [of "OpFills fq"] call [of OpBalances]
    by (simp_all add: Let_def split_beta)
qed

lemma handlers_keep:
  assumes "sv_connector s = conn" "I (w_conn (fst we))"
  shows "I (w_conn (fst (snd (handleOrdersRoot T D s ctx r we))))"
    "I (w_conn (fst (snd (handleOrderSub D s r we))))"
    "I (w_conn (fst (snd (handleBalances D s ctx ord r we))))"
    "I (w_conn (fst (snd (handleRotateCreds D s we))))"
  using assms operations_keep [OF assms(2)]
  by (auto simp: handleOrdersRoot_def handleOrderSub_def handleBalances_def handleRotateCreds_def call_conn_fst Let_def
      split: sum.splits option.splits prod.splits)

lemma routes_keep:
  assumes "sv_connector s = conn" "I (w_conn (fst we))"
  shows "I (w_conn (fst (snd (serve_route T D s ctx ord rt r we))))"
    "I (w_conn (fst (snd (mux_serve T D s ctx ord r we))))"
proof -
  show *: "I (w_conn (fst (snd (serve_route T D s ctx ord rt r we))))" for rt
    using handlers_keep [OF assms] assms(2) by (cases rt) simp_all
  show "I (w_conn (fst (snd (mux_serve T D s ctx ord r we))))"
    using * assms(2) by (simp add: mux_serve_def split: mux_choice.splits)
qed

lemma guarded_keep:
  assumes "sv_connector s = conn" "I (w_conn (fst we))"
  shows "I (w_conn (fst (snd (Routes T D s ctx ord auth r we))))"
  using routes_keep(2) [OF assms(1)] assms(2)
  by (cases we; cases auth) (simp add: Routes_def Middleware_def time_Now_def Let_def split: sum.splits)

end

text \<open>Requests come with the context and the map order of their handling.\<close>

type_synonym 'd served_request = "(nat \<Rightarrow> nat \<Rightarrow> string option) \<times> ('d Balances \<Rightarrow> 'd Balances) \<times> server_request"

definition serve_one ::
    "err_texts \<Rightarrow> 'd decimal_ops \<Rightarrow> ('c, 's, 'k, 'p, 'h, 'd) Service \<Rightarrow> string \<times> bool \<Rightarrow> 'd served_request
      \<Rightarrow> ('c, 's, 'k, 'p, 'h) world \<times> env \<Rightarrow> (('c, 's, 'k, 'p, 'h) world \<times> env) \<times> 'd server_response" where
  "serve_one T D s auth = (\<lambda>(ctx, ord, r) we. let (out, we') = Routes T D s ctx ord auth r we in (we', out))"

context connector_invariant
begin

lemma served_keep:
  assumes "sv_connector s = conn" "run_calls (serve_one T D s auth) rs we = (we', outs)" "I (w_conn (fst we))"
  shows "I (w_conn (fst we'))"
  using assms(3,2)
proof (rule run_calls_invariant [where I = "\<lambda>we. I (w_conn (fst we))", rotated])
  fix x we1 we2 out
  assume I: "I (w_conn (fst we1))" and x: "serve_one T D s auth x we1 = (we2, out)"
  obtain ctx ord r where "x = (ctx, ord, r)" by (metis surj_pair)
  with x I show "I (w_conn (fst we2))"
    using guarded_keep [OF assms(1) I, of T D ctx ord auth r] by (simp add: serve_one_def split_beta)
qed

end

section \<open>The invariants of the program's connectors\<close>

interpretation desk: connector_invariant "Otc_connector T D" otc_ok
  by unfold_locales (rule otc_ok_call)

definition exchange_conn :: "'d any_connector \<Rightarrow> bool" where
  "exchange_conn c = (case c of ConnDummy _ \<Rightarrow> False | _ \<Rightarrow> True)"

interpretation exch: connector_invariant "any_connector T D ord" exchange_conn
proof unfold_locales
  fix q c r c' e e'
  assume "connector_call (any_connector T D ord) q (c, e) = (r, c', e')" "exchange_conn c"
  then show "exchange_conn c'"
    by (cases q; cases c) (auto simp: any_connector_def wrapped_def exchange_conn_def Let_def split: prod.splits)
qed

interpretation dumm: connector_invariant "Dummy_connector D" dummy_ok
proof unfold_locales
  fix q c r c' e e'
  assume "connector_call (Dummy_connector D) q (c, e) = (r, c', e')" "dummy_ok c"
  then show "dummy_ok c'"
    by (cases q) (auto simp: Dummy_connector_def Dummy_GetOrder_def Dummy_GetFills_def Dummy_GetBalances_def Let_def
        split: prod.splits option.splits dest: dummy_ok_PlaceOrder dummy_ok_CancelOrder)
qed

section \<open>Orders over time\<close>

text \<open>An exchange behind the interface refuses an order without a client order id before anything happens.\<close>

lemma any_PlaceOrder_refused:
  assumes "exchange_conn c" "or_ClientOrderID req = []"
  shows "\<exists>err. PlaceOrder (any_connector T D ord) req (c, e) = (Inl err, c, e)"
  using assms by (cases c) (auto simp: exchange_conn_def any_connector_def wrapped_def Let_def
      Binance_connector_def Kraken_connector_def Otc_connector_def bn_id.refused kr_id.refused oc_id.refused)

lemma exchange_refuses_orders:
  assumes "sv_connector s = any_connector T' D' ord" "exchange_conn (w_conn w)"
  shows "\<exists>out. handleOrdersRoot T D s ctx r (w, e) = (out, w, e) \<and> sp_status out \<in> {400, 405, 502}"
proof (cases "parse_order T D r")
  case (Inl x)
  then show ?thesis
    using parse_order_status [of T D r] by (cases x) (auto simp: handleOrdersRoot_def)
next
  case (Inr x)
  obtain req vReq where x: "x = (req, vReq)" by force
  have "or_ClientOrderID vReq = []" using parse_order_no_client_id Inr x by blast
  with assms any_PlaceOrder_refused [of "w_conn w" vReq T' D' ord e] show ?thesis
    using Inr x by (auto simp: handleOrdersRoot_def call_conn_def)
qed

section \<open>The type of a response\<close>

text \<open>
  What a client may rely on: the status is one of eight, a success carries a JSON document (or
  nothing, when it could not be encoded), an error a JSON object with the one member \<open>error\<close>; only the
  router's own redirect and 404 are plain text.
\<close>

fun error_body :: "'d http_body \<Rightarrow> bool" where
  "error_body (Json (DObj [(k, v)])) = (k = ''error'')"
| "error_body _ = False"

fun plain_body :: "'d http_body \<Rightarrow> bool" where
  "plain_body (Plain s) = True"
| "plain_body _ = False"

definition response_typed :: "'d server_response \<Rightarrow> bool" where
  "response_typed out \<longleftrightarrow>
     (if sp_status out = 200 then \<not> plain_body (sp_body out)
      else if sp_status out = 301 then plain_body (sp_body out)
      else if sp_status out = 404 then error_body (sp_body out) \<or> plain_body (sp_body out)
      else sp_status out \<in> {400, 401, 405, 502, 503} \<and> error_body (sp_body out))"

lemma written_typed [simp]:
  "response_typed (writeJSON 200 v)"
  "response_typed (writeError status msg) \<longleftrightarrow> status \<in> {200, 400, 401, 404, 405, 502, 503}"
  "response_typed (writeUnauthorized msg)"
  by (auto simp: response_typed_def writeJSON_def writeError_def writeUnauthorized_def encode_body_def json_Marshal_def
      split: option.splits)

lemma handlers_typed:
  "response_typed (fst (handleOrdersRoot T D s ctx r we))" "response_typed (fst (handleOrderSub D s r we))"
  "response_typed (fst (handleBalances D s ctx ord r we))" "response_typed (fst (handleRotateCreds D s we))"
  "response_typed (handleBook r w)" "response_typed (handleAdminStatus s w)" "response_typed (handleReadyz s)"
  "response_typed handleHealthz"
  by (auto simp: handleOrdersRoot_def handleOrderSub_def handleBalances_def handleRotateCreds_def handleBook_def
      handleAdminStatus_def handleReadyz_def handleHealthz_def Let_def
      split: sum.splits option.splits prod.splits dest!: parse_order_status)

lemma served_typed:
  "response_typed (fst (serve_route T D s ctx ord rt r we))" "response_typed (fst (mux_serve T D s ctx ord r we))"
proof -
  show *: "response_typed (fst (serve_route T D s ctx ord rt r we))" for rt
    by (cases rt) (simp_all add: handlers_typed)
  show "response_typed (fst (mux_serve T D s ctx ord r we))"
  proof (cases "mux_choose mux_routes r")
    case (Serve rt)
    then show ?thesis using * by (simp add: mux_serve_def)
  qed (simp_all add: mux_serve_def response_typed_def)
qed

section \<open>Properties\<close>

text \<open>
  C3. In production the gateway never trades. Once the program has started without \<open>DEV_MODE=1\<close>,
  after any sequence of requests, whatever the venue, the database and the clock do, the handler
  of \<open>POST /v1/orders\<close> answers every request with 400, 405 or 502 and leaves the connector, the
  store, the audit trail and the network exactly as they were: it sends orders without a client
  order id, which every exchange adapter requires.
\<close>

theorem production_never_trades:
  assumes "gateway_main F environ e0 = (Inr g, e1)" "\<not> dev_mode environ"
    and "run_calls (serve_one (pf_texts F) (pf_decimal F) (gw_service g) (gw_auth g)) rs (gw_world g, e1) = ((w, e2), outs)"
  shows "\<exists>out. handleOrdersRoot (pf_texts F) (pf_decimal F) (gw_service g) ctx r (w, e2) = (out, w, e2)
    \<and> sp_status out \<in> {400, 405, 502}"
proof -
  have conn: "sv_connector (gw_service g) = any_connector (pf_texts F) (pf_decimal F) (pf_order F)"
    using assms(1) by (rule gateway_main_connector)
  have "exchange_conn (w_conn (gw_world g))"
    using production_connector [OF assms(1,2)] by (auto simp: exchange_conn_def)
  then have "exchange_conn (w_conn w)" using exch.served_keep [OF conn assms(3)] by simp
  with conn show ?thesis by (rule exchange_refuses_orders)
qed

theorem production_never_trades_witness:
  "\<exists>g e1 out. gateway_main example_platform example_environ fixed_env = (Inr g, e1)
     \<and> handleOrdersRoot (pf_texts example_platform) (pf_decimal example_platform) (gw_service g) (\<lambda>_ _. None)
         \<lparr>sr_Method = ''POST'', sr_Path = ''/v1/orders'', sr_RawQuery = [], sr_Headers = [], sr_Body = ''{}''\<rparr> (gw_world g, e1)
         = (out, gw_world g, e1) \<and> sp_status out \<in> {400, 405, 502}"
proof -
  obtain g e1 where g: "gateway_main example_platform example_environ fixed_env = (Inr g, e1)" using example_starts by blast
  have "\<not> dev_mode example_environ" by (simp add: dev_mode_def example_variables)
  from production_never_trades [OF g this, of "[]"] g show ?thesis by auto
qed

text \<open>
  C39. Every response has one of a few shapes: for every request, in every state of the service
  and of its surroundings, the status is 200, 301, 400, 401, 404, 405, 502 or 503, a success is not
  plain text, and an error is a JSON object with the one member \<open>error\<close>, the router's own 404 apart.
\<close>

theorem responses_typed: "response_typed (fst (Routes T D s ctx ord auth r we))"
  using served_typed(2)
  by (cases we; cases auth) (auto simp: Routes_def Middleware_def time_Now_def Let_def split: sum.splits)

end
