(* ===== verification/Spec2Isabelle.thy ===== *)
theory Spec2Isabelle
  imports RateLimit WsBook WsClient Dummy Store GoJson Events AuditTrail AuthToken BookAgg Server Adapter
    Binance Kraken Otc Secrets Migrations Postgres Tracing Gateway Requests
begin

text \<open>
  A verification development for the exchange gateway, a Go service that puts one trading venue
  (Binance, Kraken, an OTC desk, or a dummy for development) behind one HTTP interface.

  \<^bold>\<open>The program and its parts.\<close> \<open>cmd/gateway-exchange/main.go\<close> reads the process environment, chooses a
  connector, a store and an audit sink, and hands them to the service of \<open>internal/server\<close>. The
  service answers HTTP requests behind the token check of \<open>internal/authtoken\<close>; it calls the
  connector, records orders and fills in the store (\<open>internal/store\<close>, \<open>internal/store/postgres\<close>), emits
  audit events (\<open>internal/audit\<close>) and publishes fill and balance events (\<open>internal/events\<close>). A connector
  (\<open>internal/adapters\<close>, \<open>internal/venue\<close>) limits its requests (\<open>internal/ratelimit\<close>), signs and sends
  them, and keeps order books from a WebSocket stream (\<open>internal/ws\<close>), whose top the aggregator
  (\<open>internal/book\<close>) holds for the service. Credentials come from \<open>internal/secrets\<close>.

  \<^bold>\<open>How it is modelled.\<close> Every operation is a function at the top level of its theory, named after the
  Go function (with the component's name in front where names clash); a struct is a record, an error
  a left injection or \<open>Some\<close> text, a panic or \<open>log.Fatal\<close> a value. State is passed explicitly. \<open>int64\<close>
  values are integers with \<open>wrap64\<close> written at every operation that can overflow, Kraken's nonce a
  64-bit word, \<open>float64\<close> exact rationals rounded to 53 bits. Code outside the repository is a parameter:
  the clock, identifiers, HTTP answers and files (record \<open>env\<close>, arbitrary functions of the number of
  questions asked, so nothing is assumed of them), decimal arithmetic (\<open>decimal_ops\<close>), the Kafka broker,
  the WebSocket library, the pool of PostgreSQL, the tracing SDK, and the order of Go's maps. The
  standard library the program uses (strings, JSON, base64, SHA-2, HMAC, URLs, time formats) is defined.

  \<^bold>\<open>The theories.\<close>
  \<^item> \<open>Prelude\<close>, \<open>GoFloat\<close>, \<open>GoTime\<close>, \<open>GoTimeParse\<close>, \<open>GoJson\<close>, \<open>GoDoc\<close>, \<open>GoUrl\<close>, \<open>GoHttp\<close>, \<open>GoCrypto\<close>, \<open>GoEnv\<close>:
    Go's arithmetic, strings and library, with round trips for JSON quoting, base64, integers and
    query strings. \<open>Metrics\<close>: the instruments of \<open>metrics.go\<close>.
  \<^item> \<open>RateLimit\<close>: the three limiters of \<open>ratelimit.go\<close>; how much they admit in a window and in any
    interval, silence after a backoff, recovery. Locale \<open>rate_limiter\<close>.
  \<^item> \<open>WsBook\<close>: book reconstruction of \<open>ws.go\<close>; snapshots with diffs, sorting against a reference.
    \<open>WsClient\<close>: the reconnecting client, its \<open>Run\<close> loop as a step relation with its invariant.
  \<^item> \<open>Venue\<close>, \<open>Dummy\<close>: the venue types, the connector interface as a record of operations, the dummy.
  \<^item> \<open>Store\<close>: the store interface (locale \<open>order_store\<close>) and the in-memory store; records are kept once.
    \<open>Migrations\<close>, \<open>Postgres\<close>: the schema runner and the PostgreSQL store down to its statements, a
    simulation of the in-memory store. What PostgreSQL does with these statements is stated as
    \<open>orders_table\<close>, \<open>fills_table\<close> and \<open>version_db\<close>.
  \<^item> \<open>Events\<close>: the event bus with retries and dead letters. \<open>AuditTrail\<close>: the sinks, the asynchronous one as
    a step relation in which no event is lost uncounted.
  \<^item> \<open>AuthToken\<close>: tokens down to HMAC-SHA-256; who passes the guard, and that issued tokens verify.
  \<^item> \<open>BookAgg\<close>, \<open>Server\<close>: the aggregator, every handler and the routes; what an accepted order leaves in
    the store and in the audit trail, and what the book route answers after a stream of updates.
  \<^item> \<open>Adapter\<close>: what the adapters share, and the contracts \<open>polite_client\<close>, \<open>nonce_client\<close> and
    \<open>client_id_required\<close>; \<open>adapter_call\<close> is a connector with its book feeds, to which the first two
    contracts extend (locales \<open>book_feed\<close>, \<open>polite_adapter\<close>, \<open>nonce_adapter\<close>). They are
    interpreted in \<open>Binance\<close>, \<open>Kraken\<close> and \<open>Otc\<close>, the three adapters with their signatures, decoders
    and book feeds.
  \<^item> \<open>Secrets\<close>: the credential manager against any vault (locale \<open>observed_vault\<close>), redaction, the record
    of rotations, the vault over the environment. \<open>Tracing\<close>: the set-up of tracing.
  \<^item> \<open>Gateway\<close>: the program; interface values are sums whose methods dispatch on the constructor.
    \<open>Requests\<close>: sequences of requests served one after another, what they keep of the connector (locale
    \<open>connector_invariant\<close>, interpreted for the dummy, the OTC desk and any exchange of a started
    gateway), and the type of the responses.
  This theory holds what spans components: the adapters under the service.

  \<^bold>\<open>Bounds.\<close> The JSON parser has fuel, twice the length of the text plus one, and a lemma shows that more
  changes nothing. Runs of the \<open>Run\<close> loop and of the asynchronous sink are unbounded step relations; that
  the sink's goroutine ends after \<open>Close\<close> is proved. All other loops are total functions.

  \<^bold>\<open>Not modelled.\<close> The listening socket, signals and the shutdown in \<open>main\<close>, the closing of Kafka writers,
  the wording of the standard library's decoding errors (parameter \<open>err_texts\<close>) and log lines. Mutexes
  make every method one step; data races are not considered. Case mapping of strings is that of ASCII.
\<close>

section \<open>What the three exchange adapters share\<close>

text \<open>
  A client keeps quiet after a refusal when the following holds for every call: if the last request
  it sends is a limited one and is answered with a refusing status, then no later sequence of
  calls sends a limited request while the clock reads earlier than \<open>pause\<close> after the refusal.
\<close>

definition quiet_client ::
    "('q \<Rightarrow> 'c \<times> env \<Rightarrow> 'r \<times> 'c \<times> env) \<Rightarrow> (http_request \<Rightarrow> bool) \<Rightarrow> (int \<Rightarrow> bool) \<Rightarrow> duration \<Rightarrow> bool" where
  "quiet_client call limited refusal pause \<longleftrightarrow>
     (\<forall>q c e r c1 e1 rqs rq resp body qs c2 e2 rs.
        call q (c, e) = (r, c1, e1) \<and> env_sent e1 = env_sent e @ rqs @ [rq] \<and> limited rq
        \<and> env_http e (length (env_sent e @ rqs)) rq = Inr resp \<and> rp_body resp = Inr body
        \<and> refusal (rp_status resp) \<and> venue_calls call qs (c1, e1) = ((c2, e2), rs)
        \<and> time_Add (env_clock e (env_ticks e1 - 1)) pause \<noteq> 0
        \<and> clock_before (time_Add (env_clock e (env_ticks e1 - 1)) pause) e1 e2
        \<longrightarrow> filter limited (env_sent e2) = filter limited (env_sent e1))"


context polite_client
begin

lemma quiet: "quiet_client call limited refusal pause"
  unfolding quiet_client_def using quiet_after_refusal by blast

end






section \<open>The service with an exchange behind it\<close>

context client_id_required
begin

lemma orders_refused:
  assumes "PlaceOrder (sv_connector s) = place"
  shows "\<exists>out. handleOrdersRoot T D s ctx r (w, e) = (out, w, e) \<and> sp_status out \<in> {400, 405, 502}"
proof (cases "parse_order T D r")
  case (Inl x)
  then show ?thesis
    using parse_order_status [of T D r] by (cases x) (auto simp: handleOrdersRoot_def)
next
  case (Inr x)
  obtain req vReq where x: "x = (req, vReq)" by force
  have "or_ClientOrderID vReq = []" using parse_order_no_client_id Inr x by blast
  then show ?thesis using assms Inr x by (simp add: handleOrdersRoot_def call_conn_def refused)
qed

end

text \<open>
  With a real exchange behind it the service never places an order. The handler of
  \<open>POST /v1/orders\<close> sends orders without a client order id, which the Binance, Kraken and OTC
  connectors require; so for every request, whatever it says, the answer is 400, 405 or 502, and
  the connector, the store, the audit trail and the network are exactly as before.
\<close>

theorem exchange_orders_always_refused:
  "(\<exists>out. handleOrdersRoot T D (sb\<lparr>sv_connector := Binance_connector T D\<rparr>) ctx r (wb, e) = (out, wb, e)
      \<and> sp_status out \<in> {400, 405, 502})
   \<and> (\<exists>out. handleOrdersRoot T D (sk\<lparr>sv_connector := Kraken_connector T D ord\<rparr>) ctx r (wk, e) = (out, wk, e)
      \<and> sp_status out \<in> {400, 405, 502})
   \<and> (\<exists>out. handleOrdersRoot T D (so\<lparr>sv_connector := Otc_connector T D\<rparr>) ctx r (wo, e) = (out, wo, e)
      \<and> sp_status out \<in> {400, 405, 502})"
  by (intro conjI; rule bn_id.orders_refused kr_id.orders_refused oc_id.orders_refused;
      simp add: Binance_connector_def Kraken_connector_def Otc_connector_def)

text \<open>
  With the OTC desk the service does not even start: the aggregator's subscription is refused,
  for every configuration.
\<close>

theorem otc_service_never_starts:
  "fst (NewService fallback (Otc_connector T D) audit cfg bus k p h (c, e)) = Inl ErrUnsupported"
  by (simp add: NewService_def NewBookAggregator_def Otc_connector_def Otc_SubscribeBook_def)

end
